(* ===== verification/Bridge_Prelude.thy ===== *)
theory Bridge_Prelude
  imports Main "HOL-Library.AList" "HOL-Library.Monad_Syntax" "HOL-Library.State_Monad"
    "HOL-Library.Multiset"
begin

text \<open>
  Shared vocabulary of the development: results of fallible Go functions, Go maps as
  association lists, and the generic facts on lists and maps that the component theories use.
  A Go function that returns \<open>(T, error)\<close> becomes a function into \<open>'e + 'a\<close> with the
  error on the left.  A Go map becomes an association list with distinct keys; where the source
  ranges over a map, the iteration order is a parameter or the result is shown not to depend
  on it.
\<close>

named_theorems wp_simps \<open>weakest-precondition equations of the effect monad\<close>
named_theorems go_defs \<open>definitions of the small Go library routines\<close>

section \<open>Results\<close>

type_synonym ('e, 'a) result = "'e + 'a"

definition rbind :: "'e + 'a \<Rightarrow> ('a \<Rightarrow> 'e + 'b) \<Rightarrow> 'e + 'b" where
  "rbind r f = (case r of Inl e \<Rightarrow> Inl e | Inr x \<Rightarrow> f x)"

definition rmap :: "('a \<Rightarrow> 'b) \<Rightarrow> 'e + 'a \<Rightarrow> 'e + 'b" where
  "rmap f r = (case r of Inl e \<Rightarrow> Inl e | Inr x \<Rightarrow> Inr (f x))"

definition is_ok :: "'e + 'a \<Rightarrow> bool" where
  "is_ok r = (case r of Inl _ \<Rightarrow> False | Inr _ \<Rightarrow> True)"

lemma rbind_simps [simp]: "rbind (Inl e) f = Inl e" "rbind (Inr x) f = f x"
  by (simp_all add: rbind_def)

lemma rmap_simps [simp]: "rmap f (Inl e) = Inl e" "rmap f (Inr x) = Inr (f x)"
  by (simp_all add: rmap_def)

lemma is_ok_simps [simp]: "\<not> is_ok (Inl e)" "is_ok (Inr x)"
  by (simp_all add: is_ok_def)

lemma rbind_eq_Inr: "rbind r f = Inr y \<longleftrightarrow> (\<exists>x. r = Inr x \<and> f x = Inr y)"
  by (cases r) auto

lemma rmap_eq_Inr: "rmap f r = Inr y \<longleftrightarrow> (\<exists>x. r = Inr x \<and> f x = y)"
  by (cases r) auto

text \<open>Eliminations that walk a successful run of a chain of checks: \<open>elim result_elims\<close>.\<close>

lemma rbind_InrE: "rbind r f = Inr y \<Longrightarrow> (\<And>x. r = Inr x \<Longrightarrow> f x = Inr y \<Longrightarrow> P) \<Longrightarrow> P"
  by (cases r) auto

lemma rmap_InrE: "rmap f r = Inr y \<Longrightarrow> (\<And>x. r = Inr x \<Longrightarrow> y = f x \<Longrightarrow> P) \<Longrightarrow> P"
  by (cases r) auto

lemma if_InrE: "(if b then Inl e else r) = Inr y \<Longrightarrow> (\<not> b \<Longrightarrow> r = Inr y \<Longrightarrow> P) \<Longrightarrow> P"
  by (simp split: if_splits)

lemma case_option_InrE:
  "(case x of None \<Rightarrow> Inl e | Some v \<Rightarrow> f v) = Inr y \<Longrightarrow> (\<And>v. x = Some v \<Longrightarrow> f v = Inr y \<Longrightarrow> P) \<Longrightarrow> P"
  by (simp split: option.splits)

lemmas result_elims = rbind_InrE rmap_InrE if_InrE case_option_InrE

text \<open>Go loops that return at the first error: collect the results in order.\<close>

fun collect :: "('a \<Rightarrow> 'e + 'b) \<Rightarrow> 'a list \<Rightarrow> 'e + 'b list" where
  "collect f [] = Inr []"
| "collect f (x # xs) = rbind (f x) (\<lambda>y. rmap ((#) y) (collect f xs))"

lemma collect_eq_Inr:
  "collect f xs = Inr ys \<longleftrightarrow> list_all2 (\<lambda>x y. f x = Inr y) xs ys"
proof (induction xs arbitrary: ys)
  case (Cons x xs)
  show ?case
    by (cases ys) (auto simp: rbind_eq_Inr rmap_eq_Inr Cons.IH)
qed auto

lemma collect_length: "collect f xs = Inr ys \<Longrightarrow> length ys = length xs"
  by (auto simp: collect_eq_Inr dest: list_all2_lengthD)

lemma collect_Inr_map: "(\<And>x. x \<in> set xs \<Longrightarrow> f x = Inr (g x)) \<Longrightarrow> collect f xs = Inr (map g xs)"
  by (induction xs) auto

text \<open>\<open>ptr.Deref\<close>: the value of a pointer, or a default for nil.\<close>

definition deref :: "'a \<Rightarrow> 'a option \<Rightarrow> 'a" where
  "deref d x = (case x of None \<Rightarrow> d | Some v \<Rightarrow> v)"

lemma deref_simps [simp]: "deref d None = d" "deref d (Some v) = v"
  by (simp_all add: deref_def)

text \<open>\<open>never e r\<close>: the result is not the error \<open>e\<close>; the rules follow the chain of checks.\<close>

definition never :: "'e \<Rightarrow> 'e + 'a \<Rightarrow> bool" where
  "never e r \<longleftrightarrow> r \<noteq> Inl e"

lemma never_Inr [simp, intro]: "never e (Inr x)"
  by (simp add: never_def)

lemma never_Inl [simp]: "never e (Inl e') \<longleftrightarrow> e' \<noteq> e"
  by (simp add: never_def)

lemma never_rbind: "never e r \<Longrightarrow> (\<And>x. r = Inr x \<Longrightarrow> never e (f x)) \<Longrightarrow> never e (rbind r f)"
  by (cases r) auto

lemma never_rmap: "never e r \<Longrightarrow> never e (rmap f r)"
  by (cases r) auto

lemma never_collect: "(\<And>x. x \<in> set xs \<Longrightarrow> never e (f x)) \<Longrightarrow> never e (collect f xs)"
  by (induction xs) (auto intro!: never_rbind never_rmap)

lemma never_if: "(b \<Longrightarrow> never e r) \<Longrightarrow> (\<not> b \<Longrightarrow> never e r') \<Longrightarrow> never e (if b then r else r')"
  by simp

lemma never_case_option:
  "(x = None \<Longrightarrow> never e r) \<Longrightarrow> (\<And>v. x = Some v \<Longrightarrow> never e (f v)) \<Longrightarrow> never e (case x of None \<Rightarrow> r | Some v \<Rightarrow> f v)"
  by (cases x) auto

lemmas never_intros = never_Inr never_rbind never_rmap never_collect never_if never_case_option

section \<open>Go maps as association lists\<close>

type_synonym ('k, 'v) gomap = "('k \<times> 'v) list"

definition gomap_ok :: "('k, 'v) gomap \<Rightarrow> bool" where
  "gomap_ok m = distinct (map fst m)"

definition get_or :: "'v \<Rightarrow> ('k, 'v) gomap \<Rightarrow> 'k \<Rightarrow> 'v" where
  "get_or d m k = (case map_of m k of None \<Rightarrow> d | Some v \<Rightarrow> v)"

lemma gomap_ok_update [simp]: "gomap_ok m \<Longrightarrow> gomap_ok (AList.update k v m)"
  by (simp add: gomap_ok_def distinct_update)

lemma gomap_ok_delete [simp]: "gomap_ok m \<Longrightarrow> gomap_ok (AList.delete k m)"
  by (simp add: gomap_ok_def distinct_delete)

lemma gomap_lookup_update [simp]: "map_of (AList.update k v m) k' = (if k' = k then Some v else map_of m k')"
  by (simp add: update_conv')

lemma gomap_lookup_delete [simp]: "map_of (AList.delete k m) k' = (if k' = k then None else map_of m k')"
  by (auto simp: delete_conv' delete_conv)

lemma gomap_update_same: "map_of m k = Some v \<Longrightarrow> AList.update k v m = m"
  by (induction m) auto

lemma dom_upd_alist: "dom (map_of (AList.update k v m)) = insert k (dom (map_of m))"
  by (auto simp: domIff split: if_splits)

lemma get_or_update [simp]: "get_or d (AList.update k v m) k' = (if k' = k then v else get_or d m k')"
  by (simp add: get_or_def)

text \<open>The contract of a finite keyed store, which the Go maps of the program rely on.\<close>

locale keyed_store =
  fixes empty :: "'m"
    and lookup :: "'m \<Rightarrow> 'k \<Rightarrow> 'v option"
    and put :: "'k \<Rightarrow> 'v \<Rightarrow> 'm \<Rightarrow> 'm"
    and drop_key :: "'k \<Rightarrow> 'm \<Rightarrow> 'm"
    and ok :: "'m \<Rightarrow> bool"
  assumes lookup_empty: "lookup empty = Map.empty"
    and lookup_put: "ok m \<Longrightarrow> lookup (put k v m) = (lookup m)(k \<mapsto> v)"
    and lookup_drop: "ok m \<Longrightarrow> lookup (drop_key k m) = (lookup m)(k := None)"
    and ok_empty: "ok empty"
    and ok_put: "ok m \<Longrightarrow> ok (put k v m)"
    and ok_drop: "ok m \<Longrightarrow> ok (drop_key k m)"
begin

definition put_all :: "('k \<times> 'v) list \<Rightarrow> 'm \<Rightarrow> 'm" where
  "put_all kvs m = fold (\<lambda>(k, v). put k v) kvs m"

lemma ok_put_all: "ok m \<Longrightarrow> ok (put_all kvs m)"
  by (induction kvs arbitrary: m) (auto simp: put_all_def ok_put)

lemma lookup_put_all: "ok m \<Longrightarrow> lookup (put_all kvs m) = lookup m ++ map_of (rev kvs)"
  by (induction kvs arbitrary: m) (auto simp: put_all_def ok_put lookup_put)

lemma put_drop_comm: "ok m \<Longrightarrow> k \<noteq> k' \<Longrightarrow>
    lookup (drop_key k' (put k v m)) = lookup (put k v (drop_key k' m))"
  by (simp add: lookup_put lookup_drop ok_put ok_drop fun_upd_twist)

end

interpretation gomap: keyed_store "[]" map_of AList.update AList.delete gomap_ok
  by unfold_locales (auto simp: gomap_ok_def distinct_update distinct_delete fun_eq_iff)

end
