(* ===== verification/Go_Text.thy ===== *)
theory Go_Text
  imports Bridge_Prelude "HOL-Library.Sublist" "HOL-Library.Signed_Division"
begin

text \<open>
  The parts of the Go language and its standard library that the components share: fixed-width
  signed conversions, the \<open>strings\<close> routines and \<open>strconv\<close>.  A Go string is the list of
  its bytes.  Signed machine integers are integers with the wrap-around of a conversion or an
  arithmetic step written out by \<^term>\<open>i32\<close> and \<^term>\<open>i64\<close> below.
\<close>

section \<open>Signed machine integers\<close>

definition i32 :: "int \<Rightarrow> int" where
  "i32 x = (x + 2147483648) mod 4294967296 - 2147483648"

definition i64 :: "int \<Rightarrow> int" where
  "i64 x = (x + 9223372036854775808) mod 18446744073709551616 - 9223372036854775808"

definition max_int32 :: int where "max_int32 = 2147483647"
definition max_int64 :: int where "max_int64 = 9223372036854775807"

lemma i32_id [simp]: "- 2147483648 \<le> x \<Longrightarrow> x \<le> 2147483647 \<Longrightarrow> i32 x = x"
  by (simp add: i32_def)

lemma i64_id [simp]: "- 9223372036854775808 \<le> x \<Longrightarrow> x \<le> 9223372036854775807 \<Longrightarrow> i64 x = x"
  by (simp add: i64_def)

lemma i32_range: "- 2147483648 \<le> i32 x \<and> i32 x \<le> 2147483647"
proof -
  have "0 \<le> (x + 2147483648) mod 4294967296" "(x + 2147483648) mod 4294967296 < 4294967296"
    by simp_all
  then show ?thesis by (auto simp: i32_def)
qed

lemma i64_range: "- 9223372036854775808 \<le> i64 x \<and> i64 x \<le> 9223372036854775807"
proof -
  have "0 \<le> (x + 9223372036854775808) mod 18446744073709551616"
    "(x + 9223372036854775808) mod 18446744073709551616 < 18446744073709551616"
    by simp_all
  then show ?thesis by (auto simp: i64_def)
qed

section \<open>Searching and splitting\<close>

text \<open>\<open>strings.Cut(s, sep)\<close> and \<open>strings.Split(s, sep)\<close> with a one-byte separator.\<close>

fun cut_at :: "char \<Rightarrow> string \<Rightarrow> (string \<times> string) option" where
  "cut_at c [] = None"
| "cut_at c (x # xs) = (if x = c then Some ([], xs)
     else map_option (\<lambda>(a, b). (x # a, b)) (cut_at c xs))"

fun split_on :: "char \<Rightarrow> string \<Rightarrow> string list" where
  "split_on c [] = [[]]"
| "split_on c (x # xs) = (if x = c then [] # split_on c xs
     else (case split_on c xs of [] \<Rightarrow> [[x]] | y # ys \<Rightarrow> (x # y) # ys))"

fun join_with :: "string \<Rightarrow> string list \<Rightarrow> string" where
  "join_with sep [] = []"
| "join_with sep [x] = x"
| "join_with sep (x # y # ys) = x @ sep @ join_with sep (y # ys)"

definition has_prefix :: "string \<Rightarrow> string \<Rightarrow> bool" where
  "has_prefix s p = prefix p s"

definition cut_prefix :: "string \<Rightarrow> string \<Rightarrow> string option" where
  "cut_prefix s p = (if prefix p s then Some (drop (length p) s) else None)"

definition contains_any :: "string \<Rightarrow> string \<Rightarrow> bool" where
  "contains_any s cs = (\<exists>c \<in> set s. c \<in> set cs)"

lemma split_on_ne [simp]: "split_on c s \<noteq> []"
  by (induction s) (auto split: list.splits)

lemma cut_at_None: "cut_at c s = None \<longleftrightarrow> c \<notin> set s"
  by (induction s) auto

lemma cut_at_Some: "cut_at c s = Some (a, b) \<longleftrightarrow> s = a @ c # b \<and> c \<notin> set a"
proof (induction s arbitrary: a)
  case (Cons x xs)
  show ?case
    by (cases a) (auto simp: Cons.IH)
qed auto

lemma split_on_free: "c \<notin> set s \<Longrightarrow> split_on c s = [s]"
  by (induction s) auto

lemma split_on_append: "c \<notin> set a \<Longrightarrow> split_on c (a @ c # b) = a # split_on c b"
  by (induction a) auto

lemma split_on_parts: "p \<in> set (split_on c s) \<Longrightarrow> c \<notin> set p"
  by (induction s arbitrary: p) (auto split: list.splits if_splits)

lemma split_on_nth_hd: "split_on c s = y # ys \<Longrightarrow> ys = [] \<Longrightarrow> y = s"
  by (induction s arbitrary: y ys) (auto split: list.splits if_splits)

lemma split_on_join: "ss \<noteq> [] \<Longrightarrow> (\<forall>s\<in>set ss. c \<notin> set s) \<Longrightarrow> split_on c (join_with [c] ss) = ss"
  by (induction "[c]" ss rule: join_with.induct) (auto simp: split_on_free split_on_append)

lemma join_with_Cons: "xs \<noteq> [] \<Longrightarrow> join_with sep (x # xs) = x @ sep @ join_with sep xs"
  by (cases xs) auto

lemma join_split_on: "join_with [c] (split_on c s) = s"
proof (induction s)
  case (Cons x xs)
  then show ?case
  proof (cases "split_on c xs")
    case (Cons y ys)
    with \<open>join_with [c] (split_on c xs) = xs\<close> show ?thesis
      by (cases ys) auto
  qed simp
qed simp

lemma cut_prefix_Some: "cut_prefix s p = Some r \<longleftrightarrow> s = p @ r"
  by (auto simp: cut_prefix_def prefix_def)

section \<open>White space\<close>

text \<open>
  \<open>strings.TrimSpace\<close> removes the Unicode White Space code points at both ends.  The list
  holds their UTF-8 encodings.
\<close>

definition space_runes :: "string list" where
  "space_runes =
     [[CHR 0x09], [CHR 0x0A], [CHR 0x0B], [CHR 0x0C], [CHR 0x0D], [CHR 0x20],
      [CHR 0xC2, CHR 0x85], [CHR 0xC2, CHR 0xA0], [CHR 0xE1, CHR 0x9A, CHR 0x80],
      [CHR 0xE2, CHR 0x80, CHR 0xA8], [CHR 0xE2, CHR 0x80, CHR 0xA9],
      [CHR 0xE2, CHR 0x80, CHR 0xAF], [CHR 0xE2, CHR 0x81, CHR 0x9F],
      [CHR 0xE3, CHR 0x80, CHR 0x80]]
     @ map (\<lambda>n. [CHR 0xE2, CHR 0x80, char_of n]) [128..<139::nat]"

function strip_front :: "string list \<Rightarrow> string \<Rightarrow> string" where
  "strip_front ws s = (case find (\<lambda>w. w \<noteq> [] \<and> prefix w s) ws of
     None \<Rightarrow> s | Some w \<Rightarrow> strip_front ws (drop (length w) s))"
  by auto
termination
proof (relation "measure (length \<circ> snd)", goal_cases)
  case (2 ws s w)
  then have "w \<noteq> []" "prefix w s" by (auto simp: find_Some_iff)
  then have "0 < length w" "length w \<le> length s" by (auto dest: prefix_length_le)
  then have "length s - length w < length s" by linarith
  then show ?case by simp
qed simp

declare strip_front.simps [simp del]

definition trim_space :: "string \<Rightarrow> string" where
  "trim_space s = rev (strip_front (map rev space_runes) (rev (strip_front space_runes s)))"

lemma strip_front_stop: "(\<forall>w\<in>set ws. w = [] \<or> \<not> prefix w s) \<Longrightarrow> strip_front ws s = s"
  by (subst strip_front.simps) (auto split: option.splits simp: find_Some_iff)

lemma strip_front_suffix: "\<exists>p. s = p @ strip_front ws s"
proof (induction ws s rule: strip_front.induct)
  case (1 ws s)
  show ?case
  proof (cases "find (\<lambda>w. w \<noteq> [] \<and> prefix w s) ws")
    case None
    then show ?thesis by (simp add: strip_front.simps [of ws s])
  next
    case (Some w)
    then have "prefix w s" by (auto simp: find_Some_iff)
    then obtain r where s: "s = w @ r" by (auto simp: prefix_def)
    from 1 [OF Some] s obtain p where "r = p @ strip_front ws r" by auto
    then have "s = (w @ p) @ strip_front ws r" using s by simp
    moreover have "strip_front ws s = strip_front ws r"
      unfolding strip_front.simps [of ws s] using Some s by simp
    ultimately show ?thesis by auto
  qed
qed

lemma strip_front_set: "set (strip_front ws s) \<subseteq> set s"
  using strip_front_suffix [of s ws] by (metis set_append Un_upper2)

lemma trim_space_set: "set (trim_space s) \<subseteq> set s"
proof -
  have "set (trim_space s) \<subseteq> set (rev (strip_front space_runes s))"
    unfolding trim_space_def set_rev by (metis set_rev strip_front_set)
  then show ?thesis using strip_front_set [of space_runes s] by auto
qed

section \<open>Numbers\<close>

text \<open>
  \<open>strconv.ParseUint(s, 10, bits)\<close>, \<open>strconv.ParseInt(s, 10, bits)\<close> and
  \<open>strconv.Itoa\<close>/\<open>FormatUint\<close>.  The parsers reject the empty string, any byte that is not
  a decimal digit and a value outside the requested width; callers only test for an error, so
  the two error kinds of \<open>strconv\<close> are one \<^term>\<open>None\<close>.
\<close>

definition digit_char :: "nat \<Rightarrow> char" where
  "digit_char d = char_of (48 + d)"

definition is_digit :: "char \<Rightarrow> bool" where
  "is_digit c = (48 \<le> (of_char c :: nat) \<and> (of_char c :: nat) \<le> 57)"

definition digit_val :: "char \<Rightarrow> nat" where
  "digit_val c = of_char c - 48"

definition digits_val :: "string \<Rightarrow> nat" where
  "digits_val s = foldl (\<lambda>a c. 10 * a + digit_val c) 0 s"

definition parse_uint :: "nat \<Rightarrow> string \<Rightarrow> nat option" where
  "parse_uint bits s = (if s = [] \<or> \<not> list_all is_digit s \<or> 2 ^ bits \<le> digits_val s
     then None else Some (digits_val s))"

definition parse_int :: "nat \<Rightarrow> string \<Rightarrow> int option" where
  "parse_int bits s =
     (let neg = (take 1 s = ''-'');
          body = (if take 1 s = ''-'' \<or> take 1 s = ''+'' then drop 1 s else s)
      in case parse_uint bits body of
           None \<Rightarrow> None
         | Some u \<Rightarrow> if \<not> neg \<and> 2 ^ (bits - 1) \<le> u then None
                     else if neg \<and> 2 ^ (bits - 1) < u then None
                     else Some (if neg then - int u else int u))"

fun show_nat :: "nat \<Rightarrow> string" where
  "show_nat n = (if n < 10 then [digit_char n] else show_nat (n div 10) @ [digit_char (n mod 10)])"

definition show_int :: "int \<Rightarrow> string" where
  "show_int i = (if i < 0 then CHR ''-'' # show_nat (nat (- i)) else show_nat (nat i))"

declare show_nat.simps [simp del]

lemma digit_char_props [simp]:
  assumes "d < 10" shows "is_digit (digit_char d)" "digit_val (digit_char d) = d"
  using assms by (auto simp: is_digit_def digit_char_def digit_val_def take_bit_nat_eq_self)

lemma show_nat_ne [simp]: "show_nat n \<noteq> []"
  by (subst show_nat.simps) auto

lemma show_nat_digits: "list_all is_digit (show_nat n)"
  by (induction n rule: show_nat.induct) (subst show_nat.simps, auto)

lemma show_nat_val [simp]: "digits_val (show_nat n) = n"
  by (induction n rule: show_nat.induct) (subst show_nat.simps, auto simp: digits_val_def)

lemma show_nat_inj [simp]: "show_nat m = show_nat n \<longleftrightarrow> m = n"
  by (metis show_nat_val)

lemma parse_uint_bound: "parse_uint bits s = Some n \<Longrightarrow> n < 2 ^ bits"
  by (auto simp: parse_uint_def split: if_splits)

lemma parse_uint_show [simp]: "n < 2 ^ bits \<Longrightarrow> parse_uint bits (show_nat n) = Some n"
  using show_nat_digits by (auto simp: parse_uint_def)

lemma not_digit_show: "\<not> is_digit c \<Longrightarrow> c \<notin> set (show_nat n)"
  using show_nat_digits [of n] by (auto simp: list_all_iff)

lemma parse_uint_digits: "parse_uint bits s = Some n \<Longrightarrow> s \<noteq> [] \<and> list_all is_digit s"
  by (auto simp: parse_uint_def split: if_splits)

lemma parse_int_range:
  assumes "parse_int bits s = Some i" shows "- (2 ^ (bits - 1)) \<le> i \<and> i < 2 ^ (bits - 1)"
proof -
  have le: "int u \<le> 2 ^ k" if "\<not> 2 ^ k < u" for u k :: nat
    using that by (metis linorder_not_less of_nat_le_iff of_nat_numeral of_nat_power)
  have lt: "int u < 2 ^ k" if "\<not> 2 ^ k \<le> u" for u k :: nat
    using that by (metis linorder_not_less of_nat_le_iff of_nat_numeral of_nat_power)
  have ge0: "(0::int) < 2 ^ k" for k :: nat by simp
  from assms show ?thesis
    by (auto simp: parse_int_def Let_def split: option.splits if_splits dest!: le lt)
      (use ge0 in \<open>smt (verit) of_nat_0_le_iff\<close>)+
qed

text \<open>Text that starts and ends with a digit has no white space to trim.\<close>

lemma space_runes_not_digit:
  "list_all (\<lambda>w. w \<noteq> [] \<and> \<not> is_digit (hd w) \<and> \<not> is_digit (last w)) space_runes"
  by code_simp

lemma prefix_hd: "prefix w s \<Longrightarrow> w \<noteq> [] \<Longrightarrow> hd w = hd s"
  by (auto simp: prefix_def)

lemma trim_space_digits:
  assumes "is_digit (hd s)" "is_digit (last s)"
  shows "trim_space s = s"
proof (cases "s = []")
  case False
  have "strip_front space_runes s = s"
    using space_runes_not_digit assms
    by (intro strip_front_stop) (auto simp: list_all_iff dest!: prefix_hd)
  moreover have "strip_front (map rev space_runes) (rev s) = rev s"
    using space_runes_not_digit assms False
    by (intro strip_front_stop) (auto simp: list_all_iff hd_rev dest!: prefix_hd)
  ultimately show ?thesis by (simp add: trim_space_def)
qed (simp add: trim_space_def strip_front_stop)

lemma is_digit_show_ends [simp]: "is_digit (hd (show_nat n))" "is_digit (last (show_nat n))"
  using show_nat_digits [of n] by (simp_all add: list_all_iff)

section \<open>Codecs\<close>

text \<open>
  The contract of an encoder and its decoder: on valid values the decoder inverts the encoder.
  Injectivity of the encoder on valid values, which keyed lookups depend on, follows once.
\<close>

locale codec =
  fixes enc :: "'a \<Rightarrow> 'b" and dec :: "'b \<Rightarrow> 'a option" and valid :: "'a \<Rightarrow> bool"
  assumes dec_enc: "valid x \<Longrightarrow> dec (enc x) = Some x"
begin

lemma enc_inj: "valid x \<Longrightarrow> valid y \<Longrightarrow> enc x = enc y \<Longrightarrow> x = y"
  by (metis dec_enc option.inject)

lemma enc_inj_on: "inj_on enc {x. valid x}"
  by (auto intro: inj_onI enc_inj)

lemma enc_distinct: "distinct xs \<Longrightarrow> list_all valid xs \<Longrightarrow> distinct (map enc xs)"
  by (induction xs) (auto simp: list_all_iff dest: enc_inj)

lemma dec_map: "list_all valid xs \<Longrightarrow> map (dec \<circ> enc) xs = map Some xs"
  by (simp add: list_all_iff dec_enc)

end

interpretation decimal: codec show_nat "parse_uint bits" "\<lambda>n. n < 2 ^ bits" for bits
  by unfold_locales simp

end
