(* ===== verification/Time_Limit.thy ===== *)
theory Time_Limit
  imports Go_Text
begin

text \<open>
  \<open>internal/utils/timelimit\<close>: the job time-limit annotation, read as minutes, as a
  Prometheus duration or as one of Slurm's \<open>--time\<close> formats.  The Prometheus parser is a
  parameter \<open>pd\<close> that returns nanoseconds.  Every int64 step of the source carries its
  wrap-around \<^term>\<open>i64\<close>; the lemmas show that no step wraps and that the result rounds up.
\<close>

section \<open>Definitions\<close>

definition secondsPerMinute :: int where "secondsPerMinute = 60"
definition secondsPerHour :: int where "secondsPerHour = 60 * secondsPerMinute"
definition secondsPerDay :: int where "secondsPerDay = 24 * secondsPerHour"
definition nanosPerSecond :: int where "nanosPerSecond = 1000000000"

datatype limit_reason =
    ValueEmpty | ValueNegative | TooManyMinutes
  | NotWholeNumber string | ExpectedDayForm | ExpectedClockForm
  | DurationError string | FieldIndexPanic

datatype limit_error = InvalidLimit string limit_reason

definition toMinutes :: "string \<Rightarrow> int \<Rightarrow> limit_error + int" where
  "toMinutes value seconds =
     (let minutes = seconds sdiv secondsPerMinute;
          minutes = (if seconds smod secondsPerMinute \<noteq> 0 then i64 (minutes + 1) else minutes)
      in if minutes > max_int32 then Inl (InvalidLimit value TooManyMinutes)
         else Inr (i32 minutes))"

definition parseDuration :: "(string \<Rightarrow> string + int) \<Rightarrow> string \<Rightarrow> limit_reason + int" where
  "parseDuration pd s = (case pd s of
       Inl e \<Rightarrow> Inl (DurationError e)
     | Inr d \<Rightarrow>
         (let seconds = d sdiv nanosPerSecond
          in Inr (if d smod nanosPerSecond \<noteq> 0 then i64 (seconds + 1) else seconds)))"

definition parseField :: "string \<Rightarrow> limit_reason + int" where
  "parseField s = (case parse_uint 32 s of
     None \<Rightarrow> Inl (NotWholeNumber s) | Some v \<Rightarrow> Inr (int v))"

fun addFields :: "int \<Rightarrow> string list \<Rightarrow> int list \<Rightarrow> limit_reason + int" where
  "addFields seconds [] units = Inr seconds"
| "addFields seconds (field # fields) units =
     rbind (parseField field) (\<lambda>v. case units of
         [] \<Rightarrow> Inl FieldIndexPanic
       | u # us \<Rightarrow> addFields (i64 (seconds + i64 (v * u))) fields us)"

definition parseSlurmTime :: "string \<Rightarrow> limit_reason + int" where
  "parseSlurmTime s =
     (let hasDays = (cut_at CHR ''-'' s \<noteq> None);
          start = (case cut_at CHR ''-'' s of
              None \<Rightarrow> Inr (0, s)
            | Some (days, afterDays) \<Rightarrow>
                rmap (\<lambda>v. (i64 (v * secondsPerDay), afterDays)) (parseField days))
      in rbind start (\<lambda>(seconds, rest).
           let fields = split_on CHR '':'' rest in
           if hasDays \<and> length fields > 3 then Inl ExpectedDayForm
           else if \<not> hasDays \<and> length fields = 2 then
             addFields seconds fields [secondsPerMinute, 1]
           else if \<not> hasDays \<and> length fields \<noteq> 3 then Inl ExpectedClockForm
           else addFields seconds fields [secondsPerHour, secondsPerMinute, 1]))"

definition Parse :: "(string \<Rightarrow> string + int) \<Rightarrow> string \<Rightarrow> limit_error + int" where
  "Parse pd value =
     (let s = trim_space value in
      if s = [] then Inl (InvalidLimit value ValueEmpty)
      else if has_prefix s ''-'' then Inl (InvalidLimit value ValueNegative)
      else case parse_uint 31 s of
          Some minutes \<Rightarrow> toMinutes value (i64 (int minutes * secondsPerMinute))
        | None \<Rightarrow>
            (case (if contains_any s '':-'' then parseSlurmTime s else parseDuration pd s) of
               Inl e \<Rightarrow> Inl (InvalidLimit value e)
             | Inr seconds \<Rightarrow> toMinutes value seconds))"

lemmas limit_units = secondsPerMinute_def secondsPerHour_def secondsPerDay_def nanosPerSecond_def

section \<open>No step wraps, no field is indexed out of range\<close>

text \<open>The reference reading: unbounded integers, one weight per field.\<close>

definition weigh :: "int list \<Rightarrow> int list \<Rightarrow> int" where
  "weigh vs us = sum_list (map2 (*) vs us)"

lemma parseField_range: "parseField s = Inr v \<Longrightarrow> 0 \<le> v \<and> v < 4294967296"
  using parse_uint_bound [of 32 s] by (auto simp: parseField_def split: option.splits)

lemma addFields_exact:
  assumes "length fields \<le> length units" "\<forall>u\<in>set units. 0 < u \<and> u \<le> 3600"
    and "0 \<le> seconds" "seconds + 3600 * 4294967296 * int (length fields) \<le> max_int64"
  shows "addFields seconds fields units =
    rmap (\<lambda>vs. seconds + weigh vs units) (collect parseField fields)"
  using assms
proof (induction seconds fields units rule: addFields.induct)
  case (2 seconds field fields units)
  then obtain u us where units: "units = u # us" by (cases units) auto
  show ?case
  proof (cases "parseField field")
    case (Inr v)
    have u: "0 < u" "u \<le> 3600" using 2 units by auto
    have v: "0 \<le> v" "v < 4294967296" using parseField_range [OF Inr] by auto
    have "v * u \<le> 4294967296 * 3600" "0 \<le> v * u"
      using u v mult_mono [of v 4294967296 u 3600] by auto
    moreover have "seconds + v * u \<le> max_int64" "0 \<le> seconds + v * u"
      and rest: "(seconds + v * u) + 3600 * 4294967296 * int (length fields) \<le> max_int64"
      using "2.prems"(3,4) calculation by (auto simp: algebra_simps)
    ultimately have wrap: "i64 (v * u) = v * u" "i64 (seconds + v * u) = seconds + v * u"
      using "2.prems"(3) by (simp_all add: max_int64_def)
    have "addFields (seconds + v * u) fields us =
        rmap (\<lambda>vs. seconds + v * u + weigh vs us) (collect parseField fields)"
      using "2.IH" [OF units, of v] wrap "2.prems"(1,2) rest \<open>0 \<le> seconds + v * u\<close> units
      by (simp add: wrap)
    then show ?thesis
      using Inr units wrap by (cases "collect parseField fields") (auto simp: weigh_def)
  qed simp
qed (simp add: weigh_def)

text \<open>The exact total of a Slurm time: days, then the clock fields by their weights.\<close>

definition exactSlurmTime :: "string \<Rightarrow> limit_reason + int" where
  "exactSlurmTime s = (case cut_at CHR ''-'' s of
      Some (days, clock) \<Rightarrow> rbind (parseField days) (\<lambda>d.
        if length (split_on CHR '':'' clock) > 3 then Inl ExpectedDayForm
        else rmap (\<lambda>vs. 86400 * d + weigh vs [3600, 60, 1])
               (collect parseField (split_on CHR '':'' clock)))
    | None \<Rightarrow>
        (let fields = split_on CHR '':'' s in
         if length fields = 2 then rmap (\<lambda>vs. weigh vs [60, 1]) (collect parseField fields)
         else if length fields \<noteq> 3 then Inl ExpectedClockForm
         else rmap (\<lambda>vs. weigh vs [3600, 60, 1]) (collect parseField fields)))"

lemma parseSlurmTime_exact: "parseSlurmTime s = exactSlurmTime s"
proof (cases "cut_at CHR ''-'' s")
  case None
  have "addFields 0 fs us = rmap (\<lambda>vs. weigh vs us) (collect parseField fs)"
    if "length fs \<le> length us" "length fs \<le> 3" "\<forall>u\<in>set us. 0 < u \<and> u \<le> 3600" for fs us
    using addFields_exact [of fs us 0] that by (simp add: max_int64_def)
  then show ?thesis using None
    by (simp add: parseSlurmTime_def exactSlurmTime_def limit_units Let_def)
next
  case (Some p)
  obtain days clock where p: "p = (days, clock)" by fastforce
  show ?thesis
  proof (cases "parseField days")
    case (Inr d)
    note d = parseField_range [OF Inr]
    have "addFields (86400 * d) fs [3600, 60, 1] =
        rmap (\<lambda>vs. 86400 * d + weigh vs [3600, 60, 1]) (collect parseField fs)"
      if "length fs \<le> 3" for fs
      using addFields_exact [of fs "[3600, 60, 1]" "86400 * d"] that d by (simp add: max_int64_def)
    then show ?thesis using Some p Inr d
      by (simp add: parseSlurmTime_def exactSlurmTime_def limit_units Let_def mult.commute)
  qed (use Some p in \<open>simp add: parseSlurmTime_def exactSlurmTime_def Let_def\<close>)
qed

lemma weigh_range:
  assumes "\<forall>v\<in>set vs. 0 \<le> v \<and> v < 4294967296" "\<forall>u\<in>set us. 0 < u \<and> u \<le> 3600"
  shows "0 \<le> weigh vs us \<and> weigh vs us \<le> 4294967296 * 3600 * int (length us)"
  using assms
proof (induction us arbitrary: vs)
  case (Cons u us)
  show ?case
  proof (cases vs)
    case (Cons v vs')
    have "0 \<le> v * u" "v * u \<le> 4294967296 * 3600"
      using Cons.prems Cons mult_mono [of v 4294967296 u 3600] by auto
    then show ?thesis
      using Cons.prems Cons Cons.IH [of vs'] by (auto simp: weigh_def algebra_simps)
  qed (simp add: weigh_def)
qed (simp add: weigh_def)

lemma collect_parseField_range:
  "collect parseField fs = Inr vs \<Longrightarrow> \<forall>v\<in>set vs. 0 \<le> v \<and> v < 4294967296"
  by (auto simp: collect_eq_Inr list_all2_conv_all_nth in_set_conv_nth dest!: parseField_range)

lemma parseSlurmTime_range:
  assumes "parseSlurmTime s = Inr sec"
  shows "0 \<le> sec \<and> sec < 4294967296 * 100000"
proof -
  have w: "0 \<le> weigh vs us \<and> weigh vs us \<le> 4294967296 * 3600 * 3"
    if "collect parseField fs = Inr vs" "us = [3600, 60, 1] \<or> us = [60, 1]" for fs vs us
    using weigh_range [OF collect_parseField_range [OF that(1)], of us] that(2) by auto
  note w3 = w [where us = "[3600, 60, 1]", simplified]
  note w2 = w [where us = "[60, 1]", simplified]
  from assms show ?thesis
    unfolding parseSlurmTime_exact exactSlurmTime_def Let_def
    by (auto simp: rbind_eq_Inr rmap_eq_Inr split: option.splits prod.splits if_splits
        dest!: parseField_range dest: w2 w3)
qed

section \<open>Rounding\<close>

text \<open>Rounding up on unbounded integers, and the reference reading of a whole annotation.\<close>

definition ceil_div :: "int \<Rightarrow> int \<Rightarrow> int" where
  "ceil_div a b = - ((- a) div b)"

definition limitSeconds :: "(string \<Rightarrow> string + int) \<Rightarrow> string \<Rightarrow> limit_reason + int" where
  "limitSeconds pd s =
     (if s = [] then Inl ValueEmpty
      else if has_prefix s ''-'' then Inl ValueNegative
      else if list_all is_digit s \<and> digits_val s < 2 ^ 31 then Inr (60 * int (digits_val s))
      else if contains_any s '':-'' then exactSlurmTime s
      else (case pd s of Inl e \<Rightarrow> Inl (DurationError e) | Inr d \<Rightarrow> Inr (ceil_div d 1000000000)))"

lemma ceil_div_bounds:
  assumes "0 < b" shows "b * (ceil_div a b - 1) < a \<and> a \<le> b * ceil_div a b"
proof -
  have "b * ((- a) div b) = - a - (- a) mod b" by (rule minus_mod_eq_mult_div [symmetric])
  moreover have "0 \<le> (- a) mod b" "(- a) mod b < b" using assms by simp_all
  moreover have "b * (ceil_div a b - 1) = - (b * ((- a) div b)) - b"
    "b * ceil_div a b = - (b * ((- a) div b))"
    by (simp_all add: ceil_div_def right_diff_distrib)
  ultimately show ?thesis by linarith
qed

lemma ceil_div_range:
  assumes "0 \<le> a" "0 < b" shows "0 \<le> ceil_div a b \<and> ceil_div a b \<le> a"
proof -
  let ?c = "ceil_div a b"
  note b = ceil_div_bounds [OF assms(2), of a]
  have "0 \<le> ?c"
  proof (rule ccontr)
    assume "\<not> 0 \<le> ?c"
    then have "b * ?c < 0" using assms by (simp add: mult_pos_neg)
    then show False using b assms by linarith
  qed
  moreover have "?c \<le> a"
  proof (cases "1 \<le> ?c")
    case True
    then have "?c - 1 \<le> b * (?c - 1)" using assms mult_right_mono [of 1 b "?c - 1"] by simp
    then show ?thesis using b by linarith
  qed (use assms in linarith)
  ultimately show ?thesis by simp
qed

lemma ceil_div_trunc:
  assumes "0 \<le> a" "0 < b"
  shows "(if a smod b \<noteq> 0 then a sdiv b + 1 else a sdiv b) = ceil_div a b"
proof -
  have "a sdiv b = a div b" "a smod b = a mod b"
    using assms by (simp_all add: signed_divide_int_def signed_modulo_int_def sgn_if
        minus_div_mult_eq_mod)
  then show ?thesis using assms by (simp add: ceil_div_def div_minus_minus zdiv_zminus1_eq_if)
qed

lemma toMinutes_exact:
  assumes "0 \<le> sec" "sec \<le> max_int64"
  shows "toMinutes v sec = (if ceil_div sec 60 > max_int32 then Inl (InvalidLimit v TooManyMinutes)
    else Inr (ceil_div sec 60))"
proof -
  have c: "(if sec smod 60 \<noteq> 0 then sec sdiv 60 + 1 else sec sdiv 60) = ceil_div sec 60"
    using ceil_div_trunc [of sec 60] assms by simp
  have r: "0 \<le> ceil_div sec 60" "ceil_div sec 60 \<le> max_int64"
    using assms ceil_div_range [of sec 60] by auto
  then have "(if sec smod 60 \<noteq> 0 then i64 (sec sdiv 60 + 1) else sec sdiv 60) = ceil_div sec 60"
    using c by (auto simp: max_int64_def split: if_splits)
  then show ?thesis using r
    by (simp add: toMinutes_def secondsPerMinute_def Let_def max_int32_def)
qed

lemma parseDuration_exact:
  assumes "\<And>d. pd s = Inr d \<Longrightarrow> 0 \<le> d \<and> d \<le> max_int64"
  shows "parseDuration pd s = (case pd s of Inl e \<Rightarrow> Inl (DurationError e)
    | Inr d \<Rightarrow> Inr (ceil_div d 1000000000))"
proof (cases "pd s")
  case (Inr d)
  have d: "0 \<le> d" "d \<le> max_int64" using assms Inr by auto
  have "0 \<le> ceil_div d 1000000000" "ceil_div d 1000000000 \<le> max_int64"
    using d ceil_div_range [of d 1000000000] by auto
  then show ?thesis
    using Inr ceil_div_trunc [of d 1000000000] d
    by (auto simp: parseDuration_def nanosPerSecond_def Let_def max_int64_def split: if_splits)
qed (simp add: parseDuration_def)

text \<open>
  C18.  Parse computes the minutes of the annotation exactly: over every notation the result is
  the exact number of seconds (unbounded arithmetic, one weight per field) rounded up to whole
  minutes, it is rejected exactly when that count exceeds the int32 range of Slurm's field, and a
  malformed value is rejected with its reason.  No int64 step of the code wraps and no clock
  field is indexed out of range.  Hypothesis: the Prometheus parser returns non-negative int64
  durations.
\<close>

theorem Parse_exact:
  assumes "\<forall>s d. pd s = Inr d \<longrightarrow> 0 \<le> d \<and> d \<le> max_int64"
  shows "Parse pd value = (case limitSeconds pd (trim_space value) of
      Inl e \<Rightarrow> Inl (InvalidLimit value e)
    | Inr sec \<Rightarrow> if ceil_div sec 60 > max_int32 then Inl (InvalidLimit value TooManyMinutes)
                else Inr (ceil_div sec 60))"
proof -
  let ?s = "trim_space value"
  have dur: "parseDuration pd ?s = (case pd ?s of Inl e \<Rightarrow> Inl (DurationError e)
      | Inr d \<Rightarrow> Inr (ceil_div d 1000000000))"
    using assms by (intro parseDuration_exact) auto
  have dr: "0 \<le> ceil_div d 1000000000 \<and> ceil_div d 1000000000 \<le> max_int64"
    if "pd ?s = Inr d" for d
  proof -
    have "0 \<le> d" "d \<le> max_int64" using assms that by auto
    then show ?thesis using ceil_div_range [of d 1000000000] by auto
  qed
  have st: "0 \<le> sec \<and> sec \<le> max_int64" if "exactSlurmTime ?s = Inr sec" for sec
    using parseSlurmTime_range [of ?s sec] that by (simp add: parseSlurmTime_exact max_int64_def)
  have u: "toMinutes value (i64 (int n * 60)) = toMinutes value (60 * int n)
      \<and> 0 \<le> 60 * int n \<and> 60 * int n \<le> max_int64" if "n < 2 ^ 31" for n :: nat
    using that by (simp add: max_int64_def mult.commute)
  show ?thesis
    using dr st u
    by (auto simp: Parse_def limitSeconds_def Let_def parse_uint_def dur parseSlurmTime_exact
        secondsPerMinute_def toMinutes_exact split: sum.splits)
qed

theorem Parse_exact_witness:
  "Parse (\<lambda>s. if s = ''90s'' then Inr 90000000000 else Inl ''unknown unit'') ''90s'' = Inr 2"
proof -
  let ?pd = "\<lambda>s. if s = ''90s'' then Inr 90000000000 else (Inl ''unknown unit'' :: string + int)"
  have h: "\<forall>s d. ?pd s = Inr d \<longrightarrow> 0 \<le> d \<and> d \<le> max_int64" by (simp add: max_int64_def)
  have "trim_space ''90s'' = ''90s''" by code_simp
  moreover have "limitSeconds ?pd ''90s'' = Inr 90" by code_simp
  moreover have "ceil_div 90 60 = 2" by code_simp
  ultimately show ?thesis using h Parse_exact [OF h, of "''90s''"] by (simp add: max_int32_def)
qed



end
