(* ===== verification/Slurm_Constraint.thy ===== *)
theory Slurm_Constraint
  imports Go_Text
begin

text \<open>
  \<open>internal/utils/slurmconstraint\<close>: adding a required feature to a user's Slurm constraint
  expression.  The operations are \<open>Compose\<close> and its scanner \<open>analyze\<close>.  The meaning of an
  expression follows the grammar rules in the package comment: operators apply strictly from
  left to right, parentheses group one level, and a bracket group is a unit whose own meaning
  (a property of the whole node set) stays abstract.
\<close>

section \<open>Definitions\<close>

record expressionShape =
  topLevelOr :: bool
  hasParens :: bool
  hasBrackets :: bool
  countOutsideBrackets :: bool

datatype constraint_error =
    NestedParens | UnbalancedParens | BracketsInParens | SecondBrackets | UnbalancedBrackets
  | CountOutsideBrackets string | OrOutsideGroup string

fun scanStep :: "expressionShape \<times> int \<times> int \<Rightarrow> char \<Rightarrow> constraint_error + (expressionShape \<times> int \<times> int)" where
  "scanStep (shape, paren, bracket) c =
     (if c = CHR ''('' then
        (if paren + 1 > 1 then Inl NestedParens
         else Inr (shape\<lparr>hasParens := True\<rparr>, paren + 1, bracket))
      else if c = CHR '')'' then
        (if paren - 1 < 0 then Inl UnbalancedParens else Inr (shape, paren - 1, bracket))
      else if c = CHR ''['' then
        (if paren > 0 then Inl BracketsInParens
         else if hasBrackets shape then Inl SecondBrackets
         else Inr (shape\<lparr>hasBrackets := True\<rparr>, paren, bracket + 1))
      else if c = CHR '']'' then
        (if bracket - 1 < 0 then Inl UnbalancedBrackets else Inr (shape, paren, bracket - 1))
      else if c = CHR ''|'' then
        Inr (if paren = 0 \<and> bracket = 0 then shape\<lparr>topLevelOr := True\<rparr> else shape, paren, bracket)
      else if c = CHR ''*'' then
        Inr (if bracket = 0 then shape\<lparr>countOutsideBrackets := True\<rparr> else shape, paren, bracket)
      else Inr (shape, paren, bracket))"

fun scanAll :: "expressionShape \<times> int \<times> int \<Rightarrow> string \<Rightarrow> constraint_error + (expressionShape \<times> int \<times> int)" where
  "scanAll st [] = Inr st"
| "scanAll st (c # cs) = rbind (scanStep st c) (\<lambda>st'. scanAll st' cs)"

definition emptyShape :: expressionShape where
  "emptyShape = \<lparr>topLevelOr = False, hasParens = False, hasBrackets = False, countOutsideBrackets = False\<rparr>"

definition analyze :: "string \<Rightarrow> constraint_error + expressionShape" where
  "analyze constraints = rbind (scanAll (emptyShape, 0, 0) constraints) (\<lambda>(shape, paren, bracket).
     if paren \<noteq> 0 then Inl UnbalancedParens
     else if bracket \<noteq> 0 then Inl UnbalancedBrackets
     else Inr shape)"

definition Compose :: "string \<Rightarrow> string \<Rightarrow> constraint_error + string" where
  "Compose required cs =
     (let constraints = trim_space cs in
      if constraints = [] \<or> constraints = required then Inr required
      else rbind (analyze constraints) (\<lambda>shape.
        if countOutsideBrackets shape then Inl (CountOutsideBrackets constraints)
        else if \<not> topLevelOr shape then Inr (required @ ''&'' @ constraints)
        else if hasParens shape \<or> hasBrackets shape then Inl (OrOutsideGroup constraints)
        else Inr (required @ ''&('' @ constraints @ '')'')))"

section \<open>Meaning of an expression\<close>

text \<open>The operands of the top-level operators, each with the operator before it.\<close>

definition depth_step :: "char \<Rightarrow> nat \<times> nat \<Rightarrow> nat \<times> nat" where
  "depth_step c d = (case d of (p, b) \<Rightarrow>
     if c = CHR ''('' then (p + 1, b) else if c = CHR '')'' then (p - 1, b)
     else if c = CHR ''['' then (p, b + 1) else if c = CHR '']'' then (p, b - 1) else (p, b))"

fun operands :: "nat \<times> nat \<Rightarrow> string \<Rightarrow> string \<times> (char \<times> string) list" where
  "operands d [] = ([], [])"
| "operands d (c # cs) =
     (if d = (0, 0) \<and> (c = CHR ''&'' \<or> c = CHR ''|'')
      then (case operands d cs of (h, t) \<Rightarrow> ([], (c, h) # t))
      else (case operands (depth_step c d) cs of (h, t) \<Rightarrow> (c # h, t)))"

definition left_to_right :: "(string \<Rightarrow> bool) \<Rightarrow> string \<times> (char \<times> string) list \<Rightarrow> bool" where
  "left_to_right v e = (case e of (h, t) \<Rightarrow>
     foldl (\<lambda>a (c, w). if c = CHR ''&'' then a \<and> v w else a \<or> v w) (v h) t)"

definition operand_value :: "(string \<Rightarrow> bool) \<Rightarrow> (string \<Rightarrow> bool) \<Rightarrow> string \<Rightarrow> bool" where
  "operand_value \<rho> \<beta> w =
     (if w \<noteq> [] \<and> hd w = CHR ''('' \<and> last w = CHR '')''
      then left_to_right \<rho> (operands (0, 0) (butlast (tl w)))
      else if w \<noteq> [] \<and> hd w = CHR ''['' then \<beta> w else \<rho> w)"

definition meaning :: "(string \<Rightarrow> bool) \<Rightarrow> (string \<Rightarrow> bool) \<Rightarrow> string \<Rightarrow> bool" where
  "meaning \<rho> \<beta> s = left_to_right (operand_value \<rho> \<beta>) (operands (0, 0) s)"

definition special :: "char \<Rightarrow> bool" where
  "special c = (c \<in> set ''()[]|&*'')"

definition plain_feature :: "string \<Rightarrow> bool" where
  "plain_feature f = (f \<noteq> [] \<and> list_all (\<lambda>c. \<not> special c) f)"

section \<open>Scanner facts\<close>

lemma scanAll_append: "scanAll st (xs @ ys) = rbind (scanAll st xs) (\<lambda>st'. scanAll st' ys)"
proof (induction xs arbitrary: st)
  case (Cons x xs)
  then show ?case by (cases "scanStep st x") auto
qed simp

lemma scanStep_plain: "\<not> special c \<Longrightarrow> scanStep st c = Inr st"
  by (cases st) (auto simp: special_def)

lemma scanAll_plain: "list_all (\<lambda>c. \<not> special c) s \<Longrightarrow> scanAll st s = Inr st"
  by (induction s) (auto simp: scanStep_plain)

lemma scanStep_nonneg:
  "scanStep (sh, p, b) c = Inr (sh', p', b') \<Longrightarrow> 0 \<le> p \<Longrightarrow> 0 \<le> b \<Longrightarrow> 0 \<le> p' \<and> 0 \<le> b'"
  by (auto split: if_splits)

lemma scanStep_mono:
  assumes "scanStep (sh, p, b) c = Inr (sh', p', b')"
  shows "topLevelOr sh \<Longrightarrow> topLevelOr sh'" "hasParens sh \<Longrightarrow> hasParens sh'"
    "hasBrackets sh \<Longrightarrow> hasBrackets sh'" "countOutsideBrackets sh \<Longrightarrow> countOutsideBrackets sh'"
  using assms by (auto split: if_splits)

lemma scanAll_mono:
  "scanAll (sh, p, b) s = Inr (sh', p', b') \<Longrightarrow>
    (topLevelOr sh \<longrightarrow> topLevelOr sh') \<and> (hasParens sh \<longrightarrow> hasParens sh') \<and>
    (hasBrackets sh \<longrightarrow> hasBrackets sh') \<and> (countOutsideBrackets sh \<longrightarrow> countOutsideBrackets sh')"
proof (induction s arbitrary: sh p b)
  case (Cons c s)
  then obtain st where st: "scanStep (sh, p, b) c = Inr st" "scanAll st s = Inr (sh', p', b')"
    by (auto simp: rbind_eq_Inr simp del: scanStep.simps)
  obtain sh1 p1 b1 where "st = (sh1, p1, b1)" by (cases st)
  with Cons.IH [of sh1 p1 b1] st scanStep_mono [of sh p b c sh1 p1 b1] show ?case by blast
qed simp

definition ungrouped :: "string \<Rightarrow> bool" where
  "ungrouped s = list_all (\<lambda>c. c \<notin> set ''()[]'') s"

lemma scanAll_ConsE:
  assumes "scanAll (sh, p, b) (c # s) = Inr st'"
  obtains sh1 p1 b1 where "scanStep (sh, p, b) c = Inr (sh1, p1, b1)" "scanAll (sh1, p1, b1) s = Inr st'"
  using assms that by (force simp: rbind_eq_Inr simp del: scanStep.simps)

lemma scan_depth:
  "scanStep (sh, int p, int b) c = Inr (sh', p', b') \<Longrightarrow>
    \<exists>m n. depth_step c (p, b) = (m, n) \<and> p' = int m \<and> b' = int n"
  by (auto simp: depth_step_def split: if_splits)

lemma scan_no_top_or:
  assumes "scanAll (sh, int p, int b) s = Inr (sh', p', b')" "\<not> topLevelOr sh'"
  shows "\<forall>(c, w)\<in>set (snd (operands (p, b) s)). c = CHR ''&''"
  using assms
proof (induction s arbitrary: sh p b)
  case (Cons c s)
  obtain sh1 p1 b1 where 1: "scanStep (sh, int p, int b) c = Inr (sh1, p1, b1)"
    "scanAll (sh1, p1, b1) s = Inr (sh', p', b')"
    using Cons.prems(1) by (rule scanAll_ConsE)
  obtain m n where d: "depth_step c (p, b) = (m, n)" "p1 = int m" "b1 = int n"
    using scan_depth [OF 1(1)] by blast
  have IH: "\<forall>(c, w)\<in>set (snd (operands (m, n) s)). c = CHR ''&''"
    using Cons.IH [of sh1 m n] 1(2) d Cons.prems(2) by simp
  show ?case
  proof (cases "(p, b) = (0, 0) \<and> (c = CHR ''&'' \<or> c = CHR ''|'')")
    case True
    have "c \<noteq> CHR ''|''"
      using 1 True Cons.prems(2) scanAll_mono [of sh1 p1 b1 s sh' p' b'] by auto
    with True have "c = CHR ''&''" "m = 0" "n = 0" using d by (auto simp: depth_step_def)
    then show ?thesis using True IH by (auto split: prod.splits)
  next
    case False
    then show ?thesis using IH d by (auto split: prod.splits)
  qed
qed simp

lemma scan_ungrouped:
  assumes "scanAll (sh, 0, 0) s = Inr (sh', p', b')" "\<not> hasParens sh'" "\<not> hasBrackets sh'"
  shows "ungrouped s"
  using assms
proof (induction s arbitrary: sh)
  case (Cons c s)
  obtain sh1 p1 b1 where 1: "scanStep (sh, 0, 0) c = Inr (sh1, p1, b1)"
    "scanAll (sh1, p1, b1) s = Inr (sh', p', b')"
    using Cons.prems(1) by (rule scanAll_ConsE)
  have "\<not> hasParens sh1" "\<not> hasBrackets sh1"
    using scanAll_mono [OF 1(2)] Cons.prems by auto
  with 1(1) have "c \<notin> set ''()[]''" "p1 = 0" "b1 = 0" by (auto split: if_splits)
  then show ?case using Cons.IH [of sh1] 1(2) Cons.prems by (simp add: ungrouped_def)
qed (simp add: ungrouped_def)

lemma scan_no_count:
  assumes "scanAll (sh, p, 0) s = Inr (sh', p', b')" "\<not> countOutsideBrackets sh'" "ungrouped s"
  shows "CHR ''*'' \<notin> set s"
  using assms
proof (induction s arbitrary: sh)
  case (Cons c s)
  obtain sh1 p1 b1 where 1: "scanStep (sh, p, 0) c = Inr (sh1, p1, b1)"
    "scanAll (sh1, p1, b1) s = Inr (sh', p', b')"
    using Cons.prems(1) by (rule scanAll_ConsE)
  have "\<not> countOutsideBrackets sh1" using scanAll_mono [OF 1(2)] Cons.prems by auto
  with 1(1) Cons.prems(3) have "c \<noteq> CHR ''*''" "p1 = p" "b1 = 0"
    by (auto simp: ungrouped_def split: if_splits)
  then show ?case using Cons.IH [of sh1] 1(2) Cons.prems by (simp add: ungrouped_def)
qed simp

lemma scan_inside_parens:
  "ungrouped s \<Longrightarrow> CHR ''*'' \<notin> set s \<Longrightarrow> scanAll (sh, 1, 0) s = Inr (sh, 1, 0)"
  by (induction s) (auto simp: ungrouped_def)

section \<open>Operands of a composed expression\<close>

lemma operands_feature:
  "list_all (\<lambda>c. \<not> special c) f \<Longrightarrow>
    operands (0, 0) (f @ CHR ''&'' # s) = (f, (CHR ''&'', fst (operands (0, 0) s)) # snd (operands (0, 0) s))"
  by (induction f) (auto simp: special_def depth_step_def split: prod.splits)

lemma operands_feature_only: "list_all (\<lambda>c. \<not> special c) f \<Longrightarrow> operands (0, 0) f = (f, [])"
  by (induction f) (auto simp: special_def depth_step_def)

lemma depth_step_ungrouped: "c \<notin> set ''()[]'' \<Longrightarrow> depth_step c d = d"
  by (cases d) (auto simp: depth_step_def)

lemma ungrouped_Cons: "ungrouped (c # s) \<longleftrightarrow> c \<notin> set ''()[]'' \<and> ungrouped s"
  by (simp add: ungrouped_def)

lemma operands_in_parens:
  "ungrouped s \<Longrightarrow> operands (1, 0) (s @ '')'') = (s @ '')'', [])"
  by (induction s) (auto simp: ungrouped_def depth_step_def)

lemma operands_ungrouped:
  assumes "ungrouped s"
  shows "ungrouped (fst (operands (0, 0) s)) \<and> (\<forall>(c, w)\<in>set (snd (operands (0, 0) s)). ungrouped w)"
  using assms
proof (induction s)
  case (Cons c s)
  obtain h t where o: "operands (0, 0) s = (h, t)" by fastforce
  have "c \<notin> set ''()[]''" "ungrouped s"
    using Cons.prems unfolding ungrouped_Cons by blast+
  with Cons.IH o show ?case
    by (auto simp: depth_step_ungrouped ungrouped_Cons ungrouped_def [of "[]"])
qed (simp add: ungrouped_def)

lemma operand_value_feature: "ungrouped w \<Longrightarrow> operand_value \<rho> \<beta> w = \<rho> w"
  by (cases w) (auto simp: operand_value_def ungrouped_def)

lemma left_to_right_and:
  assumes "\<forall>(c, w)\<in>set t. c = CHR ''&''"
  shows "foldl (\<lambda>a (c, w). if c = CHR ''&'' then a \<and> v w else a \<or> v w) a t
    \<longleftrightarrow> a \<and> (\<forall>(c, w)\<in>set t. v w)"
  using assms by (induction t arbitrary: a) auto

lemma left_to_right_cong:
  assumes "v h = v' h" "\<forall>(c, w)\<in>set t. v w = v' w"
  shows "left_to_right v (h, t) = left_to_right v' (h, t)"
proof -
  have "foldl (\<lambda>a (c, w). if c = CHR ''&'' then a \<and> v w else a \<or> v w) x t =
      foldl (\<lambda>a (c, w). if c = CHR ''&'' then a \<and> v' w else a \<or> v' w) x t" for x
    using assms(2) by (induction t arbitrary: x) auto
  then show ?thesis using assms(1) by (simp add: left_to_right_def)
qed

lemma plain_feature_ungrouped: "plain_feature f \<Longrightarrow> ungrouped f"
  by (auto simp: plain_feature_def ungrouped_def special_def list_all_iff)

lemma meaning_feature: "plain_feature f \<Longrightarrow> meaning \<rho> \<beta> f = \<rho> f"
  using operands_feature_only [of f] plain_feature_ungrouped [of f]
  by (simp add: meaning_def plain_feature_def left_to_right_def operand_value_feature)

lemma meaning_and:
  assumes "plain_feature f" "\<forall>(c, w)\<in>set (snd (operands (0, 0) s)). c = CHR ''&''"
  shows "meaning \<rho> \<beta> (f @ ''&'' @ s) \<longleftrightarrow> \<rho> f \<and> meaning \<rho> \<beta> s"
proof -
  obtain h t where o: "operands (0, 0) s = (h, t)" by fastforce
  have "operand_value \<rho> \<beta> f = \<rho> f"
    using assms plain_feature_ungrouped operand_value_feature by blast
  then show ?thesis
    using assms o operands_feature [of f s] left_to_right_and [of t]
    by (auto simp: meaning_def plain_feature_def left_to_right_def)
qed

lemma meaning_group:
  assumes "plain_feature f" "ungrouped s"
  shows "meaning \<rho> \<beta> (f @ ''&('' @ s @ '')'') \<longleftrightarrow> \<rho> f \<and> meaning \<rho> \<beta> s"
proof -
  have g: "operands (0, 0) (CHR ''('' # s @ '')'') = (CHR ''('' # s @ '')'', [])"
    using operands_in_parens [OF assms(2)] by (simp add: depth_step_def)
  obtain h t where o: "operands (0, 0) s = (h, t)" by fastforce
  have "left_to_right \<rho> (h, t) = left_to_right (operand_value \<rho> \<beta>) (h, t)"
    using operands_ungrouped [OF assms(2)] o
    by (intro left_to_right_cong) (auto simp: operand_value_feature)
  then have "operand_value \<rho> \<beta> (CHR ''('' # s @ '')'') = meaning \<rho> \<beta> s"
    using o by (simp add: operand_value_def meaning_def butlast_append)
  moreover have "operand_value \<rho> \<beta> f = \<rho> f"
    using assms plain_feature_ungrouped operand_value_feature by blast
  ultimately show ?thesis
    using assms(1) operands_feature [of f "CHR ''('' # s @ '')''"] g
    by (simp add: meaning_def plain_feature_def left_to_right_def)
qed

section \<open>Properties\<close>

text \<open>
  C19.  Composing keeps the meaning: for a required feature without operator characters and any
  user expression that Compose accepts, the composed expression holds on a node exactly when
  the node has the feature and the user's expression holds (the empty expression always holds),
  under left-to-right evaluation, one level of parentheses and any meaning of bracket groups.
\<close>

theorem Compose_meaning:
  assumes "plain_feature required" "Compose required cs = Inr r"
  shows "meaning \<rho> \<beta> r \<longleftrightarrow>
    \<rho> required \<and> (trim_space cs = [] \<or> meaning \<rho> \<beta> (trim_space cs))"
proof (cases "trim_space cs = [] \<or> trim_space cs = required")
  case True
  then show ?thesis using assms by (auto simp: Compose_def Let_def meaning_feature)
next
  case False
  let ?c = "trim_space cs"
  from assms(2) False obtain sh where sh: "analyze ?c = Inr sh" "\<not> countOutsideBrackets sh"
    and r: "(\<not> topLevelOr sh \<and> r = required @ ''&'' @ ?c) \<or>
      (\<not> hasParens sh \<and> \<not> hasBrackets sh \<and> r = required @ ''&('' @ ?c @ '')'')"
    by (auto simp: Compose_def Let_def rbind_eq_Inr split: if_splits)
  from sh(1) have scan: "scanAll (emptyShape, int 0, int 0) ?c = Inr (sh, 0, 0)"
    by (auto simp: analyze_def rbind_eq_Inr split: if_splits)
  from r show ?thesis
  proof (elim disjE conjE)
    assume "\<not> topLevelOr sh" "r = required @ ''&'' @ ?c"
    then show ?thesis
      using meaning_and [OF assms(1)] scan_no_top_or [OF scan] False by blast
  next
    assume "\<not> hasParens sh" "\<not> hasBrackets sh" "r = required @ ''&('' @ ?c @ '')''"
    then show ?thesis
      using meaning_group [OF assms(1)] scan_ungrouped [of emptyShape ?c] scan False by auto
  qed
qed

theorem Compose_meaning_witness:
  "meaning (\<lambda>f. f = ''gres'' \<or> f = ''b'') (\<lambda>_. False) ''gres&(a|b)''
     = ((\<lambda>f. f = ''gres'' \<or> f = ''b'') ''gres'' \<and>
        (trim_space ''a|b'' = [] \<or>
         meaning (\<lambda>f. f = ''gres'' \<or> f = ''b'') (\<lambda>_. False) (trim_space ''a|b'')))"
proof (rule Compose_meaning)
  show "plain_feature ''gres''" by code_simp
  show "Compose ''gres'' ''a|b'' = Inr ''gres&(a|b)''" by code_simp
qed

text \<open>
  C21.  The composed expression respects Slurm's grammar limits and can be composed again: it is
  accepted by the scanner (no nested or unbalanced grouping, at most one bracket set, none inside
  parentheses), has no top-level OR and no feature count outside brackets.
\<close>

theorem Compose_wellformed:
  assumes "plain_feature required" "Compose required cs = Inr r"
  shows "\<exists>sh. analyze r = Inr sh \<and> \<not> topLevelOr sh \<and> \<not> countOutsideBrackets sh"
proof -
  let ?c = "trim_space cs"
  have f: "scanAll st (required @ s) = scanAll st s" for st s
    using assms(1) scanAll_plain by (simp add: plain_feature_def scanAll_append)
  show ?thesis
  proof (cases "?c = [] \<or> ?c = required")
    case True
    then have "r = required" using assms(2) by (auto simp: Compose_def Let_def)
    then show ?thesis using f [of _ "[]"] by (simp add: analyze_def emptyShape_def)
  next
    case False
    from assms(2) False obtain sh where sh: "analyze ?c = Inr sh" "\<not> countOutsideBrackets sh"
      and r: "(\<not> topLevelOr sh \<and> r = required @ ''&'' @ ?c) \<or>
        (\<not> hasParens sh \<and> \<not> hasBrackets sh \<and> r = required @ ''&('' @ ?c @ '')'')"
      by (auto simp: Compose_def Let_def rbind_eq_Inr split: if_splits)
    from sh(1) have scan: "scanAll (emptyShape, 0, 0) ?c = Inr (sh, 0, 0)"
      by (auto simp: analyze_def rbind_eq_Inr split: if_splits)
    from r show ?thesis
    proof (elim disjE conjE)
      assume "\<not> topLevelOr sh" "r = required @ ''&'' @ ?c"
      then show ?thesis using sh f [of _ "''&'' @ ?c"] by (simp add: analyze_def)
    next
      assume np: "\<not> hasParens sh" "\<not> hasBrackets sh" and r: "r = required @ ''&('' @ ?c @ '')''"
      have u: "ungrouped ?c" using scan_ungrouped [OF scan np] .
      have "scanAll (st, 1, 0) (?c @ '')'') = Inr (st, 0, 0)" for st
        using scan_inside_parens [OF u scan_no_count [OF scan sh(2) u], of st]
        by (simp add: scanAll_append)
      then have "analyze r = Inr (emptyShape\<lparr>hasParens := True\<rparr>)"
        unfolding r analyze_def using f [of _ "''&('' @ ?c @ '')''"] by simp
      then show ?thesis by (simp add: emptyShape_def)
    qed
  qed
qed

theorem Compose_wellformed_witness:
  "\<exists>sh. analyze ''gres&gpu&(rack1|rack2)'' = Inr sh \<and> \<not> topLevelOr sh \<and> \<not> countOutsideBrackets sh"
proof (rule Compose_wellformed [of "''gres''" "'' gpu&(rack1|rack2) ''"])
  show "plain_feature ''gres''" by code_simp
  show "Compose ''gres'' '' gpu&(rack1|rack2) '' = Inr ''gres&gpu&(rack1|rack2)''" by code_simp
qed

end
