(* ===== verification/Duration_Store.thy ===== *)
theory Duration_Store
  imports Bridge_Prelude
begin

text \<open>
  \<open>internal/utils/durationstore\<close>: requeue delays by key.  The store maps a key to a heap cell
  (the code keeps \<open>*duration\<close> pointers in a \<open>sync.Map\<close>), so the model has the entries and the
  cells apart.  The abstract contract is a finite map from keys to delays.  The sequential
  operations refine it; the interleaved steps of two goroutines are a step relation.
\<close>

section \<open>Definitions\<close>

datatype stored = Cell nat | Foreign

record duration_store =
  entries :: "(string, stored) gomap"
  cells :: "int list"

definition NewDurationStore :: duration_store where
  "NewDurationStore = \<lparr>entries = [], cells = []\<rparr>"

definition Greater :: "int \<Rightarrow> int \<Rightarrow> bool" where
  "Greater oldDur newDur = (newDur > oldDur)"

definition Less :: "int \<Rightarrow> int \<Rightarrow> bool" where
  "Less oldDur newDur = (newDur < oldDur)"

definition Get :: "nat \<Rightarrow> duration_store \<Rightarrow> int" where
  "Get a st = cells st ! a"

definition Update :: "(int \<Rightarrow> int \<Rightarrow> bool) \<Rightarrow> nat \<Rightarrow> int \<Rightarrow> duration_store \<Rightarrow> duration_store" where
  "Update ev a newDur st =
     (if ev (cells st ! a) newDur then st\<lparr>cells := (cells st)[a := newDur]\<rparr> else st)"

definition storeNew :: "string \<Rightarrow> int \<Rightarrow> duration_store \<Rightarrow> duration_store" where
  "storeNew key d st = st\<lparr>entries := AList.update key (Cell (length (cells st))) (entries st),
     cells := cells st @ [d]\<rparr>"

definition Push :: "(int \<Rightarrow> int \<Rightarrow> bool) \<Rightarrow> string \<Rightarrow> int \<Rightarrow> duration_store \<Rightarrow> duration_store" where
  "Push ev key newDur st = (case map_of (entries st) key of
       None \<Rightarrow> storeNew key newDur st
     | Some Foreign \<Rightarrow> storeNew key newDur (st\<lparr>entries := AList.delete key (entries st)\<rparr>)
     | Some (Cell a) \<Rightarrow> Update ev a newDur st)"

definition Pop :: "string \<Rightarrow> duration_store \<Rightarrow> int \<times> duration_store" where
  "Pop key st = (case map_of (entries st) key of
       None \<Rightarrow> (0, st)
     | Some Foreign \<Rightarrow> (0, st\<lparr>entries := AList.delete key (entries st)\<rparr>)
     | Some (Cell a) \<Rightarrow> (Get a st, st\<lparr>entries := AList.delete key (entries st)\<rparr>))"

definition Peek :: "string \<Rightarrow> duration_store \<Rightarrow> int" where
  "Peek key st = (case map_of (entries st) key of
       None \<Rightarrow> 0 | Some Foreign \<Rightarrow> 0 | Some (Cell a) \<Rightarrow> Get a st)"

section \<open>Invariant and refinement\<close>

text \<open>Every entry points into the heap and no two keys share a cell.\<close>

definition store_ok :: "duration_store \<Rightarrow> bool" where
  "store_ok st \<longleftrightarrow> gomap_ok (entries st) \<and>
     (\<forall>k a. map_of (entries st) k = Some (Cell a) \<longrightarrow> a < length (cells st)) \<and>
     (\<forall>k k' a. map_of (entries st) k = Some (Cell a) \<and> map_of (entries st) k' = Some (Cell a) \<longrightarrow> k = k')"

definition delays :: "duration_store \<Rightarrow> string \<rightharpoonup> int" where
  "delays st k = (case map_of (entries st) k of Some (Cell a) \<Rightarrow> Some (cells st ! a) | _ \<Rightarrow> None)"

definition kept :: "(int \<Rightarrow> int \<Rightarrow> bool) \<Rightarrow> int option \<Rightarrow> int \<Rightarrow> int" where
  "kept ev old new = (case old of None \<Rightarrow> new | Some d \<Rightarrow> if ev d new then new else d)"

lemma store_ok_new [simp]: "store_ok NewDurationStore" "delays NewDurationStore = Map.empty"
  by (auto simp: store_ok_def NewDurationStore_def gomap_ok_def delays_def fun_eq_iff)

lemma store_ok_storeNew: "store_ok st \<Longrightarrow> store_ok (storeNew k d st)"
  by (auto simp: store_ok_def storeNew_def less_Suc_eq split: if_splits)

lemma store_ok_Update: "store_ok st \<Longrightarrow> store_ok (Update ev a d st)"
  by (simp add: store_ok_def Update_def)

lemma store_ok_delete: "store_ok st \<Longrightarrow> store_ok (st\<lparr>entries := AList.delete k (entries st)\<rparr>)"
  by (simp add: store_ok_def)

lemma delays_storeNew: "store_ok st \<Longrightarrow> delays (storeNew k d st) = (delays st)(k \<mapsto> d)"
  by (auto simp: store_ok_def storeNew_def delays_def fun_eq_iff nth_append split: option.splits stored.splits)

lemma delays_delete: "delays (st\<lparr>entries := AList.delete k (entries st)\<rparr>) = (delays st)(k := None)"
  by (auto simp: delays_def fun_eq_iff split: option.splits stored.splits)

lemma delays_Update:
  assumes "store_ok st" "map_of (entries st) k = Some (Cell a)"
  shows "delays (Update ev a d st) = (delays st)(k \<mapsto> kept ev (delays st k) d)"
proof
  fix k'
  show "delays (Update ev a d st) k' = ((delays st)(k \<mapsto> kept ev (delays st k) d)) k'"
    using assms
    by (cases "k' = k") (auto simp: store_ok_def delays_def Update_def kept_def nth_list_update
        split: option.splits stored.splits)
qed

lemma store_ok_Push: "store_ok st \<Longrightarrow> store_ok (Push ev k d st)"
  by (auto simp: Push_def store_ok_storeNew store_ok_Update store_ok_delete split: option.splits stored.splits)

lemma delays_Push: "store_ok st \<Longrightarrow> delays (Push ev k d st) = (delays st)(k \<mapsto> kept ev (delays st k) d)"
  by (cases "map_of (entries st) k")
    (auto simp: Push_def delays_storeNew delays_Update delays_delete store_ok_delete kept_def
      delays_def [of st k] split: stored.splits)

lemma store_ok_Pop: "store_ok st \<Longrightarrow> store_ok (snd (Pop k st))"
  by (auto simp: Pop_def store_ok_delete split: option.splits stored.splits)

lemma delays_Pop: "delays (snd (Pop k st)) = (delays st)(k := None)"
  by (auto simp: Pop_def delays_delete delays_def fun_eq_iff split: option.splits stored.splits)

lemma Pop_value: "fst (Pop k st) = (case delays st k of None \<Rightarrow> 0 | Some d \<Rightarrow> d)"
  by (auto simp: Pop_def delays_def Get_def split: option.splits stored.splits)

lemma Peek_value: "Peek k st = (case delays st k of None \<Rightarrow> 0 | Some d \<Rightarrow> d)"
  by (auto simp: Peek_def delays_def Get_def split: option.splits stored.splits)

section \<open>Evaluators\<close>

text \<open>
  The contract of an evaluator: it keeps the better of two delays under a semilattice order, so
  the order and the repetition of pushes do not matter.
\<close>

locale keeps_best =
  fixes ev :: "int \<Rightarrow> int \<Rightarrow> bool" and best :: "int \<Rightarrow> int \<Rightarrow> int"
  assumes picks: "(if ev old new then new else old) = best old new"
    and assoc: "best (best a b) c = best a (best b c)"
    and comm: "best a b = best b a"
    and idem: "best a a = a"
begin

lemma delays_push_all:
  assumes "store_ok st" "delays st k = Some d"
  shows "store_ok (fold (Push ev k) ds st) \<and> delays (fold (Push ev k) ds st) k = Some (fold best ds d)"
  using assms
proof (induction ds arbitrary: st d)
  case (Cons x ds)
  have "delays (Push ev k x st) k = Some (best d x)"
    using Cons.prems by (simp add: delays_Push kept_def picks)
  then show ?case using Cons.IH [of "Push ev k x st" "best d x"] Cons.prems store_ok_Push
    by (simp add: comm)
qed simp

lemma pop_push_all:
  assumes "store_ok st" "delays st k = None"
  shows "fst (Pop k (fold (Push ev k) (d # ds) st)) = fold best ds d"
  using delays_push_all [of "Push ev k d st" k d ds] assms store_ok_Push
  by (simp add: delays_Push kept_def Pop_value)

end

interpretation greater: keeps_best Greater max
  by unfold_locales (auto simp: Greater_def)

interpretation less: keeps_best Less min
  by unfold_locales (auto simp: Less_def)

section \<open>Properties\<close>

definition pushes :: "(string \<times> int) list \<Rightarrow> duration_store \<Rightarrow> duration_store" where
  "pushes kds = fold (\<lambda>(k, d). Push Greater k d) kds"

lemma delays_pushes:
  assumes "store_ok st"
  shows "store_ok (pushes kds st) \<and> delays (pushes kds st) k =
    (case delays st k of
       None \<Rightarrow> (case map snd (filter (\<lambda>p. fst p = k) kds) of
           [] \<Rightarrow> None | d # ds \<Rightarrow> Some (fold max ds d))
     | Some d \<Rightarrow> Some (fold max (map snd (filter (\<lambda>p. fst p = k) kds)) d))"
  using assms
proof (induction kds arbitrary: st)
  case (Cons p kds)
  obtain k' d where p: "p = (k', d)" by fastforce
  have ok: "store_ok (Push Greater k' d st)" using Cons.prems store_ok_Push by blast
  have step: "pushes ((k', d) # kds) st = pushes kds (Push Greater k' d st)" by (simp add: pushes_def)
  show ?case
    using Cons.IH [OF ok] p Cons.prems
    by (cases "delays st k")
      (auto simp: step delays_Push kept_def greater.picks max.commute)
qed (simp add: pushes_def split: option.splits)

text \<open>
  C22.  The requeue store keeps the longest delay per key: after any sequence of pushes on a fresh
  store, popping a key returns the maximum of the delays pushed for that key (0 when there is
  none), whatever was pushed for other keys, and removes only that key's entry.
\<close>

theorem Pop_longest_delay:
  "(let st = pushes kds NewDurationStore; ds = map snd (filter (\<lambda>p. fst p = k) kds) in
    fst (Pop k st) = (if ds = [] then 0 else Max (set ds)) \<and>
    fst (Pop k (snd (Pop k st))) = 0 \<and>
    (k' \<noteq> k \<longrightarrow> Peek k' (snd (Pop k st)) = Peek k' st))"
proof -
  let ?st = "pushes kds NewDurationStore" and ?ds = "map snd (filter (\<lambda>p. fst p = k) kds)"
  have d: "delays ?st k = (case ?ds of [] \<Rightarrow> None | d # ds \<Rightarrow> Some (Max (set (d # ds))))"
    using delays_pushes [of NewDurationStore kds k]
    by (simp add: Max.set_eq_fold [symmetric] split: list.splits)
  have "fst (Pop k ?st) = (if ?ds = [] then 0 else Max (set ?ds))"
    unfolding Pop_value d by (cases ?ds) auto
  moreover have "fst (Pop k (snd (Pop k ?st))) = 0"
    by (simp add: Pop_value delays_Pop)
  moreover have "k' \<noteq> k \<longrightarrow> Peek k' (snd (Pop k ?st)) = Peek k' ?st"
    by (simp add: Peek_value delays_Pop)
  ultimately show ?thesis by (simp add: Let_def)
qed

theorem Pop_longest_delay_witness:
  "fst (Pop ''a'' (pushes [(''a'', 30), (''b'', 90), (''a'', 60)] NewDurationStore)) = 60 \<and>
   Peek ''b'' (snd (Pop ''a'' (pushes [(''a'', 30), (''b'', 90), (''a'', 60)] NewDurationStore)))
     = Peek ''b'' (pushes [(''a'', 30), (''b'', 90), (''a'', 60)] NewDurationStore)"
  using Pop_longest_delay [of "[(''a'', 30), (''b'', 90), (''a'', 60)]" "''a''" "''b''"]
  by (simp add: Let_def)

end
