(* ===== verification/Kube_Types.thy ===== *)
theory Kube_Types
  imports Go_Text
begin

text \<open>
  The Kubernetes objects as the bridge reads them, and the names of
  \<open>internal/wellknown\<close>.  A record holds the fields the source uses.  Labels and annotations are
  Go maps; a nil map is the empty list.  \<open>terminal\<close> is the verdict of the Kubernetes helper
  \<open>podv1.IsPodTerminal\<close> on the Pod's status, and \<open>deleting\<close> says that the deletion timestamp
  is set.
\<close>

type_synonym strmap = "(string, string) gomap"

record pod =
  namespace :: string
  pname :: string
  uid :: string
  resourceVersion :: string
  labels :: strmap
  annotations :: strmap
  finalizers :: "string list"
  deleting :: bool
  terminal :: bool
  schedulerName :: string
  nodeName :: string
  schedulingGates :: "string list"
  podGroupName :: "string option"
  extendedClaim :: string

text \<open>Partial object metadata: the API group, version and kind with the object's identity.\<close>

record objmeta =
  om_group :: string
  om_version :: string
  om_kind :: string
  om_namespace :: string
  om_name :: string
  om_uid :: string
  om_annotations :: strmap

definition empty_pod :: pod where
  "empty_pod = \<lparr>namespace = '''', pname = '''', uid = '''', resourceVersion = '''', labels = [],
     annotations = [], finalizers = [], deleting = False, terminal = False, schedulerName = '''',
     nodeName = '''', schedulingGates = [], podGroupName = None, extendedClaim = ''''\<rparr>"

definition label :: "pod \<Rightarrow> string \<Rightarrow> string" where
  "label p k = get_or [] (labels p) k"

definition annotation :: "pod \<Rightarrow> string \<Rightarrow> string" where
  "annotation p k = get_or [] (annotations p) k"

section \<open>Names\<close>

definition SlinkyPrefix :: string where "SlinkyPrefix = ''slinky.slurm.net/''"
definition SchedulerPrefix :: string where "SchedulerPrefix = ''scheduler.'' @ SlinkyPrefix"
definition SlurmJobPrefix :: string where "SlurmJobPrefix = ''slurmjob.'' @ SlinkyPrefix"
definition LabelSlurmNodeName :: string where "LabelSlurmNodeName = SlinkyPrefix @ ''slurm-nodename''"
definition LabelAllocationPodUID :: string where
  "LabelAllocationPodUID = SlinkyPrefix @ ''allocation-pod-uid''"
definition LabelExternalJobId :: string where "LabelExternalJobId = SchedulerPrefix @ ''slurm-jobid''"
definition LabelAllocatedJobId :: string where
  "LabelAllocatedJobId = SchedulerPrefix @ ''allocated-jobid''"
definition LabelExternalHetJobId :: string where
  "LabelExternalHetJobId = SchedulerPrefix @ ''slurm-het-jobid''"
definition LabelExternalHetJobOffset :: string where
  "LabelExternalHetJobOffset = SchedulerPrefix @ ''slurm-het-job-offset''"
definition LabelExternalNode :: string where "LabelExternalNode = SchedulerPrefix @ ''external-node''"
definition AnnotationExternalJobNode :: string where
  "AnnotationExternalJobNode = SlinkyPrefix @ ''slurm-node''"
definition AnnotationExternalNodePartitions :: string where
  "AnnotationExternalNodePartitions = SchedulerPrefix @ ''external-node-partitions''"
definition AnnotationNodeTopologySpec :: string where
  "AnnotationNodeTopologySpec = ''topology.'' @ SlinkyPrefix @ ''spec''"
definition AnnotationNodeFeaturesSpec :: string where
  "AnnotationNodeFeaturesSpec = ''feature.'' @ SlinkyPrefix @ ''spec''"
definition FinalizerScheduler :: string where "FinalizerScheduler = SchedulerPrefix @ ''finalizer''"
definition SchedulingGateRegistration :: string where
  "SchedulingGateRegistration = ''slurm.slinky.slurm.net/registration''"
definition SlurmFeatureGRESCompatible :: string where
  "SlurmFeatureGRESCompatible = ''slurm_bridge_gres_compatible''"

lemmas prefix_defs = SlinkyPrefix_def SchedulerPrefix_def SlurmJobPrefix_def

lemmas label_defs = LabelExternalJobId_def LabelAllocatedJobId_def LabelExternalHetJobId_def
  LabelExternalHetJobOffset_def

lemma labels_distinct [simp]:
  "LabelExternalJobId \<noteq> LabelExternalHetJobId" "LabelExternalHetJobId \<noteq> LabelExternalJobId"
  "LabelExternalJobId \<noteq> LabelExternalHetJobOffset" "LabelExternalHetJobOffset \<noteq> LabelExternalJobId"
  "LabelExternalHetJobId \<noteq> LabelExternalHetJobOffset" "LabelExternalHetJobOffset \<noteq> LabelExternalHetJobId"
  "LabelExternalJobId \<noteq> LabelAllocatedJobId" "LabelAllocatedJobId \<noteq> LabelExternalJobId"
  by (simp_all add: label_defs)

end
