(* ===== verification/Job_IR.thy ===== *)
theory Job_IR
  imports Kube_Types
begin

text \<open>
  \<open>internal/utils/slurmjobir\<close>: the intermediate representation of a Slurm job.  A job has one
  component per heterogeneous part and each component has the Pods it places.  The operations
  here are the traversals of the representation and its validation, and the integer parsing of
  \<open>common.go\<close>.
\<close>

section \<open>Definitions\<close>

record SlurmJobIRJobInfo =
  Account :: "string option"
  CpuPerTask :: "int option"
  Constraints :: "string option"
  Exclusive :: "bool option"
  Gres :: "string option"
  GroupId :: "string option"
  JobName :: "string option"
  Licenses :: "string option"
  MemPerNode :: "int option"
  MinNodes :: "int option"
  MaxNodes :: "int option"
  Nodes :: "string list"
  ExcNodes :: "string list"
  Partition :: "string option"
  Priority :: "int option"
  QOS :: "string option"
  Reservation :: "string option"
  TasksPerNode :: "int option"
  TimeLimit :: "int option"
  UserId :: "string option"
  Wckey :: "string option"

definition emptyJobInfo :: SlurmJobIRJobInfo where
  "emptyJobInfo = \<lparr>Account = None, CpuPerTask = None, Constraints = None, Exclusive = None,
     Gres = None, GroupId = None, JobName = None, Licenses = None, MemPerNode = None,
     MinNodes = None, MaxNodes = None, Nodes = [], ExcNodes = [], Partition = None,
     Priority = None, QOS = None, Reservation = None, TasksPerNode = None, TimeLimit = None,
     UserId = None, Wckey = None\<rparr>"

record SlurmJobComponent =
  ObjectMeta :: objmeta
  JobInfo :: SlurmJobIRJobInfo
  Pods :: "pod list"

record SlurmJobIR =
  RootPOM :: objmeta
  Components :: "SlurmJobComponent list"

definition AllPods :: "SlurmJobIR \<Rightarrow> pod list" where
  "AllPods ir = concat (map Pods (Components ir))"

definition AllNodes :: "SlurmJobIR \<Rightarrow> string list" where
  "AllNodes ir = concat (map (Nodes \<circ> JobInfo) (Components ir))"

definition IsHetJob :: "SlurmJobIR \<Rightarrow> bool" where
  "IsHetJob ir = (length (Components ir) > 1)"

definition podId :: "pod \<Rightarrow> string \<times> string" where
  "podId p = (namespace p, pname p)"

text \<open>The two loops of \<open>ComponentOf\<close>: over the components and over the Pods of one.\<close>

fun componentOfPods :: "string \<times> string \<Rightarrow> nat \<Rightarrow> pod list \<Rightarrow> int \<Rightarrow> int option" where
  "componentOfPods k i [] found = Some found"
| "componentOfPods k i (p # ps) found =
     (if podId p \<noteq> k then componentOfPods k i ps found
      else if found \<noteq> -1 \<and> found \<noteq> int i then None
      else componentOfPods k i ps (int i))"

fun componentOfLoop :: "string \<times> string \<Rightarrow> nat \<Rightarrow> SlurmJobComponent list \<Rightarrow> int \<Rightarrow> int" where
  "componentOfLoop k i [] found = found"
| "componentOfLoop k i (c # cs) found =
     (case componentOfPods k i (Pods c) found of
        None \<Rightarrow> -1 | Some found' \<Rightarrow> componentOfLoop k (Suc i) cs found')"

definition ComponentOf :: "SlurmJobIR \<Rightarrow> string \<Rightarrow> string \<Rightarrow> int" where
  "ComponentOf ir ns name = componentOfLoop (ns, name) 0 (Components ir) (-1)"

datatype ir_error = NilIR | NoComponents | EmptyComponent | PodInSeveralComponents "string \<times> string"
  | TooManyComponents

type_synonym owner_map = "(string \<times> string, nat) gomap"

fun validatePods :: "nat \<Rightarrow> pod list \<Rightarrow> owner_map \<Rightarrow> ir_error + owner_map" where
  "validatePods i [] m = Inr m"
| "validatePods i (p # ps) m =
     (case map_of m (podId p) of
        Some j \<Rightarrow> if j \<noteq> i then Inl (PodInSeveralComponents (podId p))
                  else validatePods i ps (AList.update (podId p) i m)
      | None \<Rightarrow> validatePods i ps (AList.update (podId p) i m))"

fun validateComponents :: "nat \<Rightarrow> SlurmJobComponent list \<Rightarrow> owner_map \<Rightarrow> ir_error + unit" where
  "validateComponents i [] m = Inr ()"
| "validateComponents i (c # cs) m =
     (if Pods c = [] then Inl EmptyComponent
      else rbind (validatePods i (Pods c) m) (validateComponents (Suc i) cs))"

definition Validate :: "SlurmJobIR option \<Rightarrow> ir_error + unit" where
  "Validate r = (case r of None \<Rightarrow> Inl NilIR
     | Some ir \<Rightarrow> if Components ir = [] then Inl NoComponents
                 else validateComponents 0 (Components ir) [])"

definition ConvStrTo32 :: "string \<Rightarrow> int option" where
  "ConvStrTo32 s = map_option i32 (parse_int 32 s)"

definition ParseSlurmJobId :: "string \<Rightarrow> int" where
  "ParseSlurmJobId s = (case parse_uint 32 s of None \<Rightarrow> 0 | Some v \<Rightarrow> i32 (int v))"

definition GetMemoryFromQuantity :: "int \<Rightarrow> int" where
  "GetMemoryFromQuantity v = v sdiv 1048576"

definition getFirstPod :: "pod list \<Rightarrow> pod option" where
  "getFirstPod ps = (case ps of [] \<Rightarrow> None | p # _ \<Rightarrow> Some p)"

section \<open>Job identifiers\<close>

lemma ConvStrTo32_range: "ConvStrTo32 s = Some v \<Longrightarrow> parse_int 32 s = Some v"
  using parse_int_range [of 32 s] by (auto simp: ConvStrTo32_def)

lemma ParseSlurmJobId_show:
  "0 \<le> n \<Longrightarrow> n \<le> max_int32 \<Longrightarrow> ParseSlurmJobId (show_int n) = n"
  by (simp add: ParseSlurmJobId_def show_int_def max_int32_def)

lemma ParseSlurmJobId_nil [simp]: "ParseSlurmJobId [] = 0"
  by (simp add: ParseSlurmJobId_def parse_uint_def)

section \<open>Component membership\<close>

text \<open>The components that hold a Pod with the given identity.\<close>

definition holders :: "string \<times> string \<Rightarrow> SlurmJobComponent list \<Rightarrow> nat set" where
  "holders k cs = {i. i < length cs \<and> k \<in> podId ` set (Pods (cs ! i))}"

lemma holders_Nil [simp]: "holders k [] = {}"
  by (simp add: holders_def)

lemma holders_Cons:
  "holders k (c # cs) = (if k \<in> podId ` set (Pods c) then {0} else {}) \<union> Suc ` holders k cs"
proof (rule set_eqI)
  fix x
  show "x \<in> holders k (c # cs) \<longleftrightarrow>
      x \<in> (if k \<in> podId ` set (Pods c) then {0} else {}) \<union> Suc ` holders k cs"
    by (cases x) (auto simp: holders_def)
qed

lemma componentOfPods_spec:
  "componentOfPods k i ps found =
    (if k \<notin> podId ` set ps then Some found
     else if found \<noteq> -1 \<and> found \<noteq> int i then None else Some (int i))"
  by (induction ps arbitrary: found) auto

lemma componentOfLoop_none: "componentOfLoop k i cs found = found" if "holders k cs = {}"
  using that by (induction cs arbitrary: i) (auto simp: holders_Cons componentOfPods_spec split: if_splits)

lemma componentOfLoop_found:
  assumes "0 \<le> found" "found < int i"
  shows "componentOfLoop k i cs found = (if holders k cs = {} then found else -1)"
  using assms
  by (induction cs arbitrary: i) (auto simp: holders_Cons componentOfPods_spec split: if_splits)

lemma image_Suc_singleton: "Suc ` A = {j} \<Longrightarrow> \<exists>j'. j = Suc j' \<and> A = {j'}"
  by (metis image_is_empty inj_Suc inj_image_eq_iff image_insert insertI1 image_iff insert_not_empty)

lemma componentOfLoop_start:
  "(holders k cs = {j} \<longrightarrow> componentOfLoop k i cs (-1) = int i + int j) \<and>
   ((\<nexists>j. holders k cs = {j}) \<longrightarrow> componentOfLoop k i cs (-1) = -1)"
proof (induction cs arbitrary: i j)
  case (Cons c cs)
  show ?case
  proof (cases "k \<in> podId ` set (Pods c)")
    case True
    then have h: "holders k (c # cs) = insert 0 (Suc ` holders k cs)" by (simp add: holders_Cons)
    have "componentOfLoop k (Suc i) cs (int i) = (if holders k cs = {} then int i else -1)"
      by (rule componentOfLoop_found) auto
    then have "componentOfLoop k i (c # cs) (-1) = (if holders k cs = {} then int i else -1)"
      using True by (simp add: componentOfPods_spec)
    moreover have "holders k (c # cs) = {j} \<longleftrightarrow> j = 0 \<and> holders k cs = {}" for j
      unfolding h by (auto simp: insert_eq_iff)
    ultimately show ?thesis by auto
  next
    case False
    then have h: "holders k (c # cs) = Suc ` holders k cs" by (simp add: holders_Cons)
    have "holders k (c # cs) = {j} \<longleftrightarrow> (\<exists>j'. j = Suc j' \<and> holders k cs = {j'})" for j
      unfolding h by (auto dest: image_Suc_singleton)
    moreover have "componentOfLoop k i (c # cs) (-1) = componentOfLoop k (Suc i) cs (-1)"
      using False by (simp add: componentOfPods_spec)
    ultimately show ?thesis using Cons.IH [of _ "Suc i"] by auto
  qed
qed simp

section \<open>Validation\<close>

lemma validatePods_ok:
  "validatePods i ps m = Inr m' \<Longrightarrow>
    (\<forall>k \<in> podId ` set ps. map_of m k = None \<or> map_of m k = Some i) \<and>
    (\<forall>k. map_of m' k = (if k \<in> podId ` set ps then Some i else map_of m k))"
proof (induction i ps m rule: validatePods.induct)
  case (2 i p ps m)
  have m: "map_of m (podId p) = None \<or> map_of m (podId p) = Some i"
    and r: "validatePods i ps (AList.update (podId p) i m) = Inr m'"
    using "2.prems" by (auto split: option.splits if_splits)
  have IH: "(\<forall>k \<in> podId ` set ps. map_of (AList.update (podId p) i m) k = None \<or>
        map_of (AList.update (podId p) i m) k = Some i) \<and>
      (\<forall>k. map_of m' k = (if k \<in> podId ` set ps then Some i
        else map_of (AList.update (podId p) i m) k))"
    using m "2.IH"(1) [OF _ r] "2.IH"(2) [OF _ _ r] by (cases "map_of m (podId p)") simp_all
  with m show ?case by (auto split: if_splits)
qed simp

lemma validatePods_total:
  "\<forall>k \<in> podId ` set ps. map_of m k = None \<or> map_of m k = Some i \<Longrightarrow> \<exists>m'. validatePods i ps m = Inr m'"
  by (induction ps arbitrary: m) (auto split: option.splits)

lemma holders_Cons_empty: "holders k (c # cs) = {} \<longleftrightarrow> k \<notin> podId ` set (Pods c) \<and> holders k cs = {}"
  by (simp add: holders_Cons)

lemma holders_Cons_unique:
  "(\<forall>a\<in>holders k (c # cs). \<forall>b\<in>holders k (c # cs). a = b) \<longleftrightarrow>
    (k \<in> podId ` set (Pods c) \<longrightarrow> holders k cs = {}) \<and> (\<forall>a\<in>holders k cs. \<forall>b\<in>holders k cs. a = b)"
  unfolding holders_Cons by auto

lemma validateComponents_spec:
  assumes "\<And>k j. map_of m k = Some j \<Longrightarrow> j < i"
  shows "is_ok (validateComponents i cs m) \<longleftrightarrow>
    (\<forall>c\<in>set cs. Pods c \<noteq> []) \<and> (\<forall>k \<in> dom (map_of m). holders k cs = {}) \<and>
    (\<forall>k. \<forall>a\<in>holders k cs. \<forall>b\<in>holders k cs. a = b)"
  using assms
proof (induction i cs m rule: validateComponents.induct)
  case (2 i c cs m)
  let ?fresh = "\<forall>k \<in> podId ` set (Pods c). map_of m k = None"
  have eq: "(\<forall>k \<in> podId ` set (Pods c). map_of m k = None \<or> map_of m k = Some i) \<longleftrightarrow> ?fresh"
    using "2.prems" by fastforce
  show ?case
  proof (cases "Pods c \<noteq> [] \<and> ?fresh")
    case True
    then have "\<forall>k \<in> podId ` set (Pods c). map_of m k = None \<or> map_of m k = Some i" by simp
    then obtain m' where v: "validatePods i (Pods c) m = Inr m'"
      using validatePods_total by blast
    have m': "map_of m' k = (if k \<in> podId ` set (Pods c) then Some i else map_of m k)" for k
      using validatePods_ok [OF v] by blast
    have bound: "j < Suc i" if "map_of m' k = Some j" for k j
      using that "2.prems" by (auto simp: m' less_Suc_eq split: if_splits)
    have "is_ok (validateComponents (Suc i) cs m') \<longleftrightarrow>
        (\<forall>c\<in>set cs. Pods c \<noteq> []) \<and> (\<forall>k \<in> dom (map_of m'). holders k cs = {}) \<and>
        (\<forall>k. \<forall>a\<in>holders k cs. \<forall>b\<in>holders k cs. a = b)"
      using "2.IH" [of m'] True bound by blast
    moreover have "dom (map_of m') = podId ` set (Pods c) \<union> dom (map_of m)"
      by (auto simp: m' split: if_splits)
    moreover have "\<forall>k \<in> dom (map_of m). k \<notin> podId ` set (Pods c)" using True by (metis domIff)
    ultimately show ?thesis
      using True v unfolding holders_Cons_empty holders_Cons_unique validateComponents.simps
      by (simp del: split_paired_All) blast
  next
    case False
    then have "\<not> is_ok (validateComponents i (c # cs) m)"
      using eq validatePods_ok [of i "Pods c" m] by (auto simp: is_ok_def rbind_eq_Inr split: sum.splits)
    moreover have "\<not> ((\<forall>c\<in>set (c # cs). Pods c \<noteq> []) \<and> (\<forall>k \<in> dom (map_of m). holders k (c # cs) = {}))"
      using False by (auto simp: holders_Cons)
    ultimately show ?thesis by blast
  qed
qed simp

text \<open>
  C23.  Validation decides the structural invariant of the representation, and under it component
  lookup is exact: Validate accepts a job exactly when it has components, none of them empty, and
  no Pod identity (namespace and name) occurs in two components; then ComponentOf returns the
  component of every Pod of the job and -1 for every other Pod.
\<close>

theorem Validate_ComponentOf:
  "(Validate (Some ir) = Inr () \<longleftrightarrow> Components ir \<noteq> [] \<and> (\<forall>c\<in>set (Components ir). Pods c \<noteq> []) \<and>
      (\<forall>i j p q. i < length (Components ir) \<longrightarrow> j < length (Components ir) \<longrightarrow>
         p \<in> set (Pods (Components ir ! i)) \<longrightarrow> q \<in> set (Pods (Components ir ! j)) \<longrightarrow>
         podId p = podId q \<longrightarrow> i = j)) \<and>
   (Validate (Some ir) = Inr () \<longrightarrow>
      (\<forall>i p. i < length (Components ir) \<longrightarrow> p \<in> set (Pods (Components ir ! i)) \<longrightarrow>
         ComponentOf ir (namespace p) (pname p) = int i) \<and>
      (\<forall>ns n. (ns, n) \<notin> podId ` set (AllPods ir) \<longrightarrow> ComponentOf ir ns n = -1))"
proof -
  let ?cs = "Components ir"
  have ok: "Validate (Some ir) = Inr () \<longleftrightarrow> ?cs \<noteq> [] \<and> (\<forall>c\<in>set ?cs. Pods c \<noteq> []) \<and>
      (\<forall>k. \<forall>a\<in>holders k ?cs. \<forall>b\<in>holders k ?cs. a = b)"
    using validateComponents_spec [of "[]" 0 ?cs]
    by (auto simp: Validate_def is_ok_def split: sum.splits)
  have uniq: "(\<forall>k. \<forall>a\<in>holders k ?cs. \<forall>b\<in>holders k ?cs. a = b) \<longleftrightarrow>
      (\<forall>i j p q. i < length ?cs \<longrightarrow> j < length ?cs \<longrightarrow> p \<in> set (Pods (?cs ! i)) \<longrightarrow>
         q \<in> set (Pods (?cs ! j)) \<longrightarrow> podId p = podId q \<longrightarrow> i = j)"
    unfolding holders_def by blast
  have "ComponentOf ir (namespace p) (pname p) = int i"
    if "Validate (Some ir) = Inr ()" "i < length ?cs" "p \<in> set (Pods (?cs ! i))" for i p
  proof -
    have "i \<in> holders (podId p) ?cs" using that by (auto simp: holders_def)
    then have "holders (podId p) ?cs = {i}" using that(1) ok by blast
    then show ?thesis using componentOfLoop_start [of "podId p" ?cs i 0]
      by (simp add: ComponentOf_def podId_def)
  qed
  moreover have "ComponentOf ir ns n = -1" if "(ns, n) \<notin> podId ` set (AllPods ir)" for ns n
  proof -
    have "holders (ns, n) ?cs = {}" using that by (fastforce simp: holders_def AllPods_def)
    then show ?thesis using componentOfLoop_start [of "(ns, n)" ?cs _ 0] by (simp add: ComponentOf_def)
  qed
  ultimately show ?thesis using ok uniq by blast
qed

definition sample_meta :: objmeta where
  "sample_meta = \<lparr>om_group = [], om_version = ''v1'', om_kind = ''Pod'',
      om_namespace = ''ns'', om_name = ''a'', om_uid = ''u1'', om_annotations = []\<rparr>"

definition sample_ir :: SlurmJobIR where
  "sample_ir = \<lparr>RootPOM = sample_meta, Components = [\<lparr>ObjectMeta = sample_meta,
      JobInfo = emptyJobInfo, Pods = [empty_pod\<lparr>namespace := ''ns'', pname := ''a'', uid := ''u1''\<rparr>]\<rparr>]\<rparr>"

theorem Validate_ComponentOf_witness:
  "Validate (Some sample_ir) = Inr () \<and> ComponentOf sample_ir ''ns'' ''a'' = 0 \<and>
   ComponentOf sample_ir ''ns'' ''b'' = -1"
proof -
  have v: "Validate (Some sample_ir) = Inr ()"
    by (simp add: Validate_def sample_ir_def)
  have a: "(''ns'', ''b'') \<notin> podId ` set (AllPods sample_ir)"
    by (simp add: AllPods_def sample_ir_def podId_def)
  note t = Validate_ComponentOf [of sample_ir, THEN conjunct2, rule_format, OF v]
  have "ComponentOf sample_ir ''ns'' ''b'' = -1"
    using t [THEN conjunct2, rule_format, OF a] .
  moreover have "ComponentOf sample_ir ''ns'' ''a'' = int 0"
    using t [THEN conjunct1, rule_format, of 0 "empty_pod\<lparr>namespace := ''ns'', pname := ''a'', uid := ''u1''\<rparr>"]
    by (simp add: sample_ir_def)
  ultimately show ?thesis using v by simp
qed

end
