(* ===== verification/External_Job.thy ===== *)
theory External_Job
  imports Kube_Types
begin

text \<open>
  \<open>internal/utils/externaljobinfo\<close>: the Kubernetes identities that a Slurm job records in its
  admin comment.  JSON text is represented by its value tree; an admin comment whose text is not
  JSON (the empty text included) is \<^term>\<open>None\<close>.  Object fields are matched as
  \<open>encoding/json\<close> matches them: by name without regard to ASCII case, the last one winning.
\<close>

section \<open>Definitions\<close>

datatype json = JNull | JBool bool | JNum string | JStr string | JArr "json list"
  | JObj "(string \<times> json) list"

record GroupIdentity =
  APIGroup :: string
  Kind :: string
  GNamespace :: string
  GName :: string
  GUID :: string

record ExternalJobInfo =
  InfoPods :: "string list"
  PodGroup :: "GroupIdentity option"
  CompositePodGroup :: "GroupIdentity option"

definition emptyInfo :: ExternalJobInfo where
  "emptyInfo = \<lparr>InfoPods = [], PodGroup = None, CompositePodGroup = None\<rparr>"

definition lower :: "char \<Rightarrow> char" where
  "lower c = (if 65 \<le> (of_char c :: nat) \<and> (of_char c :: nat) \<le> 90 then char_of (of_char c + (32::nat)) else c)"

definition jfield :: "string \<Rightarrow> (string \<times> json) list \<Rightarrow> json option" where
  "jfield name fs = map_option snd (find (\<lambda>p. map lower (fst p) = map lower name) (rev fs))"

text \<open>Decoding a field into a Go string: absent and null leave the zero value.\<close>

definition jstring :: "string \<Rightarrow> (string \<times> json) list \<Rightarrow> string option" where
  "jstring name fs = (case jfield name fs of
     None \<Rightarrow> Some [] | Some JNull \<Rightarrow> Some [] | Some (JStr s) \<Rightarrow> Some s | Some _ \<Rightarrow> None)"

definition groupJSON :: "GroupIdentity \<Rightarrow> json" where
  "groupJSON g = JObj [(''apiGroup'', JStr (APIGroup g)), (''kind'', JStr (Kind g)),
     (''namespace'', JStr (GNamespace g)), (''name'', JStr (GName g)), (''uid'', JStr (GUID g))]"

definition parseGroup :: "json option \<Rightarrow> GroupIdentity option option" where
  "parseGroup j = (case j of
       None \<Rightarrow> Some None
     | Some JNull \<Rightarrow> Some None
     | Some (JObj fs) \<Rightarrow>
         (case (jstring ''apiGroup'' fs, jstring ''kind'' fs, jstring ''namespace'' fs,
                jstring ''name'' fs, jstring ''uid'' fs) of
            (Some a, Some k, Some ns, Some n, Some u) \<Rightarrow>
              Some (Some \<lparr>APIGroup = a, Kind = k, GNamespace = ns, GName = n, GUID = u\<rparr>)
          | _ \<Rightarrow> None)
     | Some _ \<Rightarrow> None)"

definition MarshalJSON :: "ExternalJobInfo \<Rightarrow> json" where
  "MarshalJSON info = JObj ([(''pods'', JStr (join_with '','' (InfoPods info)))]
     @ (case PodGroup info of None \<Rightarrow> [] | Some g \<Rightarrow> [(''podGroup'', groupJSON g)])
     @ (case CompositePodGroup info of None \<Rightarrow> [] | Some g \<Rightarrow> [(''compositePodGroup'', groupJSON g)]))"

text \<open>The \<open>podUIDs\<close> map of the older format.\<close>

definition parseUIDs :: "json option \<Rightarrow> strmap option" where
  "parseUIDs j = (case j of
       None \<Rightarrow> Some []
     | Some JNull \<Rightarrow> Some []
     | Some (JObj fs) \<Rightarrow>
         (if list_all (\<lambda>p. case snd p of JStr _ \<Rightarrow> True | JNull \<Rightarrow> True | _ \<Rightarrow> False) fs
          then Some (map (\<lambda>p. (fst p, case snd p of JStr s \<Rightarrow> s | _ \<Rightarrow> [])) (rev fs))
          else None)
     | Some _ \<Rightarrow> None)"

definition parsePods :: "strmap \<Rightarrow> json option \<Rightarrow> string list option" where
  "parsePods uids j = (case j of
       None \<Rightarrow> Some []
     | Some (JStr joined) \<Rightarrow> Some (if joined = [] then [] else split_on CHR '','' joined)
     | Some JNull \<Rightarrow> Some []
     | Some (JArr xs) \<Rightarrow>
         (if list_all (\<lambda>x. case x of JStr _ \<Rightarrow> True | JNull \<Rightarrow> True | _ \<Rightarrow> False) xs
          then Some (map (\<lambda>x. let name = (case x of JStr s \<Rightarrow> s | _ \<Rightarrow> []); u = get_or [] uids name
                 in if u \<noteq> [] then name @ ''/'' @ u else name) xs)
          else None)
     | Some _ \<Rightarrow> None)"

definition UnmarshalJSON :: "json \<Rightarrow> ExternalJobInfo option" where
  "UnmarshalJSON j = (case j of
       JNull \<Rightarrow> Some emptyInfo
     | JObj fs \<Rightarrow>
         (case (parseGroup (jfield ''podGroup'' fs), parseGroup (jfield ''compositePodGroup'' fs),
                parseUIDs (jfield ''podUIDs'' fs)) of
            (Some g, Some cg, Some uids) \<Rightarrow>
              map_option (\<lambda>pods. \<lparr>InfoPods = pods, PodGroup = g, CompositePodGroup = cg\<rparr>)
                (parsePods uids (jfield ''pods'' fs))
          | _ \<Rightarrow> None)
     | _ \<Rightarrow> None)"

definition ParseIntoExternalJobInfo :: "json option \<Rightarrow> ExternalJobInfo option" where
  "ParseIntoExternalJobInfo text = Option.bind text UnmarshalJSON"

record objref =
  ref_namespace :: string
  ref_name :: string
  ref_uid :: string

definition podKeyOf :: "string \<Rightarrow> string \<Rightarrow> string \<Rightarrow> string" where
  "podKeyOf ns n u = (let name = ns @ ''/'' @ n in if u = [] then name else name @ ''/'' @ u)"

definition PodKey :: "pod \<Rightarrow> string" where
  "PodKey p = podKeyOf (namespace p) (pname p) (uid p)"

definition plainKey :: "pod \<Rightarrow> string" where
  "plainKey p = namespace p @ ''/'' @ pname p"

definition ParsePodKey :: "string \<Rightarrow> objref" where
  "ParsePodKey key = (case cut_at CHR ''/'' key of
       None \<Rightarrow> \<lparr>ref_namespace = [], ref_name = key, ref_uid = []\<rparr>
     | Some (ns, rest) \<Rightarrow>
         (case cut_at CHR ''/'' rest of
            None \<Rightarrow> \<lparr>ref_namespace = ns, ref_name = rest, ref_uid = []\<rparr>
          | Some (n, u) \<Rightarrow> \<lparr>ref_namespace = ns, ref_name = n, ref_uid = u\<rparr>))"

definition NewGroupIdentity :: "objmeta \<Rightarrow> GroupIdentity option" where
  "NewGroupIdentity m =
     (if (om_group m = ''scheduling.k8s.io'' \<and> (om_kind m = ''PodGroup'' \<or> om_kind m = ''CompositePodGroup''))
         \<or> (om_group m = ''scheduling.x-k8s.io'' \<and> om_kind m = ''PodGroup'')
      then Some \<lparr>APIGroup = om_group m, Kind = om_kind m, GNamespace = om_namespace m,
                 GName = om_name m, GUID = om_uid m\<rparr>
      else None)"

definition Key :: "GroupIdentity \<Rightarrow> string" where
  "Key g = join_with ''/'' [APIGroup g, Kind g, GNamespace g, GName g, GUID g]"

definition Equal :: "ExternalJobInfo \<Rightarrow> ExternalJobInfo \<Rightarrow> bool" where
  "Equal a b = (MarshalJSON a = MarshalJSON b)"

section \<open>Codecs\<close>

text \<open>
  Pod keys, group keys and the recorded ownership are codecs: what one reconcile writes, a later
  one reads back.  A Kubernetes namespace or name holds no slash and no comma.
\<close>

definition ref_ok :: "objref \<Rightarrow> bool" where
  "ref_ok r \<longleftrightarrow> CHR ''/'' \<notin> set (ref_namespace r) \<and> CHR ''/'' \<notin> set (ref_name r)"

definition group_ok :: "GroupIdentity \<Rightarrow> bool" where
  "group_ok g \<longleftrightarrow> (\<forall>s \<in> {APIGroup g, Kind g, GNamespace g, GName g, GUID g}. CHR ''/'' \<notin> set s)"

definition info_ok :: "ExternalJobInfo \<Rightarrow> bool" where
  "info_ok i \<longleftrightarrow> (\<forall>k \<in> set (InfoPods i). k \<noteq> [] \<and> CHR '','' \<notin> set k)"

definition refKey :: "objref \<Rightarrow> string" where
  "refKey r = podKeyOf (ref_namespace r) (ref_name r) (ref_uid r)"

definition parseKey :: "string \<Rightarrow> GroupIdentity option" where
  "parseKey s = (case split_on CHR ''/'' s of
     [a, k, ns, n, u] \<Rightarrow> Some \<lparr>APIGroup = a, Kind = k, GNamespace = ns, GName = n, GUID = u\<rparr>
   | _ \<Rightarrow> None)"

lemma cut_at_sep: "c \<notin> set a \<Longrightarrow> cut_at c (a @ c # b) = Some (a, b)"
  by (simp add: cut_at_Some)

lemma cut_at_free: "c \<notin> set a \<Longrightarrow> cut_at c a = None"
  by (simp add: cut_at_None)

lemma ParsePodKey_refKey: "ref_ok r \<Longrightarrow> ParsePodKey (refKey r) = r"
  by (auto simp: ref_ok_def refKey_def podKeyOf_def ParsePodKey_def cut_at_sep cut_at_free Let_def)

lemma parseKey_Key: "group_ok g \<Longrightarrow> parseKey (Key g) = Some g"
  by (simp add: group_ok_def parseKey_def Key_def split_on_append split_on_free)

lemma field_names:
  "map lower ''pods'' = ''pods''" "map lower ''podGroup'' = ''podgroup''"
  "map lower ''compositePodGroup'' = ''compositepodgroup''" "map lower ''podUIDs'' = ''poduids''"
  "map lower ''apiGroup'' = ''apigroup''" "map lower ''kind'' = ''kind''"
  "map lower ''namespace'' = ''namespace''" "map lower ''name'' = ''name''"
  "map lower ''uid'' = ''uid''"
  by code_simp+

lemma jstring_groupJSON:
  "jstring ''apiGroup'' [(''apiGroup'', JStr a), (''kind'', JStr k), (''namespace'', JStr ns), (''name'', JStr n), (''uid'', JStr u)] = Some a"
  "jstring ''kind'' [(''apiGroup'', JStr a), (''kind'', JStr k), (''namespace'', JStr ns), (''name'', JStr n), (''uid'', JStr u)] = Some k"
  "jstring ''namespace'' [(''apiGroup'', JStr a), (''kind'', JStr k), (''namespace'', JStr ns), (''name'', JStr n), (''uid'', JStr u)] = Some ns"
  "jstring ''name'' [(''apiGroup'', JStr a), (''kind'', JStr k), (''namespace'', JStr ns), (''name'', JStr n), (''uid'', JStr u)] = Some n"
  "jstring ''uid'' [(''apiGroup'', JStr a), (''kind'', JStr k), (''namespace'', JStr ns), (''name'', JStr n), (''uid'', JStr u)] = Some u"
  unfolding jstring_def jfield_def rev.simps append.simps find.simps fst_conv field_names by simp_all

lemma parseGroup_groupJSON: "parseGroup (Some (groupJSON g)) = Some (Some g)"
  unfolding parseGroup_def groupJSON_def by (simp add: jstring_groupJSON)

definition infoFields :: "ExternalJobInfo \<Rightarrow> (string \<times> json) list" where
  "infoFields info = [(''pods'', JStr (join_with '','' (InfoPods info)))]
     @ (case PodGroup info of None \<Rightarrow> [] | Some g \<Rightarrow> [(''podGroup'', groupJSON g)])
     @ (case CompositePodGroup info of None \<Rightarrow> [] | Some g \<Rightarrow> [(''compositePodGroup'', groupJSON g)])"

lemma jfield_infoFields:
  "jfield ''pods'' (infoFields i) = Some (JStr (join_with '','' (InfoPods i)))"
  "jfield ''podGroup'' (infoFields i) = map_option groupJSON (PodGroup i)"
  "jfield ''compositePodGroup'' (infoFields i) = map_option groupJSON (CompositePodGroup i)"
  "jfield ''podUIDs'' (infoFields i) = None"
  unfolding jfield_def infoFields_def
  by (cases "PodGroup i"; cases "CompositePodGroup i";
      simp only: option.case rev.simps append.simps find.simps fst_conv field_names; simp)+

lemma join_comma_ne: "ks \<noteq> [] \<Longrightarrow> \<forall>k \<in> set ks. k \<noteq> [] \<Longrightarrow> join_with '','' ks \<noteq> []"
  by (induction "'',''" ks rule: join_with.induct) auto

lemma UnmarshalJSON_MarshalJSON:
  assumes "info_ok i" shows "UnmarshalJSON (MarshalJSON i) = Some i"
proof -
  have "MarshalJSON i = JObj (infoFields i)" by (simp add: MarshalJSON_def infoFields_def)
  moreover have "parsePods u (Some (JStr (join_with '','' (InfoPods i)))) = Some (InfoPods i)" for u
  proof (cases "InfoPods i = []")
    case False
    then have "join_with '','' (InfoPods i) \<noteq> []"
      using assms join_comma_ne unfolding info_ok_def by blast
    moreover have "split_on CHR '','' (join_with '','' (InfoPods i)) = InfoPods i"
      using assms False by (intro split_on_join) (auto simp: info_ok_def)
    ultimately show ?thesis by (simp add: parsePods_def)
  qed (simp add: parsePods_def)
  moreover have "parseGroup (map_option groupJSON g) = Some g" for g
    by (cases g) (simp_all add: parseGroup_groupJSON, simp add: parseGroup_def)
  moreover have "parseUIDs None = Some []" by (simp add: parseUIDs_def)
  ultimately show ?thesis
    by (simp add: UnmarshalJSON_def jfield_infoFields)
qed

interpretation podkey: codec refKey "\<lambda>s. Some (ParsePodKey s)" ref_ok
  by unfold_locales (simp add: ParsePodKey_refKey)

interpretation groupkey: codec Key parseKey group_ok
  by unfold_locales (simp add: parseKey_Key)

interpretation ownership: codec MarshalJSON UnmarshalJSON info_ok
  by unfold_locales (rule UnmarshalJSON_MarshalJSON)

lemma NewGroupIdentity_ok:
  assumes "NewGroupIdentity m = Some g" "\<forall>s \<in> {om_namespace m, om_name m, om_uid m}. CHR ''/'' \<notin> set s"
  shows "group_ok g"
  using assms by (auto simp: NewGroupIdentity_def group_ok_def split: if_splits)

text \<open>
  C24.  Ownership records survive the round trip through a Slurm job's admin comment: writing the
  Pod identities and group identities of an allocation and parsing the comment again gives the same
  record, every Pod key parses back to its namespace, name and UID, and two Pods or two groups
  share a key only when they have the same identity.
\<close>

theorem ownership_roundtrip:
  assumes "info_ok i" "ref_ok r" "ref_ok r'" "group_ok g" "group_ok g'"
  shows "ParseIntoExternalJobInfo (Some (MarshalJSON i)) = Some i
    \<and> ParsePodKey (refKey r) = r
    \<and> (refKey r = refKey r' \<longleftrightarrow> r = r')
    \<and> (Key g = Key g' \<longleftrightarrow> g = g')
    \<and> (info_ok j \<longrightarrow> (Equal i j \<longleftrightarrow> i = j))"
proof (intro conjI impI)
  show "ParseIntoExternalJobInfo (Some (MarshalJSON i)) = Some i"
    using assms(1) by (simp add: ParseIntoExternalJobInfo_def ownership.dec_enc)
  show "ParsePodKey (refKey r) = r" using assms(2) by (rule ParsePodKey_refKey)
  show "refKey r = refKey r' \<longleftrightarrow> r = r'" using assms(2,3) podkey.enc_inj by blast
  show "Key g = Key g' \<longleftrightarrow> g = g'" using assms(4,5) groupkey.enc_inj by blast
  assume "info_ok j"
  then show "Equal i j \<longleftrightarrow> i = j" using assms(1) ownership.enc_inj unfolding Equal_def by blast
qed

theorem ownership_roundtrip_witness:
  "\<exists>i r g. info_ok i \<and> ref_ok r \<and> group_ok g \<and>
    ParseIntoExternalJobInfo (Some (MarshalJSON i)) = Some i \<and> ParsePodKey (refKey r) = r \<and>
    InfoPods i = [''ns/a/u1'', ''ns/b/u2''] \<and> refKey r = ''ns/a/u1'' \<and>
    Key g = ''scheduling.k8s.io/PodGroup/ns/gang/u9'' \<and> Equal i i"
proof -
  let ?g = "\<lparr>APIGroup = ''scheduling.k8s.io'', Kind = ''PodGroup'', GNamespace = ''ns'', GName = ''gang'', GUID = ''u9''\<rparr>"
  let ?i = "\<lparr>InfoPods = [''ns/a/u1'', ''ns/b/u2''], PodGroup = Some ?g, CompositePodGroup = None\<rparr>"
  let ?r = "\<lparr>ref_namespace = ''ns'', ref_name = ''a'', ref_uid = ''u1''\<rparr>"
  have "info_ok ?i" "ref_ok ?r" "group_ok ?g" by (simp_all add: info_ok_def ref_ok_def group_ok_def)
  moreover have "refKey ?r = ''ns/a/u1''" "Key ?g = ''scheduling.k8s.io/PodGroup/ns/gang/u9''"
    by (simp_all add: refKey_def podKeyOf_def Key_def)
  moreover note ownership_roundtrip [of ?i ?r ?r ?g ?g ?i]
  ultimately show ?thesis by (intro exI [of _ ?i] exI [of _ ?r] exI [of _ ?g]) simp
qed

end
