(* ===== verification/Effects.thy ===== *)
theory Effects
  imports Bridge_Prelude
begin

text \<open>
  Stateful code.  A handler is a \<open>State_Monad\<close> computation over a system: an abstract outside
  world (the Kubernetes and Slurm servers, whose code is not part of the repository) and the
  trace of the calls made so far.  A client call is a parameter of the model, a function of the
  world; \<open>call\<close> runs it and appends an event that carries its result.  Reads thread the
  world too, so other actors may change it at any call.  Safety properties are stated over the
  trace and proved with the weakest-precondition equations below, for every world and every
  response.
\<close>

record ('w, 'ev) sys =
  world :: 'w
  trace :: "'ev list"

abbreviation ret :: "'a \<Rightarrow> ('s, 'a) state" where
  "ret \<equiv> State_Monad.return"

definition call :: "('w \<Rightarrow> 'r \<times> 'w) \<Rightarrow> ('r \<Rightarrow> 'ev) \<Rightarrow> (('w, 'ev) sys, 'r) state" where
  "call f ev = State (\<lambda>s. case f (world s) of (r, w) \<Rightarrow>
     (r, s\<lparr>world := w, trace := trace s @ [ev r]\<rparr>))"

text \<open>A Go loop over a slice whose body may return an error, which ends the loop.\<close>

fun for_each :: "('a \<Rightarrow> ('s, 'e + unit) state) \<Rightarrow> 'a list \<Rightarrow> ('s, 'e + unit) state" where
  "for_each f [] = ret (Inr ())"
| "for_each f (x # xs) = do {
     r \<leftarrow> f x;
     case r of Inl e \<Rightarrow> ret (Inl e) | Inr _ \<Rightarrow> for_each f xs }"

section \<open>Weakest preconditions\<close>

definition wp :: "('s, 'a) state \<Rightarrow> ('a \<Rightarrow> 's \<Rightarrow> bool) \<Rightarrow> 's \<Rightarrow> bool" where
  "wp m Q s = (case run_state m s of (a, t) \<Rightarrow> Q a t)"

lemma wp_ret [simp, wp_simps]: "wp (ret a) Q s = Q a s"
  by (simp add: wp_def State_Monad.return_def)

lemma wp_bind [simp, wp_simps]: "wp (State_Monad.bind m f) Q s = wp m (\<lambda>a. wp (f a) Q) s"
  by (simp add: wp_def State_Monad.bind_def split: prod.splits)

lemma wp_if [simp, wp_simps]: "wp (if b then m else n) Q s = (if b then wp m Q s else wp n Q s)"
  by simp

lemma wp_case_sum [simp, wp_simps]:
  "wp (case r of Inl e \<Rightarrow> f e | Inr x \<Rightarrow> g x) Q s = (case r of Inl e \<Rightarrow> wp (f e) Q s | Inr x \<Rightarrow> wp (g x) Q s)"
  by (simp split: sum.splits)

lemma wp_case_option [simp, wp_simps]:
  "wp (case r of None \<Rightarrow> f | Some x \<Rightarrow> g x) Q s = (case r of None \<Rightarrow> wp f Q s | Some x \<Rightarrow> wp (g x) Q s)"
  by (simp split: option.splits)

lemma wp_case_prod [simp, wp_simps]:
  "wp (case p of (x, y) \<Rightarrow> f x y) Q s = (case p of (x, y) \<Rightarrow> wp (f x y) Q s)"
  by (simp split: prod.splits)

lemma wp_call:
  "wp (call f ev) Q s = (case f (world s) of (r, w) \<Rightarrow>
     Q r (s\<lparr>world := w, trace := trace s @ [ev r]\<rparr>))"
  by (simp add: wp_def call_def split: prod.splits)

lemma wp_mono: "wp m Q s \<Longrightarrow> (\<And>a t. Q a t \<Longrightarrow> R a t) \<Longrightarrow> wp m R s"
  by (auto simp: wp_def)

lemma wp_conj: "wp m Q s \<Longrightarrow> wp m R s \<Longrightarrow> wp m (\<lambda>a t. Q a t \<and> R a t) s"
  by (auto simp: wp_def)

lemma wp_run: "wp m Q s \<longleftrightarrow> Q (fst (run_state m s)) (snd (run_state m s))"
  by (simp add: wp_def split: prod.splits)

lemma wp_callI:
  "(\<And>r w. Q r (s\<lparr>world := w, trace := trace s @ [ev r]\<rparr>)) \<Longrightarrow> wp (call f ev) Q s"
  by (simp add: wp_call split: prod.splits)

text \<open>The same rules for introduction: \<open>intro wp_intros\<close> leaves one goal per path.\<close>

lemma wp_retI: "Q a s \<Longrightarrow> wp (ret a) Q s"
  by simp

lemma wp_bindI: "wp m (\<lambda>a. wp (f a) Q) s \<Longrightarrow> wp (State_Monad.bind m f) Q s"
  by simp

lemma wp_ifI: "(b \<Longrightarrow> wp m Q s) \<Longrightarrow> (\<not> b \<Longrightarrow> wp n Q s) \<Longrightarrow> wp (if b then m else n) Q s"
  by simp

lemma wp_case_sumI:
  "(\<And>e. r = Inl e \<Longrightarrow> wp (f e) Q s) \<Longrightarrow> (\<And>x. r = Inr x \<Longrightarrow> wp (g x) Q s) \<Longrightarrow>
    wp (case r of Inl e \<Rightarrow> f e | Inr x \<Rightarrow> g x) Q s"
  by (simp split: sum.split)

lemma wp_case_optionI:
  "(r = None \<Longrightarrow> wp f Q s) \<Longrightarrow> (\<And>x. r = Some x \<Longrightarrow> wp (g x) Q s) \<Longrightarrow>
    wp (case r of None \<Rightarrow> f | Some x \<Rightarrow> g x) Q s"
  by (simp split: option.split)

lemma wp_case_prodI: "(\<And>x y. p = (x, y) \<Longrightarrow> wp (f x y) Q s) \<Longrightarrow> wp (case p of (x, y) \<Rightarrow> f x y) Q s"
  by (simp split: prod.split)

lemma wp_case_listI:
  "(xs = [] \<Longrightarrow> wp f Q s) \<Longrightarrow> (\<And>y ys. xs = y # ys \<Longrightarrow> wp (g y ys) Q s) \<Longrightarrow>
    wp (case xs of [] \<Rightarrow> f | y # ys \<Rightarrow> g y ys) Q s"
  by (simp split: list.split)

lemmas wp_intros = wp_retI wp_bindI wp_ifI wp_case_sumI wp_case_optionI wp_case_prodI wp_case_listI wp_callI

lemma wp_total: "(\<And>a t. Q a t) \<Longrightarrow> wp m Q s"
  by (auto simp: wp_def)

lemma wp_for_each:
  assumes "I s" "\<And>x t. x \<in> set xs \<Longrightarrow> I t \<Longrightarrow> wp (f x) (\<lambda>r u. case r of Inl e \<Rightarrow> E e u | Inr _ \<Rightarrow> I u) t"
  shows "wp (for_each f xs) (\<lambda>r u. case r of Inl e \<Rightarrow> E e u | Inr _ \<Rightarrow> I u) s"
  using assms
proof (induction xs arbitrary: s)
  case (Cons x xs)
  have "wp (f x) (\<lambda>r u. case r of Inl e \<Rightarrow> E e u | Inr _ \<Rightarrow> I u) s"
    using Cons.prems by simp
  then have "wp (f x) (\<lambda>r. wp (case r of Inl e \<Rightarrow> ret (Inl e) | Inr _ \<Rightarrow> for_each f xs)
      (\<lambda>r u. case r of Inl e \<Rightarrow> E e u | Inr _ \<Rightarrow> I u)) s"
  proof (rule wp_mono)
    fix r :: "'c + unit" and t
    assume "case r of Inl e \<Rightarrow> E e t | Inr _ \<Rightarrow> I t"
    then show "wp (case r of Inl e \<Rightarrow> ret (Inl e) | Inr _ \<Rightarrow> for_each f xs)
        (\<lambda>r u. case r of Inl e \<Rightarrow> E e u | Inr _ \<Rightarrow> I u) t"
      using Cons.IH [of t] Cons.prems(2) by (cases r) auto
  qed
  then show ?case by simp
qed simp

section \<open>Guarded traces\<close>

text \<open>
  A trace is guarded by \<open>P\<close> when every event was allowed by the events before it.
\<close>

fun guarded :: "('ev list \<Rightarrow> 'ev \<Rightarrow> bool) \<Rightarrow> 'ev list \<Rightarrow> 'ev list \<Rightarrow> bool" where
  "guarded P past [] = True"
| "guarded P past (e # es) = (P past e \<and> guarded P (past @ [e]) es)"

lemma guarded_append [simp]:
  "guarded P past (es @ fs) = (guarded P past es \<and> guarded P (past @ es) fs)"
  by (induction es arbitrary: past) auto

lemma guarded_split:
  "guarded P past es \<longleftrightarrow> (\<forall>pre e post. es = pre @ e # post \<longrightarrow> P (past @ pre) e)"
proof (induction es arbitrary: past)
  case (Cons x xs)
  show ?case
  proof (intro iffI allI impI)
    fix pre e post
    assume g: "guarded P past (x # xs)" and eq: "x # xs = pre @ e # post"
    show "P (past @ pre) e"
      using g eq Cons.IH [of "past @ [x]"] by (cases pre) auto
  next
    assume all: "\<forall>pre e post. x # xs = pre @ e # post \<longrightarrow> P (past @ pre) e"
    have "P past x" using all [rule_format, of "[]" x xs] by simp
    moreover have "P ((past @ [x]) @ pre) e" if "xs = pre @ e # post" for pre e post
      using all [rule_format, of "x # pre" e post] that by simp
    ultimately show "guarded P past (x # xs)" using Cons.IH [of "past @ [x]"] by auto
  qed
qed simp

definition safe :: "('ev list \<Rightarrow> 'ev \<Rightarrow> bool) \<Rightarrow> ('w, 'ev, 'm) sys_scheme \<Rightarrow> bool" where
  "safe P s = guarded P [] (trace s)"

lemma safe_update [simp]:
  "safe P (s\<lparr>world := w, trace := trace s @ es\<rparr>) = (safe P s \<and> guarded P (trace s) es)"
  by (simp add: safe_def)

lemma safe_trace [simp]: "safe P (s\<lparr>trace := trace s @ es\<rparr>) = (safe P s \<and> guarded P (trace s) es)"
  by (simp add: safe_def)

lemma guarded_weaken: "guarded P past es \<Longrightarrow> (\<And>past e. P past e \<Longrightarrow> Q past e) \<Longrightarrow> guarded Q past es"
  by (induction es arbitrary: past) auto

lemma safe_weaken: "safe P s \<Longrightarrow> (\<And>past e. P past e \<Longrightarrow> Q past e) \<Longrightarrow> safe Q s"
  unfolding safe_def by (rule guarded_weaken)

lemma guarded_True [simp]: "guarded (\<lambda>_ _. True) past es"
  by (induction es arbitrary: past) auto

lemma safe_True [simp]: "safe (\<lambda>_ _. True) s"
  by (simp add: safe_def)

section \<open>Handlers that keep an invariant\<close>

text \<open>
  \<open>keeps I m\<close>: from a state with \<open>I\<close> the handler ends in a state with \<open>I\<close> and every event
  logged before is still there.  Handlers built from reads keep every guard that allows reads.
\<close>

abbreviation events :: "('w, 'ev, 'm) sys_scheme \<Rightarrow> 'ev set" where
  "events s \<equiv> set (trace s)"

definition keeps :: "(('w, 'ev) sys \<Rightarrow> bool) \<Rightarrow> (('w, 'ev) sys, 'a) state \<Rightarrow> bool" where
  "keeps I m \<longleftrightarrow> (\<forall>s. I s \<longrightarrow> wp m (\<lambda>_ t. I t \<and> events s \<subseteq> events t) s)"

lemma keepsD: "keeps I m \<Longrightarrow> I s \<Longrightarrow> wp m (\<lambda>_ t. I t \<and> events s \<subseteq> events t) s"
  by (simp add: keeps_def)

lemma keeps_ret [intro!, simp]: "keeps I (ret a)"
  by (simp add: keeps_def)

lemma keeps_bind [intro]: "keeps I m \<Longrightarrow> (\<And>a. keeps I (f a)) \<Longrightarrow> keeps I (State_Monad.bind m f)"
  unfolding keeps_def wp_bind
proof (intro allI impI)
  fix s assume m: "\<forall>s. I s \<longrightarrow> wp m (\<lambda>_ t. I t \<and> events s \<subseteq> events t) s"
    and f: "\<And>a. \<forall>s. I s \<longrightarrow> wp (f a) (\<lambda>_ t. I t \<and> events s \<subseteq> events t) s" and s: "I s"
  show "wp m (\<lambda>a. wp (f a) (\<lambda>_ t. I t \<and> events s \<subseteq> events t)) s"
  proof (rule wp_mono [OF m [rule_format, OF s]], elim conjE)
    fix a t assume t: "I t" "events s \<subseteq> events t"
    show "wp (f a) (\<lambda>_ u. I u \<and> events s \<subseteq> events u) t"
      by (rule wp_mono [OF f [rule_format, OF t(1)]]) (use t(2) in blast)
  qed
qed

lemma keeps_if [intro!]: "(b \<Longrightarrow> keeps I m) \<Longrightarrow> (\<not> b \<Longrightarrow> keeps I n) \<Longrightarrow> keeps I (if b then m else n)"
  by simp

lemma keeps_case_sum [intro!]:
  "(\<And>e. r = Inl e \<Longrightarrow> keeps I (f e)) \<Longrightarrow> (\<And>x. r = Inr x \<Longrightarrow> keeps I (g x)) \<Longrightarrow>
    keeps I (case r of Inl e \<Rightarrow> f e | Inr x \<Rightarrow> g x)"
  by (simp split: sum.splits)

lemma keeps_case_option [intro!]:
  "(r = None \<Longrightarrow> keeps I f) \<Longrightarrow> (\<And>x. r = Some x \<Longrightarrow> keeps I (g x)) \<Longrightarrow>
    keeps I (case r of None \<Rightarrow> f | Some x \<Rightarrow> g x)"
  by (simp split: option.splits)

lemma keeps_case_prod [intro!]: "(\<And>x y. p = (x, y) \<Longrightarrow> keeps I (f x y)) \<Longrightarrow> keeps I (case p of (x, y) \<Rightarrow> f x y)"
  by (simp split: prod.splits)

lemma keeps_case_list [intro!]:
  "(xs = [] \<Longrightarrow> keeps I f) \<Longrightarrow> (\<And>y ys. xs = y # ys \<Longrightarrow> keeps I (g y ys)) \<Longrightarrow>
    keeps I (case xs of [] \<Rightarrow> f | y # ys \<Rightarrow> g y ys)"
  by (simp split: list.splits)

lemma keeps_call: "(\<And>past r. P past (ev r)) \<Longrightarrow> keeps (safe P) (call f ev)"
  unfolding keeps_def by (auto intro!: wp_callI)

text \<open>The same rules under a continuation, which then sees the path that was taken.\<close>

lemma keeps_bind_ret: "keeps I (f a) \<Longrightarrow> keeps I (State_Monad.bind (ret a) f)"
  by (simp add: keeps_def)

lemma keeps_bind_bind: "keeps I (State_Monad.bind m (\<lambda>a. State_Monad.bind (g a) f)) \<Longrightarrow> keeps I (State_Monad.bind (State_Monad.bind m g) f)"
  by (simp add: keeps_def)

lemma keeps_bind_if:
  "(b \<Longrightarrow> keeps I (State_Monad.bind m f)) \<Longrightarrow> (\<not> b \<Longrightarrow> keeps I (State_Monad.bind n f)) \<Longrightarrow>
    keeps I (State_Monad.bind (if b then m else n) f)"
  by simp

lemma keeps_bind_case_sum:
  "(\<And>e. r = Inl e \<Longrightarrow> keeps I (State_Monad.bind (g e) f)) \<Longrightarrow> (\<And>x. r = Inr x \<Longrightarrow> keeps I (State_Monad.bind (h x) f)) \<Longrightarrow>
    keeps I (State_Monad.bind (case r of Inl e \<Rightarrow> g e | Inr x \<Rightarrow> h x) f)"
  by (simp split: sum.splits)

lemmas keeps_nested = keeps_bind_ret keeps_bind_bind keeps_bind_if keeps_bind_case_sum

lemma keeps_wp:
  assumes "keeps I m" "I s" "wp m Q s"
  shows "wp m (\<lambda>a t. I t \<and> events s \<subseteq> events t \<and> Q a t) s"
  using wp_conj [OF keepsD [OF assms(1,2)] assms(3)] by (rule wp_mono) simp

section \<open>Handlers under evidence\<close>

text \<open>
  \<open>run P F\<close>: a trace guarded by \<open>P\<close> that holds the events \<open>F\<close>.  A call may rely on the events
  logged before it and adds its own to the evidence of what follows.
\<close>

definition run :: "('ev list \<Rightarrow> 'ev \<Rightarrow> bool) \<Rightarrow> 'ev set \<Rightarrow> ('w, 'ev) sys \<Rightarrow> bool" where
  "run P F s \<longleftrightarrow> safe P s \<and> F \<subseteq> events s"

lemma run_call:
  assumes "\<And>past r. guarded P [] past \<Longrightarrow> F \<subseteq> set past \<Longrightarrow> P past (ev r)"
  shows "keeps (run P F) (call f ev)"
  unfolding keeps_def run_def using assms by (auto intro!: wp_callI simp: safe_def)

lemma run_call_bind:
  fixes f :: "'w \<Rightarrow> 'r \<times> 'w" and ev :: "'r \<Rightarrow> 'ev"
  assumes "\<And>past r. guarded P [] past \<Longrightarrow> F \<subseteq> set past \<Longrightarrow> P past (ev r)"
    and g: "\<And>r. keeps (run P (insert (ev r) F)) (g r)"
  shows "keeps (run P F) (State_Monad.bind (call f ev) g)"
  unfolding keeps_def
proof (intro allI impI wp_bindI wp_callI)
  fix s :: "('w, 'ev) sys" and r w assume s: "run P F s"
  let ?t = "s\<lparr>world := w, trace := trace s @ [ev r]\<rparr>"
  have "run P (insert (ev r) F) ?t" using assms(1) [of "trace s"] s by (auto simp: safe_def run_def)
  from keepsD [OF g this]
  show "wp (g r) (\<lambda>_ t. run P F t \<and> events s \<subseteq> events t) ?t"
    by (rule wp_mono) (auto simp: run_def)
qed

lemma run_weaken:
  assumes "keeps (run P F) m" "F \<subseteq> G" shows "keeps (run P G) m"
  unfolding keeps_def
proof (intro allI impI)
  fix s :: "('a, 'b) sys" assume s: "run P G s"
  then have "run P F s" using assms(2) by (auto simp: run_def)
  from keepsD [OF assms(1) this] s
  show "wp m (\<lambda>_ t. run P G t \<and> events s \<subseteq> events t) s" by (auto elim!: wp_mono simp: run_def)
qed

lemma run_empty: "run P {} = safe P"
  by (simp add: run_def fun_eq_iff)

lemma run_frame: "keeps (safe P) m \<Longrightarrow> keeps (run P F) m"
  using run_weaken [of P "{}" m F] by (simp add: run_empty)

end
