(* ===== verification/Cluster_Api.thy ===== *)
theory Cluster_Api
  imports Job_IR External_Job Effects
begin

text \<open>
  The boundary of the registration controller: Slurm job records, error values, the calls that
  leave the process and the events that record them.  The Kubernetes and Slurm servers are not
  part of the repository, so each call is an operation of the record \<open>cluster\<close>, a parameter of
  every handler: a function of the outside world with no assumption on what it returns.  The
  wrappers below run an operation and log its event.
\<close>

section \<open>Slurm job records\<close>

datatype job_state = PENDING | RUNNING | SUSPENDED | COMPLETING | COMPLETED | CANCELLED | FAILED
  | TIMEOUT | NODEFAIL | PREEMPTED | BOOTFAIL | DEADLINE | OUTOFMEMORY | OtherState string

record noval =
  nv_set :: "bool option"
  nv_number :: "int option"

record jobinfo =
  ji_jobId :: "int option"
  ji_nodes :: "string option"
  ji_jobState :: "job_state list"
  ji_priority :: "noval option"
  ji_hetJobId :: "noval option"
  ji_hetJobOffset :: "noval option"
  ji_adminComment :: "json option"

text \<open>The object key of a job record is its decimal job ID.\<close>

definition GetKey :: "jobinfo \<Rightarrow> string" where
  "GetKey j = show_int (deref 0 (ji_jobId j))"

lemma show_int_inj [simp]: "show_int a = show_int b \<longleftrightarrow> a = b"
proof -
  have d: "CHR ''-'' \<notin> set (show_nat n)" for n by (rule not_digit_show) (simp add: is_digit_def)
  have "CHR ''-'' # show_nat m \<noteq> show_nat n" for m n using d [of n] by (metis list.set_intros(1))
  then show ?thesis by (auto simp: show_int_def dest: sym)
qed

section \<open>Errors\<close>

datatype err = NotFound | SlurmNotFound | SlurmError int | PodGroupNoPods | LWSNoPods
  | LWSLeaderMissing | AmbiguousAllocation | AllocationMissing | NotSubmitted err
  | Joined "err list" | Wrapped string err | OtherErr string

text \<open>
  \<open>errors.Is\<close> looks through joined errors and through the wrapping done by
  \<open>ErrRegistrationNotSubmitted\<close>.
\<close>

fun err_any :: "(err \<Rightarrow> bool) \<Rightarrow> err \<Rightarrow> bool" where
  "err_any P (Joined es) = (P (Joined es) \<or> list_ex (err_any P) es)"
| "err_any P (NotSubmitted e) = (P (NotSubmitted e) \<or> err_any P e)"
| "err_any P (Wrapped s e) = (P (Wrapped s e) \<or> err_any P e)"
| "err_any P e = P e"

definition err_is :: "err \<Rightarrow> err \<Rightarrow> bool" where
  "err_is target e = err_any (\<lambda>x. x = target) e"

definition join_errs :: "err list \<Rightarrow> err + unit" where
  "join_errs es = (if es = [] then Inr () else Inl (Joined es))"

definition IgnoreNotFound :: "err + 'a \<Rightarrow> 'a \<Rightarrow> err + 'a" where
  "IgnoreNotFound r d = (case r of Inl e \<Rightarrow> if err_is NotFound e then Inr d else Inl e | Inr x \<Rightarrow> Inr x)"

section \<open>Calls\<close>

datatype reader = Cached | Live

datatype cache_mode = UseCache | SkipCache | RefreshCache

record Request =
  RAPIGroup :: string
  RKind :: string
  RNamespace :: string
  RName :: string
  RUID :: string
  ReplicaHash :: string

record claim =
  claim_namespace :: string
  claim_name :: string
  claim_uid :: string
  claim_owners :: "(string \<times> string) list"

record registrationEvent =
  eventType :: string
  reason :: string
  message :: string

record ObjectReference =
  refAPIVersion :: string
  refKind :: string
  refNamespace :: string
  refName :: string
  refUID :: string

text \<open>
  The raw answer to deleting one heterogeneous component: its status and the error numbers of the
  two response bodies, when present.
\<close>

record deleteResponse =
  statusCode :: int
  json200 :: "int list option"
  jsonDefault :: "int list option"

record 'w cluster =
  podGet :: "reader \<Rightarrow> string \<Rightarrow> string \<Rightarrow> 'w \<Rightarrow> (err + pod) \<times> 'w"
  podListLabel :: "reader \<Rightarrow> string \<Rightarrow> string \<Rightarrow> 'w \<Rightarrow> (err + pod list) \<times> 'w"
  podPatch :: "pod \<Rightarrow> pod \<Rightarrow> 'w \<Rightarrow> (err + unit) \<times> 'w"
  podDelete :: "pod \<Rightarrow> 'w \<Rightarrow> (err + unit) \<times> 'w"
  metaGet :: "reader \<Rightarrow> objmeta \<Rightarrow> 'w \<Rightarrow> (err + objmeta) \<times> 'w"
  claimList :: "string \<Rightarrow> string \<Rightarrow> 'w \<Rightarrow> (err + claim list) \<times> 'w"
  claimGet :: "string \<Rightarrow> string \<Rightarrow> 'w \<Rightarrow> (err + claim) \<times> 'w"
  claimDelete :: "claim \<Rightarrow> 'w \<Rightarrow> (err + unit) \<times> 'w"
  workloadRoot :: "reader \<Rightarrow> pod \<Rightarrow> 'w \<Rightarrow> (err + objmeta) \<times> 'w"
  groupMembers :: "reader \<Rightarrow> objmeta \<Rightarrow> string \<Rightarrow> 'w \<Rightarrow> (err + pod list) \<times> 'w"
  slurmGet :: "cache_mode \<Rightarrow> string \<Rightarrow> 'w \<Rightarrow> (err + jobinfo) \<times> 'w"
  slurmList :: "cache_mode \<Rightarrow> 'w \<Rightarrow> (err + jobinfo list) \<times> 'w"
  slurmDelete :: "int \<Rightarrow> 'w \<Rightarrow> (err + unit) \<times> 'w"
  slurmDeleteComponent :: "string \<Rightarrow> 'w \<Rightarrow> (err + deleteResponse option) \<times> 'w"
  slurmByIndex :: "string \<Rightarrow> string \<Rightarrow> 'w \<Rightarrow> (err + jobinfo list) \<times> 'w"
  informerSynced :: "'w \<Rightarrow> (err + bool) \<times> 'w"
  translateIR :: "pod \<Rightarrow> 'w \<Rightarrow> (err + SlurmJobIR) \<times> 'w"
  registrationReady :: "pod \<Rightarrow> SlurmJobIR \<Rightarrow> 'w \<Rightarrow> (err + bool \<times> string) \<times> 'w"
  registerJob :: "SlurmJobIR \<Rightarrow> 'w \<Rightarrow> (err option \<times> int) \<times> 'w"
  recentGet :: "Request \<Rightarrow> 'w \<Rightarrow> int option \<times> 'w"
  recentSet :: "Request \<Rightarrow> int \<Rightarrow> int \<Rightarrow> 'w \<Rightarrow> unit \<times> 'w"
  recentDelete :: "Request \<Rightarrow> 'w \<Rightarrow> unit \<times> 'w"
  historyGet :: "Request \<Rightarrow> 'w \<Rightarrow> registrationEvent option \<times> 'w"
  historySet :: "Request \<Rightarrow> registrationEvent \<Rightarrow> int \<Rightarrow> 'w \<Rightarrow> unit \<times> 'w"
  historyDelete :: "Request \<Rightarrow> 'w \<Rightarrow> unit \<times> 'w"
  recordEvent :: "ObjectReference \<Rightarrow> registrationEvent \<Rightarrow> 'w \<Rightarrow> unit \<times> 'w"

datatype event =
    EvPodGet reader string string "err + pod"
  | EvPodList reader string string "err + pod list"
  | EvPodPatch pod pod "err + unit"
  | EvPodDelete pod "err + unit"
  | EvMetaGet reader objmeta "err + objmeta"
  | EvClaimList string string "err + claim list"
  | EvClaimGet string string "err + claim"
  | EvClaimDelete claim "err + unit"
  | EvRoot reader pod "err + objmeta"
  | EvMembers reader objmeta string "err + pod list"
  | EvSlurmGet cache_mode string "err + jobinfo"
  | EvSlurmList cache_mode "err + jobinfo list"
  | EvSlurmDelete int "err + unit"
  | EvSlurmDeleteComponent string "err + deleteResponse option"
  | EvByIndex string string "err + jobinfo list"
  | EvSynced "err + bool"
  | EvTranslate pod "err + SlurmJobIR"
  | EvReady pod SlurmJobIR "err + bool \<times> string"
  | EvRegister SlurmJobIR "err option \<times> int"
  | EvRecentGet Request "int option"
  | EvRecentSet Request int int
  | EvRecentDelete Request
  | EvHistoryGet Request "registrationEvent option"
  | EvHistorySet Request registrationEvent int
  | EvHistoryDelete Request
  | EvRecord ObjectReference registrationEvent
  | EvEnqueue Request

type_synonym ('w, 'a) handler = "(('w, event) sys, 'a) state"

definition doPodGet :: "'w cluster \<Rightarrow> reader \<Rightarrow> string \<Rightarrow> string \<Rightarrow> ('w, err + pod) handler" where
  "doPodGet C r ns n = call (podGet C r ns n) (EvPodGet r ns n)"
definition doPodList :: "'w cluster \<Rightarrow> reader \<Rightarrow> string \<Rightarrow> string \<Rightarrow> ('w, err + pod list) handler" where
  "doPodList C r k v = call (podListLabel C r k v) (EvPodList r k v)"
definition doPodPatch :: "'w cluster \<Rightarrow> pod \<Rightarrow> pod \<Rightarrow> ('w, err + unit) handler" where
  "doPodPatch C p q = call (podPatch C p q) (EvPodPatch p q)"
definition doPodDelete :: "'w cluster \<Rightarrow> pod \<Rightarrow> ('w, err + unit) handler" where
  "doPodDelete C p = call (podDelete C p) (EvPodDelete p)"
definition doMetaGet :: "'w cluster \<Rightarrow> reader \<Rightarrow> objmeta \<Rightarrow> ('w, err + objmeta) handler" where
  "doMetaGet C r m = call (metaGet C r m) (EvMetaGet r m)"
definition doClaimList :: "'w cluster \<Rightarrow> string \<Rightarrow> string \<Rightarrow> ('w, err + claim list) handler" where
  "doClaimList C ns u = call (claimList C ns u) (EvClaimList ns u)"
definition doClaimGet :: "'w cluster \<Rightarrow> string \<Rightarrow> string \<Rightarrow> ('w, err + claim) handler" where
  "doClaimGet C ns n = call (claimGet C ns n) (EvClaimGet ns n)"
definition doClaimDelete :: "'w cluster \<Rightarrow> claim \<Rightarrow> ('w, err + unit) handler" where
  "doClaimDelete C c = call (claimDelete C c) (EvClaimDelete c)"
definition doRoot :: "'w cluster \<Rightarrow> reader \<Rightarrow> pod \<Rightarrow> ('w, err + objmeta) handler" where
  "doRoot C r p = call (workloadRoot C r p) (EvRoot r p)"
definition doMembers :: "'w cluster \<Rightarrow> reader \<Rightarrow> objmeta \<Rightarrow> string \<Rightarrow> ('w, err + pod list) handler" where
  "doMembers C r m h = call (groupMembers C r m h) (EvMembers r m h)"
definition doSlurmGet :: "'w cluster \<Rightarrow> cache_mode \<Rightarrow> string \<Rightarrow> ('w, err + jobinfo) handler" where
  "doSlurmGet C m k = call (slurmGet C m k) (EvSlurmGet m k)"
definition doSlurmList :: "'w cluster \<Rightarrow> cache_mode \<Rightarrow> ('w, err + jobinfo list) handler" where
  "doSlurmList C m = call (slurmList C m) (EvSlurmList m)"
definition doSlurmDelete :: "'w cluster \<Rightarrow> int \<Rightarrow> ('w, err + unit) handler" where
  "doSlurmDelete C i = call (slurmDelete C i) (EvSlurmDelete i)"
definition doSlurmDeleteComponent :: "'w cluster \<Rightarrow> string \<Rightarrow> ('w, err + deleteResponse option) handler" where
  "doSlurmDeleteComponent C s = call (slurmDeleteComponent C s) (EvSlurmDeleteComponent s)"
definition doByIndex :: "'w cluster \<Rightarrow> string \<Rightarrow> string \<Rightarrow> ('w, err + jobinfo list) handler" where
  "doByIndex C i k = call (slurmByIndex C i k) (EvByIndex i k)"
definition doSynced :: "'w cluster \<Rightarrow> ('w, err + bool) handler" where
  "doSynced C = call (informerSynced C) EvSynced"
definition doTranslate :: "'w cluster \<Rightarrow> pod \<Rightarrow> ('w, err + SlurmJobIR) handler" where
  "doTranslate C p = call (translateIR C p) (EvTranslate p)"
definition doReady :: "'w cluster \<Rightarrow> pod \<Rightarrow> SlurmJobIR \<Rightarrow> ('w, err + bool \<times> string) handler" where
  "doReady C p ir = call (registrationReady C p ir) (EvReady p ir)"
definition doRegister :: "'w cluster \<Rightarrow> SlurmJobIR \<Rightarrow> ('w, err option \<times> int) handler" where
  "doRegister C ir = call (registerJob C ir) (EvRegister ir)"
definition doRecentGet :: "'w cluster \<Rightarrow> Request \<Rightarrow> ('w, int option) handler" where
  "doRecentGet C q = call (recentGet C q) (EvRecentGet q)"
definition doRecentSet :: "'w cluster \<Rightarrow> Request \<Rightarrow> int \<Rightarrow> int \<Rightarrow> ('w, unit) handler" where
  "doRecentSet C q i ttl = call (recentSet C q i ttl) (\<lambda>_. EvRecentSet q i ttl)"
definition doRecentDelete :: "'w cluster \<Rightarrow> Request \<Rightarrow> ('w, unit) handler" where
  "doRecentDelete C q = call (recentDelete C q) (\<lambda>_. EvRecentDelete q)"
definition doHistoryGet :: "'w cluster \<Rightarrow> Request \<Rightarrow> ('w, registrationEvent option) handler" where
  "doHistoryGet C q = call (historyGet C q) (EvHistoryGet q)"
definition doHistorySet :: "'w cluster \<Rightarrow> Request \<Rightarrow> registrationEvent \<Rightarrow> int \<Rightarrow> ('w, unit) handler" where
  "doHistorySet C q e ttl = call (historySet C q e ttl) (\<lambda>_. EvHistorySet q e ttl)"
definition doHistoryDelete :: "'w cluster \<Rightarrow> Request \<Rightarrow> ('w, unit) handler" where
  "doHistoryDelete C q = call (historyDelete C q) (\<lambda>_. EvHistoryDelete q)"
definition doRecord :: "'w cluster \<Rightarrow> ObjectReference \<Rightarrow> registrationEvent \<Rightarrow> ('w, unit) handler" where
  "doRecord C r e = call (recordEvent C r e) (\<lambda>_. EvRecord r e)"
definition enqueue :: "Request \<Rightarrow> ('w, unit) handler" where
  "enqueue q = call (\<lambda>w. ((), w)) (\<lambda>_. EvEnqueue q)"

lemmas call_defs = doPodGet_def doPodList_def doPodPatch_def doPodDelete_def doMetaGet_def
  doClaimList_def doClaimGet_def doClaimDelete_def doRoot_def doMembers_def doSlurmGet_def
  doSlurmList_def doSlurmDelete_def doSlurmDeleteComponent_def doByIndex_def doSynced_def
  doTranslate_def doReady_def doRegister_def doRecentGet_def doRecentSet_def doRecentDelete_def
  doHistoryGet_def doHistorySet_def doHistoryDelete_def doRecord_def enqueue_def

section \<open>A sample cluster\<close>

text \<open>
  A cluster with no objects, on which concrete runs are built by overriding single operations.
\<close>

definition no_objects :: "'w cluster" where
  "no_objects = \<lparr>podGet = (\<lambda>_ _ _ w. (Inl NotFound, w)), podListLabel = (\<lambda>_ _ _ w. (Inr [], w)),
     podPatch = (\<lambda>_ _ w. (Inr (), w)), podDelete = (\<lambda>_ w. (Inr (), w)),
     metaGet = (\<lambda>_ _ w. (Inl NotFound, w)), claimList = (\<lambda>_ _ w. (Inr [], w)),
     claimGet = (\<lambda>_ _ w. (Inl NotFound, w)), claimDelete = (\<lambda>_ w. (Inr (), w)),
     workloadRoot = (\<lambda>_ _ w. (Inl NotFound, w)), groupMembers = (\<lambda>_ _ _ w. (Inr [], w)),
     slurmGet = (\<lambda>_ _ w. (Inl SlurmNotFound, w)), slurmList = (\<lambda>_ w. (Inr [], w)),
     slurmDelete = (\<lambda>_ w. (Inr (), w)), slurmDeleteComponent = (\<lambda>_ w. (Inr None, w)),
     slurmByIndex = (\<lambda>_ _ w. (Inr [], w)), informerSynced = (\<lambda>w. (Inr True, w)),
     translateIR = (\<lambda>_ w. (Inl NotFound, w)), registrationReady = (\<lambda>_ _ w. (Inr (True, []), w)),
     registerJob = (\<lambda>_ w. ((None, 1), w)), recentGet = (\<lambda>_ w. (None, w)),
     recentSet = (\<lambda>_ _ _ w. ((), w)), recentDelete = (\<lambda>_ w. ((), w)),
     historyGet = (\<lambda>_ w. (None, w)), historySet = (\<lambda>_ _ _ w. ((), w)),
     historyDelete = (\<lambda>_ w. ((), w)), recordEvent = (\<lambda>_ _ w. ((), w))\<rparr>"

definition start :: "(unit, event) sys" where
  "start = \<lparr>world = (), trace = []\<rparr>"

definition held_job :: jobinfo where
  "held_job = \<lparr>ji_jobId = Some 7, ji_nodes = None, ji_jobState = [PENDING],
     ji_priority = Some \<lparr>nv_set = Some True, nv_number = Some 0\<rparr>, ji_hetJobId = None,
     ji_hetJobOffset = None,
     ji_adminComment = Some (JObj [(''pods'', JStr ''ns/a/u1'')])\<rparr>"

end
