(* ===== verification/Slurm_Job.thy ===== *)
theory Slurm_Job
  imports Cluster_Api
begin

text \<open>
  \<open>internal/utils/slurmjob\<close>: from raw Slurm records to the allocation of a workload.  The
  theory has the decoding and validation of one record, the lookup of an allocation through the
  informer indexes, the matching of its components to the workload, and the repair of Pod
  metadata.
\<close>

section \<open>Job records\<close>

record ExternalJob =
  JobId :: int
  HetJobId :: int
  HetJobOffset :: int
  JobNodes :: string
  Pending :: bool
  Held :: bool
  Finished :: bool

definition AllocationID :: "('a) ExternalJob_scheme \<Rightarrow> int" where
  "AllocationID j = (if HetJobId j > 0 then HetJobId j else JobId j)"

definition isFinishedJob :: "jobinfo \<Rightarrow> bool" where
  "isFinishedJob job =
     (if list_ex (\<lambda>s. s \<in> set [PENDING, RUNNING, SUSPENDED]) (ji_jobState job) then False
      else list_ex (\<lambda>s. s \<in> set [COMPLETED, CANCELLED, FAILED, TIMEOUT, NODEFAIL, PREEMPTED,
             BOOTFAIL, DEADLINE, OUTOFMEMORY]) (ji_jobState job))"

datatype job_error = NilJob | UnsetJobID | HetIDMissing | HetOffsetMissing | HetOffsetUnset
  | HetOffsetValueMissing | HomogeneousOffset | NegativeHetID int | NegativeOffset | NonLeaderZero

definition validateExternalJobID :: "jobinfo \<Rightarrow> ExternalJob \<Rightarrow> job_error + ExternalJob" where
  "validateExternalJobID job ext =
     (if JobId ext \<le> 0 then Inl UnsetJobID
      else case ji_hetJobId job of
        None \<Rightarrow> Inr ext
      | Some hid \<Rightarrow>
         if \<not> deref False (nv_set hid) then Inr ext
         else case nv_number hid of
           None \<Rightarrow> Inl HetIDMissing
         | Some het \<Rightarrow>
           (case ji_hetJobOffset job of
             None \<Rightarrow> Inl HetOffsetMissing
           | Some hoff \<Rightarrow>
              if \<not> deref False (nv_set hoff) then Inl HetOffsetUnset
              else case nv_number hoff of
                None \<Rightarrow> Inl HetOffsetValueMissing
              | Some off \<Rightarrow>
                 if het = 0 then
                   (if off \<noteq> 0 then Inl HomogeneousOffset
                    else Inr (ext\<lparr>HetJobId := het, HetJobOffset := off\<rparr>))
                 else if het < 0 then Inl (NegativeHetID het)
                 else if off < 0 then Inl NegativeOffset
                 else if het \<noteq> JobId ext \<and> off = 0 then Inl NonLeaderZero
                 else Inr (ext\<lparr>HetJobId := het, HetJobOffset := off\<rparr>)))"

definition FromJobInfo :: "jobinfo option \<Rightarrow> job_error + ExternalJob" where
  "FromJobInfo r = (case r of
       None \<Rightarrow> Inl NilJob
     | Some job \<Rightarrow>
         (let pending = (PENDING \<in> set (ji_jobState job));
              held = (case ji_priority job of None \<Rightarrow> False
                | Some p \<Rightarrow> pending \<and> deref False (nv_set p) \<and> deref (-1) (nv_number p) = 0)
          in validateExternalJobID job
               \<lparr>JobId = deref 0 (ji_jobId job), HetJobId = 0, HetJobOffset = 0,
                JobNodes = deref [] (ji_nodes job), Pending = pending, Held = held,
                Finished = isFinishedJob job\<rparr>))"

record RegisteredJob = ExternalJob +
  info :: ExternalJobInfo

definition registered :: "ExternalJob \<Rightarrow> ExternalJobInfo \<Rightarrow> RegisteredJob" where
  "registered j i = ExternalJob.extend j (RegisteredJob.fields i)"

definition externalOf :: "RegisteredJob \<Rightarrow> ExternalJob" where
  "externalOf j = ExternalJob.truncate j"

definition jobErr :: "job_error + 'a \<Rightarrow> err + 'a" where
  "jobErr r = (case r of Inl _ \<Rightarrow> Inl (OtherErr ''job'') | Inr x \<Rightarrow> Inr x)"

definition RegisteredJobFromInfo :: "jobinfo \<Rightarrow> err + RegisteredJob" where
  "RegisteredJobFromInfo raw = rbind (jobErr (FromJobInfo (Some raw))) (\<lambda>job.
     case ParseIntoExternalJobInfo (ji_adminComment raw) of
       None \<Rightarrow> Inl (OtherErr ''admin comment'')
     | Some i \<Rightarrow> Inr (registered job i))"

lemma registered_simps [simp]:
  "JobId (registered j i) = JobId j" "HetJobId (registered j i) = HetJobId j"
  "HetJobOffset (registered j i) = HetJobOffset j" "Finished (registered j i) = Finished j"
  "Pending (registered j i) = Pending j" "info (registered j i) = i"
  "externalOf (registered j i) = j" "AllocationID (registered j i) = AllocationID j"
  by (simp_all add: registered_def externalOf_def AllocationID_def ExternalJob.defs RegisteredJob.defs)

lemma externalOf_simps [simp]:
  "JobId (externalOf r) = JobId r" "Finished (externalOf r) = Finished r"
  "AllocationID (externalOf r) = AllocationID r"
  by (simp_all add: externalOf_def AllocationID_def ExternalJob.defs)

text \<open>What a decoded record guarantees.\<close>

definition job_ok :: "ExternalJob \<Rightarrow> bool" where
  "job_ok j \<longleftrightarrow> 0 < JobId j \<and> 0 \<le> HetJobId j \<and> 0 \<le> HetJobOffset j \<and>
     (HetJobId j = 0 \<longrightarrow> HetJobOffset j = 0) \<and>
     (HetJobId j \<noteq> 0 \<and> HetJobId j \<noteq> JobId j \<longrightarrow> 0 < HetJobOffset j) \<and>
     (Held j \<longrightarrow> Pending j) \<and> (Finished j \<longrightarrow> \<not> Pending j)"

lemma isFinishedJob_active:
  "isFinishedJob j \<Longrightarrow> PENDING \<notin> set (ji_jobState j) \<and> RUNNING \<notin> set (ji_jobState j) \<and> SUSPENDED \<notin> set (ji_jobState j)"
  by (auto simp: isFinishedJob_def list_ex_iff split: if_splits)

lemma FromJobInfo_ok: "FromJobInfo (Some raw) = Inr j \<Longrightarrow> job_ok j"
  using isFinishedJob_active [of raw]
  by (auto simp: FromJobInfo_def validateExternalJobID_def job_ok_def Let_def
      split: if_splits option.splits)

lemma FromJobInfo_JobId: "FromJobInfo (Some raw) = Inr j \<Longrightarrow> JobId j = deref 0 (ji_jobId raw)"
  by (auto simp: FromJobInfo_def validateExternalJobID_def Let_def split: if_splits option.splits)

lemma FromJobInfo_Finished: "FromJobInfo (Some raw) = Inr j \<Longrightarrow> Finished j = isFinishedJob raw"
  by (auto simp: FromJobInfo_def validateExternalJobID_def Let_def split: if_splits option.splits)

lemma AllocationID_pos: "job_ok j \<Longrightarrow> 0 < AllocationID j"
  by (simp add: job_ok_def AllocationID_def)

section \<open>Allocation identity\<close>

definition PodJobIndex :: string where "PodJobIndex = ''bridge.pod''"
definition GroupJobIndex :: string where "GroupJobIndex = ''bridge.group''"
definition LegacyPodJobIndex :: string where "LegacyPodJobIndex = ''bridge.legacy-pod''"

definition GroupUniqueHashLabelKey :: string where
  "GroupUniqueHashLabelKey = ''leaderworkerset.sigs.k8s.io/group-key''"
definition WorkerIndexLabelKey :: string where
  "WorkerIndexLabelKey = ''leaderworkerset.sigs.k8s.io/worker-index''"
definition SetNameLabelKey :: string where
  "SetNameLabelKey = ''leaderworkerset.sigs.k8s.io/name''"

record AllocationIdentity =
  Index :: string
  IKey :: string
  legacyPodKeys :: "string list"

definition emptyIdentity :: AllocationIdentity where
  "emptyIdentity = \<lparr>Index = [], IKey = [], legacyPodKeys = []\<rparr>"

definition podAllocationIdentity :: "pod \<Rightarrow> AllocationIdentity" where
  "podAllocationIdentity p = \<lparr>Index = PodJobIndex, IKey = PodKey p, legacyPodKeys = []\<rparr>"

definition lwsAllocationIdentity :: "pod \<Rightarrow> SlurmJobIR \<Rightarrow> AllocationIdentity \<times> err option" where
  "lwsAllocationIdentity p ir =
     (let hash = label p GroupUniqueHashLabelKey in
      case find (\<lambda>m. hash \<noteq> [] \<and> label m GroupUniqueHashLabelKey = hash
                     \<and> label m WorkerIndexLabelKey = ''0'') (AllPods ir) of
        Some m \<Rightarrow> (podAllocationIdentity m, None)
      | None \<Rightarrow>
          if hash = [] then (emptyIdentity, Some LWSLeaderMissing)
          else ((podAllocationIdentity p)\<lparr>legacyPodKeys :=
                  concat (map (\<lambda>m. [PodKey m, plainKey m])
                    (filter (\<lambda>m. label m GroupUniqueHashLabelKey = hash) (AllPods ir)))\<rparr>,
                Some LWSLeaderMissing))"

definition IdentityForAllocation :: "pod \<Rightarrow> SlurmJobIR \<Rightarrow> AllocationIdentity \<times> err option" where
  "IdentityForAllocation p ir = (case NewGroupIdentity (RootPOM ir) of
       Some g \<Rightarrow>
         (\<lparr>Index = GroupJobIndex, IKey = Key g,
           legacyPodKeys = (if om_kind (RootPOM ir) = ''PodGroup''
             then concat (map (\<lambda>m. PodKey m # (if uid m \<noteq> [] then [plainKey m] else [])) (AllPods ir))
             else [])\<rparr>, None)
     | None \<Rightarrow>
         if om_kind (RootPOM ir) = ''LeaderWorkerSet'' then lwsAllocationIdentity p ir
         else (podAllocationIdentity p, None))"

section \<open>Informer index keys\<close>

definition jobLegacyPodKeys :: "jobinfo \<Rightarrow> string list" where
  "jobLegacyPodKeys job = (case ParseIntoExternalJobInfo (ji_adminComment job) of
       None \<Rightarrow> []
     | Some i \<Rightarrow> if PodGroup i \<noteq> None \<or> CompositePodGroup i \<noteq> None then [] else InfoPods i)"

definition jobGroupKeys :: "jobinfo \<Rightarrow> string list" where
  "jobGroupKeys job = (case ParseIntoExternalJobInfo (ji_adminComment job) of
       None \<Rightarrow> []
     | Some i \<Rightarrow> concat (map (\<lambda>g. case g of None \<Rightarrow> [] | Some g \<Rightarrow> [Key g]) [PodGroup i, CompositePodGroup i]))"

definition jobPodKeys :: "jobinfo \<Rightarrow> string list" where
  "jobPodKeys job = (case ParseIntoExternalJobInfo (ji_adminComment job) of
       None \<Rightarrow> [] | Some i \<Rightarrow> InfoPods i)"

section \<open>Allocation lookup\<close>

fun legacyLookup :: "'w cluster \<Rightarrow> string list \<Rightarrow> ('w, err + jobinfo list) handler" where
  "legacyLookup C [] = ret (Inr [])"
| "legacyLookup C (key # keys) = do {
     r \<leftarrow> doByIndex C LegacyPodJobIndex key;
     case r of
       Inl e \<Rightarrow> ret (Inl e)
     | Inr items \<Rightarrow> do {
         rest \<leftarrow> legacyLookup C keys;
         ret (rmap (append items) rest) } }"

fun indexCandidates :: "jobinfo list \<Rightarrow> int list \<Rightarrow> int \<Rightarrow> bool \<Rightarrow> RegisteredJob list
    \<Rightarrow> err + RegisteredJob list \<times> bool" where
  "indexCandidates [] seen leader conflict jobs = Inr (jobs, conflict)"
| "indexCandidates (c # cs) seen leader conflict jobs =
     rbind (jobErr (FromJobInfo (Some c))) (\<lambda>job.
       if JobId job \<in> set seen then indexCandidates cs seen leader conflict jobs
       else case ParseIntoExternalJobInfo (ji_adminComment c) of
         None \<Rightarrow> Inl (OtherErr ''admin comment'')
       | Some i \<Rightarrow>
           (let base = AllocationID job;
                conflict' = (conflict \<or> (\<not> Finished job \<and> leader \<noteq> 0 \<and> leader \<noteq> base));
                leader' = (if \<not> Finished job then base else leader)
            in indexCandidates cs (JobId job # seen) leader' conflict' (jobs @ [registered job i])))"

definition IndexedAllocation :: "'w cluster \<Rightarrow> AllocationIdentity
    \<Rightarrow> ('w, err option \<times> RegisteredJob list) handler" where
  "IndexedAllocation C identity = do {
     legacy \<leftarrow> legacyLookup C (legacyPodKeys identity);
     case legacy of
       Inl e \<Rightarrow> ret (Some e, [])
     | Inr legacyJobs \<Rightarrow> do {
         r \<leftarrow> doByIndex C (Index identity) (IKey identity);
         case r of
           Inl e \<Rightarrow> ret (Some e, [])
         | Inr cached \<Rightarrow> do {
             r' \<leftarrow> (if Index identity = PodJobIndex \<and> cached = [] \<and> ref_uid (ParsePodKey (IKey identity)) \<noteq> []
                   then doByIndex C PodJobIndex (ref_namespace (ParsePodKey (IKey identity)) @ ''/''
                          @ ref_name (ParsePodKey (IKey identity)))
                   else ret (Inr cached));
             case r' of
               Inl e \<Rightarrow> ret (Some e, [])
             | Inr items \<Rightarrow>
                 (case indexCandidates (items @ legacyJobs) [] 0 False [] of
                    Inl e \<Rightarrow> ret (Some e, [])
                  | Inr (jobs, conflict) \<Rightarrow>
                      ret (if conflict then Some AmbiguousAllocation else None, jobs)) } } }"

definition zeroJob :: ExternalJob where
  "zeroJob = \<lparr>JobId = 0, HetJobId = 0, HetJobOffset = 0, JobNodes = [], Pending = False,
     Held = False, Finished = False\<rparr>"

fun activeAllocation :: "RegisteredJob list \<Rightarrow> int \<Rightarrow> err + int" where
  "activeAllocation [] aid = Inr aid"
| "activeAllocation (j # js) aid =
     (if Finished j then activeAllocation js aid
      else if aid \<noteq> 0 \<and> aid \<noteq> AllocationID j then Inl AmbiguousAllocation
      else activeAllocation js (AllocationID j))"

text \<open>One component: \<open>Inr None\<close> ends the whole match as incomplete.\<close>

fun matchComponent :: "string \<Rightarrow> int \<Rightarrow> SlurmJobComponent \<Rightarrow> RegisteredJob list \<Rightarrow> ExternalJob
    \<Rightarrow> err + ExternalJob option" where
  "matchComponent root aid c [] found = Inr (Some found)"
| "matchComponent root aid c (j # js) found =
     (if AllocationID j \<noteq> aid then matchComponent root aid c js found
      else if root = ''CompositePodGroup'' \<and> PodGroup (info j) \<noteq> NewGroupIdentity (ObjectMeta c)
        then matchComponent root aid c js found
      else if root = ''PodGroup'' \<and> PodGroup (info j) = None \<and>
          list_ex (\<lambda>m. PodKey m \<notin> set (InfoPods (info j)) \<and> plainKey m \<notin> set (InfoPods (info j))) (Pods c)
        then Inr None
      else if JobId found \<noteq> 0 then Inl AmbiguousAllocation
      else matchComponent root aid c js (externalOf j))"

fun matchComponents :: "string \<Rightarrow> int \<Rightarrow> RegisteredJob list \<Rightarrow> SlurmJobComponent list
    \<Rightarrow> err + ExternalJob list option" where
  "matchComponents root aid jobs [] = Inr (Some [])"
| "matchComponents root aid jobs (c # cs) =
     rbind (matchComponent root aid c jobs zeroJob) (\<lambda>r. case r of
         None \<Rightarrow> Inr None
       | Some found \<Rightarrow> if JobId found = 0 then Inr None
           else rmap (map_option ((#) found)) (matchComponents root aid jobs cs))"

definition MatchAllocationComponents :: "SlurmJobIR \<Rightarrow> RegisteredJob list \<Rightarrow> err + ExternalJob list option" where
  "MatchAllocationComponents ir jobs = rbind (activeAllocation jobs 0) (\<lambda>aid.
     if aid = 0 then Inr None else matchComponents (om_kind (RootPOM ir)) aid jobs (Components ir))"

definition GetAllocation :: "'w cluster \<Rightarrow> pod \<Rightarrow> SlurmJobIR \<Rightarrow> ('w, err + ExternalJob list) handler" where
  "GetAllocation C p ir = (case IdentityForAllocation p ir of
       (identity, Some e) \<Rightarrow> ret (Inl e)
     | (identity, None) \<Rightarrow> do {
         r \<leftarrow> IndexedAllocation C identity;
         case r of
           (Some e, jobs) \<Rightarrow> ret (Inl e)
         | (None, jobs) \<Rightarrow>
             (case MatchAllocationComponents ir jobs of
                Inl e \<Rightarrow> ret (Inl e)
              | Inr None \<Rightarrow> ret (Inl AllocationMissing)
              | Inr (Some components) \<Rightarrow> ret (Inr components)) })"

section \<open>What a lookup guarantees\<close>

definition one_allocation :: "RegisteredJob list \<Rightarrow> bool" where
  "one_allocation jobs \<longleftrightarrow> (\<forall>a\<in>set jobs. \<forall>b\<in>set jobs.
     \<not> Finished a \<longrightarrow> \<not> Finished b \<longrightarrow> AllocationID a = AllocationID b)"

definition index_inv :: "int list \<Rightarrow> int \<Rightarrow> bool \<Rightarrow> RegisteredJob list \<Rightarrow> bool" where
  "index_inv seen leader conflict jobs \<longleftrightarrow>
     set seen = JobId ` set jobs \<and> distinct (map JobId jobs) \<and> (\<forall>j\<in>set jobs. job_ok (externalOf j)) \<and>
     (\<not> conflict \<longrightarrow> (\<forall>j\<in>set jobs. \<not> Finished j \<longrightarrow> AllocationID j = leader)) \<and>
     (leader \<noteq> 0 \<longrightarrow> (\<exists>j\<in>set jobs. \<not> Finished j \<and> AllocationID j = leader)) \<and>
     (leader = 0 \<longrightarrow> (\<forall>j\<in>set jobs. Finished j)) \<and>
     (conflict \<longrightarrow> \<not> one_allocation jobs)"

lemma one_allocation_append: "one_allocation (xs @ ys) \<Longrightarrow> one_allocation xs"
  by (simp add: one_allocation_def)

lemma index_inv_step:
  assumes inv: "index_inv seen leader conflict jobs" and job: "job_ok job" and new: "JobId job \<notin> set seen"
  shows "index_inv (JobId job # seen) (if \<not> Finished job then AllocationID job else leader)
    (conflict \<or> (\<not> Finished job \<and> leader \<noteq> 0 \<and> leader \<noteq> AllocationID job)) (jobs @ [registered job i])"
proof -
  let ?j = "registered job i"
  let ?clash = "\<not> Finished job \<and> leader \<noteq> 0 \<and> leader \<noteq> AllocationID job"
  have "\<not> one_allocation (jobs @ [?j])" if ?clash
  proof -
    from inv that obtain j where "j \<in> set jobs" "\<not> Finished j" "AllocationID j = leader"
      unfolding index_inv_def by blast
    with that show ?thesis by (auto simp: one_allocation_def)
  qed
  moreover have "\<not> one_allocation (jobs @ [?j])" if conflict
    using inv that one_allocation_append unfolding index_inv_def by blast
  moreover have "distinct (map JobId (jobs @ [?j]))"
    using inv new by (auto simp: index_inv_def)
  moreover have "AllocationID job > 0" using job by (rule AllocationID_pos)
  ultimately show ?thesis using inv job unfolding index_inv_def by auto
qed

lemma indexCandidates_inv:
  assumes "index_inv seen leader conflict jobs"
    and "indexCandidates cs seen leader conflict jobs = Inr (jobs', conflict')"
  shows "\<exists>seen' leader'. index_inv seen' leader' conflict' jobs'"
  using assms
proof (induction cs arbitrary: seen leader conflict jobs)
  case (Cons c cs)
  then obtain job where job: "FromJobInfo (Some c) = Inr job"
    by (auto simp: jobErr_def split: sum.splits)
  show ?case
  proof (cases "JobId job \<in> set seen")
    case True
    then show ?thesis using Cons job by (auto simp: jobErr_def)
  next
    case False
    with Cons.prems job obtain i where i: "ParseIntoExternalJobInfo (ji_adminComment c) = Some i"
      by (auto simp: jobErr_def split: option.splits)
    show ?thesis
      using Cons.IH [OF index_inv_step [OF Cons.prems(1) FromJobInfo_ok [OF job] False, of i]]
        Cons.prems(2) job False i
      by (simp add: jobErr_def Let_def)
  qed
qed auto

definition index_result :: "err option \<times> RegisteredJob list \<Rightarrow> bool" where
  "index_result r = (case r of (e, jobs) \<Rightarrow>
     distinct (map JobId jobs) \<and> (\<forall>j\<in>set jobs. job_ok (externalOf j)) \<and>
     (e = None \<longrightarrow> one_allocation jobs) \<and>
     (e \<noteq> None \<and> jobs \<noteq> [] \<longrightarrow> e = Some AmbiguousAllocation \<and> \<not> one_allocation jobs))"

lemma index_inv_result:
  "index_inv seen leader conflict jobs \<Longrightarrow>
    index_result (if conflict then Some AmbiguousAllocation else None, jobs)"
  by (auto simp: index_inv_def index_result_def one_allocation_def)

lemma index_result_error [simp]: "index_result (Some e, [])"
  by (simp add: index_result_def)

lemma indexCandidates_result:
  "indexCandidates cs [] 0 False [] = Inr (jobs, conflict) \<Longrightarrow>
    index_result (if conflict then Some AmbiguousAllocation else None, jobs)"
proof -
  assume r: "indexCandidates cs [] 0 False [] = Inr (jobs, conflict)"
  have "index_inv [] 0 False []" by (simp add: index_inv_def)
  from indexCandidates_inv [OF this r] show ?thesis using index_inv_result by blast
qed

lemma indexCandidates_results:
  "indexCandidates cs [] 0 False [] = Inr (jobs, True) \<Longrightarrow> index_result (Some AmbiguousAllocation, jobs)"
  "indexCandidates cs [] 0 False [] = Inr (jobs, False) \<Longrightarrow> index_result (None, jobs)"
  by (drule indexCandidates_result, simp)+

lemma IndexedAllocation_result: "wp (IndexedAllocation C identity) (\<lambda>r _. index_result r) s"
proof -
  show ?thesis
    unfolding IndexedAllocation_def wp_bind
    by (rule wp_total) (auto simp: call_defs split: sum.split intro!: wp_callI;
        metis indexCandidates_results)
qed

section \<open>What a match guarantees\<close>

definition component_job :: "string \<Rightarrow> int \<Rightarrow> SlurmJobComponent \<Rightarrow> RegisteredJob \<Rightarrow> bool" where
  "component_job root aid c j \<longleftrightarrow> AllocationID j = aid \<and>
     (root = ''CompositePodGroup'' \<longrightarrow> PodGroup (info j) = NewGroupIdentity (ObjectMeta c))"

definition covers_legacy :: "string \<Rightarrow> SlurmJobComponent \<Rightarrow> RegisteredJob \<Rightarrow> bool" where
  "covers_legacy root c j \<longleftrightarrow> (root = ''PodGroup'' \<and> PodGroup (info j) = None \<longrightarrow>
     (\<forall>m\<in>set (Pods c). PodKey m \<in> set (InfoPods (info j)) \<or> plainKey m \<in> set (InfoPods (info j))))"

lemma activeAllocation_spec:
  assumes "\<forall>j\<in>set jobs. 0 < AllocationID j" "0 \<le> aid" "activeAllocation jobs aid = Inr r"
  shows "(\<forall>j\<in>set jobs. \<not> Finished j \<longrightarrow> AllocationID j = r) \<and> (aid \<noteq> 0 \<longrightarrow> r = aid) \<and> 0 \<le> r \<and>
    (r \<noteq> aid \<longrightarrow> (\<exists>j\<in>set jobs. \<not> Finished j))"
  using assms
proof (induction jobs aid rule: activeAllocation.induct)
  case (2 j js aid)
  have pos: "\<forall>j\<in>set js. 0 < AllocationID j" "0 < AllocationID j" using "2.prems"(1) by simp_all
  show ?case
  proof (cases "Finished j")
    case True
    then show ?thesis using "2.IH"(1) [OF True pos(1)] "2.prems"(2,3) by simp
  next
    case False
    then have a: "aid = 0 \<or> aid = AllocationID j" "activeAllocation js (AllocationID j) = Inr r"
      using "2.prems"(3) by (auto split: if_splits)
    then have "\<not> (aid \<noteq> 0 \<and> aid \<noteq> AllocationID j)" by simp
    from "2.IH"(2) [OF False this pos(1) _ a(2)] pos(2) a(1) False show ?thesis by auto
  qed
qed simp

lemma matchComponent_taken:
  assumes "JobId found \<noteq> 0" "matchComponent root aid c js found = Inr (Some f)"
  shows "f = found \<and> filter (component_job root aid c) js = []"
  using assms
  by (induction root aid c js found rule: matchComponent.induct)
    (auto simp: component_job_def split: if_splits)

lemma matchComponent_spec:
  assumes "\<forall>j\<in>set js. JobId j \<noteq> 0" "JobId found = 0" "JobId f \<noteq> 0"
    "matchComponent root aid c js found = Inr (Some f)"
  shows "\<exists>j. filter (component_job root aid c) js = [j] \<and> f = externalOf j \<and> covers_legacy root c j"
  using assms
proof (induction root aid c js found rule: matchComponent.induct)
  case (2 root aid c j js found)
  show ?case
  proof (cases "component_job root aid c j")
    case True
    with "2.prems" have cov: "covers_legacy root c j"
      and m: "matchComponent root aid c js (externalOf j) = Inr (Some f)"
      by (auto simp: component_job_def covers_legacy_def list_ex_iff split: if_splits)
    have "JobId (externalOf j) \<noteq> 0" using "2.prems"(1) by simp
    from matchComponent_taken [OF this m] True cov show ?thesis by auto
  next
    case False
    then have "matchComponent root aid c js found = Inr (Some f)"
      using "2.prems"(4) by (auto simp: component_job_def split: if_splits)
    with 2 False show ?thesis by (auto simp: component_job_def split: if_splits)
  qed
qed auto

lemma matchComponents_spec:
  assumes "\<forall>j\<in>set jobs. JobId j \<noteq> 0" "matchComponents root aid jobs cs = Inr (Some comps)"
  shows "list_all2 (\<lambda>c e. \<exists>j. filter (component_job root aid c) jobs = [j] \<and> e = externalOf j
    \<and> covers_legacy root c j) cs comps"
  using assms(2)
proof (induction cs arbitrary: comps)
  case (Cons c cs)
  then obtain f where f: "matchComponent root aid c jobs zeroJob = Inr (Some f)" "JobId f \<noteq> 0"
    by (auto simp: rbind_eq_Inr split: option.splits if_splits)
  then obtain rest where r: "matchComponents root aid jobs cs = Inr (Some rest)" "comps = f # rest"
    using Cons.prems by (auto simp: rmap_eq_Inr)
  show ?case using matchComponent_spec [OF assms(1) _ f(2) f(1)] Cons.IH [OF r(1)] r(2)
    by (simp add: zeroJob_def)
qed simp

text \<open>
  C9.  Component matching never mixes allocations: when MatchAllocationComponents reports a
  complete allocation, every active job handed to it belongs to that one allocation and at least
  one is active; there is exactly one result per component of the workload; each result is the
  only recorded job of that allocation that fits its component (for a composite group, the job
  that recorded the component's own group); and a legacy record without group identity is used
  only when it names every Pod of the component.
\<close>

theorem MatchAllocationComponents_sound:
  assumes "\<forall>j\<in>set jobs. job_ok (externalOf j)"
    and "MatchAllocationComponents ir jobs = Inr (Some comps)"
  shows "\<exists>aid > 0. (\<forall>j\<in>set jobs. \<not> Finished j \<longrightarrow> AllocationID j = aid) \<and>
    (\<exists>j\<in>set jobs. \<not> Finished j) \<and>
    list_all2 (\<lambda>c e. \<exists>j. filter (component_job (om_kind (RootPOM ir)) aid c) jobs = [j]
      \<and> e = externalOf j \<and> covers_legacy (om_kind (RootPOM ir)) c j) (Components ir) comps"
proof -
  from assms(2) obtain aid where a: "activeAllocation jobs 0 = Inr aid" "aid \<noteq> 0"
    and m: "matchComponents (om_kind (RootPOM ir)) aid jobs (Components ir) = Inr (Some comps)"
    by (auto simp: MatchAllocationComponents_def rbind_eq_Inr split: if_splits)
  have pos: "\<forall>j\<in>set jobs. 0 < AllocationID j" using assms(1) AllocationID_pos by fastforce
  have "\<forall>j\<in>set jobs. JobId j \<noteq> 0" using assms(1) by (force simp: job_ok_def)
  from matchComponents_spec [OF this m] activeAllocation_spec [OF pos _ a(1)] a(2)
  show ?thesis by (intro exI [of _ aid]) simp
qed

definition sample_job :: "int \<Rightarrow> RegisteredJob" where
  "sample_job n = registered (zeroJob\<lparr>JobId := n, Pending := True, Held := True\<rparr>)
     \<lparr>InfoPods = [''ns/a/u1''], PodGroup = None, CompositePodGroup = None\<rparr>"

theorem MatchAllocationComponents_sound_witness:
  "\<exists>aid > 0. (\<forall>j\<in>set [sample_job 7]. \<not> Finished j \<longrightarrow> AllocationID j = aid) \<and>
    (\<exists>j\<in>set [sample_job 7]. \<not> Finished j) \<and>
    list_all2 (\<lambda>c e. \<exists>j. filter (component_job (om_kind (RootPOM sample_ir)) aid c) [sample_job 7] = [j]
      \<and> e = externalOf j \<and> covers_legacy (om_kind (RootPOM sample_ir)) c j)
      (Components sample_ir) [externalOf (sample_job 7)]"
proof (rule MatchAllocationComponents_sound)
  show "\<forall>j\<in>set [sample_job 7]. job_ok (externalOf j)"
    by (simp add: sample_job_def job_ok_def zeroJob_def)
  show "MatchAllocationComponents sample_ir [sample_job 7] = Inr (Some [externalOf (sample_job 7)])"
    by (simp add: MatchAllocationComponents_def sample_ir_def sample_meta_def sample_job_def
        AllocationID_def zeroJob_def)
qed

text \<open>
  C7.  A scheduling lookup returns one live allocation or an error: whatever the informer answers,
  when GetAllocation succeeds there is one result per component of the workload and all of them
  carry the same positive allocation ID, with valid job and heterogeneous identifiers; Pod labels
  play no part.
\<close>

theorem GetAllocation_single:
  "wp (GetAllocation C p ir) (\<lambda>r _. \<forall>comps. r = Inr comps \<longrightarrow>
      length comps = length (Components ir) \<and>
      (\<exists>aid > 0. \<forall>e\<in>set comps. job_ok e \<and> AllocationID e = aid)) s"
proof (cases "IdentityForAllocation p ir")
  case (Pair identity e)
  have main: "length comps = length (Components ir) \<and> (\<exists>aid > 0. \<forall>e\<in>set comps. job_ok e \<and> AllocationID e = aid)"
    if r: "index_result (None, jobs)" and m: "MatchAllocationComponents ir jobs = Inr (Some comps)" for jobs comps
  proof -
    have ok: "\<forall>j\<in>set jobs. job_ok (externalOf j)" using r by (simp add: index_result_def)
    from m obtain aid where a: "activeAllocation jobs 0 = Inr aid" "aid \<noteq> 0"
      and ms: "matchComponents (om_kind (RootPOM ir)) aid jobs (Components ir) = Inr (Some comps)"
      by (auto simp: MatchAllocationComponents_def rbind_eq_Inr split: if_splits)
    have pos: "\<forall>j\<in>set jobs. 0 < AllocationID j" using ok AllocationID_pos by fastforce
    have aid: "0 < aid" using activeAllocation_spec [OF pos _ a(1)] a(2) by simp
    have "\<forall>j\<in>set jobs. JobId j \<noteq> 0" using ok by (force simp: job_ok_def)
    note l = matchComponents_spec [OF this ms]
    have each: "job_ok e \<and> AllocationID e = aid" if e: "e \<in> set comps" for e
    proof -
      from l e obtain c j where f: "filter (component_job (om_kind (RootPOM ir)) aid c) jobs = [j]"
        "e = externalOf j" by (auto simp: list_all2_conv_all_nth in_set_conv_nth)
      then have "j \<in> set (filter (component_job (om_kind (RootPOM ir)) aid c) jobs)" by simp
      then show ?thesis using f(2) ok by (auto simp: component_job_def)
    qed
    show ?thesis using list_all2_lengthD [OF l] each aid by auto
  qed
  show ?thesis
  proof (cases e)
    case None
    have "wp (IndexedAllocation C identity) (\<lambda>r _. index_result r) s" by (rule IndexedAllocation_result)
    then show ?thesis unfolding GetAllocation_def Pair None prod.case option.case wp_bind
      by (rule wp_mono) (auto split: prod.splits option.splits sum.splits dest: main)
  qed (simp add: GetAllocation_def Pair)
qed

definition one_alloc :: "unit cluster" where
  "one_alloc = no_objects\<lparr>slurmByIndex := (\<lambda>i k w. (Inr [held_job], w))\<rparr>"

theorem GetAllocation_single_witness:
  "\<exists>e t. run_state (GetAllocation one_alloc (empty_pod\<lparr>namespace := ''ns'', pname := ''a'', uid := ''u1''\<rparr>)
        sample_ir) start = (Inr [e], t) \<and> (\<exists>aid > 0. job_ok e \<and> AllocationID e = aid)"
proof -
  let ?p = "empty_pod\<lparr>namespace := ''ns'', pname := ''a'', uid := ''u1''\<rparr>"
  let ?e = "zeroJob\<lparr>JobId := 7, Pending := True, Held := True\<rparr>"
  let ?t = "\<lparr>world = (), trace = [EvByIndex PodJobIndex (PodKey ?p) (Inr [held_job])]\<rparr>"
  have dec: "FromJobInfo (Some held_job) = Inr ?e" by code_simp
  have own: "ParseIntoExternalJobInfo (ji_adminComment held_job) =
      Some \<lparr>InfoPods = [''ns/a/u1''], PodGroup = None, CompositePodGroup = None\<rparr>" by code_simp
  have id: "IdentityForAllocation ?p sample_ir = (podAllocationIdentity ?p, None)"
    by (simp add: IdentityForAllocation_def NewGroupIdentity_def sample_ir_def sample_meta_def)
  have idx: "indexCandidates [held_job] [] 0 False [] = Inr ([sample_job 7], False)"
    by (simp add: jobErr_def dec own sample_job_def Let_def zeroJob_def)
  have match: "MatchAllocationComponents sample_ir [sample_job 7] = Inr (Some [?e])"
    by (simp add: MatchAllocationComponents_def sample_ir_def sample_meta_def sample_job_def
        AllocationID_def zeroJob_def)
  have run: "run_state (GetAllocation one_alloc ?p sample_ir) start = (Inr [?e], ?t)"
    using idx match
    by (simp add: GetAllocation_def id IndexedAllocation_def podAllocationIdentity_def call_defs call_def
        State_Monad.bind_def State_Monad.return_def start_def one_alloc_def)
  have "\<exists>aid > 0. \<forall>e\<in>set [?e]. job_ok e \<and> AllocationID e = aid"
    using GetAllocation_single [of one_alloc ?p sample_ir start] run by (auto simp: wp_def)
  then show ?thesis using run by auto
qed

end
