(* ===== verification/Pod_Metadata.thy ===== *)
theory Pod_Metadata
  imports Slurm_Job
begin

text \<open>
  \<open>internal/utils/slurmjob\<close>, the Pod side: finding the Slurm jobs that claim a Pod
  (\<open>index.go\<close>) and repairing the Pod's job labels, finalizer and placement annotation
  (\<open>metadata.go\<close>).  Expanding a Slurm host list is third-party code and a parameter.
\<close>

section \<open>Metadata repair\<close>

definition validateIDLabel :: "int \<Rightarrow> string \<Rightarrow> pod \<Rightarrow> pod \<Rightarrow> pod" where
  "validateIDLabel i lbl p new =
     (if i > 0 then
        (if ParseSlurmJobId (label p lbl) \<noteq> i
         then new\<lparr>labels := AList.update lbl (show_int i) (labels new)\<rparr> else new)
      else if map_of (labels p) lbl \<noteq> None
        then new\<lparr>labels := AList.delete lbl (labels new)\<rparr> else new)"

definition PodWithMetadata :: "(string \<Rightarrow> string list) \<Rightarrow> pod \<Rightarrow> ExternalJob \<Rightarrow> bool \<Rightarrow> pod" where
  "PodWithMetadata expand p job adopt =
     (let hasJobID = (label p LabelExternalJobId \<noteq> []);
          t1 = (if (hasJobID \<or> adopt) \<and> \<not> Finished job then
             (let a = validateIDLabel (JobId job) LabelExternalJobId p p;
                  b = validateIDLabel (HetJobId job) LabelExternalHetJobId p a;
                  c = (if HetJobId job > 0 \<and> HetJobOffset job \<ge> 0
                       then b\<lparr>labels := AList.update LabelExternalHetJobOffset (show_int (HetJobOffset job)) (labels b)\<rparr>
                       else b\<lparr>labels := AList.delete LabelExternalHetJobOffset (labels b)\<rparr>)
              in if \<not> deleting p \<and> \<not> terminal p \<and> FinalizerScheduler \<notin> set (finalizers c)
                 then c\<lparr>finalizers := finalizers c @ [FinalizerScheduler]\<rparr> else c)
             else p);
          nodes = expand (JobNodes job)
      in if nodeName p = [] \<and> annotation p AnnotationExternalJobNode \<noteq> [] \<and>
            (Finished job \<or> (\<not> Pending job \<and> annotation p AnnotationExternalJobNode \<notin> set nodes))
         then t1\<lparr>annotations := AList.update AnnotationExternalJobNode [] (annotations t1)\<rparr>
         else t1)"

text \<open>The label part alone, as a function on the label map.\<close>

definition fixLabel :: "int \<Rightarrow> string \<Rightarrow> strmap \<Rightarrow> strmap" where
  "fixLabel i lbl m =
     (if i > 0 then
        (if ParseSlurmJobId (get_or [] m lbl) \<noteq> i then AList.update lbl (show_int i) m else m)
      else if map_of m lbl \<noteq> None then AList.delete lbl m else m)"

definition fixLabels :: "ExternalJob \<Rightarrow> strmap \<Rightarrow> strmap" where
  "fixLabels job m =
     (let b = fixLabel (HetJobId job) LabelExternalHetJobId (fixLabel (JobId job) LabelExternalJobId m)
      in if HetJobId job > 0 \<and> HetJobOffset job \<ge> 0
         then AList.update LabelExternalHetJobOffset (show_int (HetJobOffset job)) b
         else AList.delete LabelExternalHetJobOffset b)"

lemma fixLabel_other [simp]: "k \<noteq> lbl \<Longrightarrow> map_of (fixLabel i lbl m) k = map_of m k"
  by (simp add: fixLabel_def)

lemma fixLabel_get_other [simp]: "k \<noteq> lbl \<Longrightarrow> get_or d (fixLabel i lbl m) k = get_or d m k"
  by (simp add: get_or_def)

lemma validateIDLabel_labels:
  "map_of (labels new) lbl = map_of (labels p) lbl \<Longrightarrow>
    validateIDLabel i lbl p new = new\<lparr>labels := fixLabel i lbl (labels new)\<rparr>"
  by (simp add: validateIDLabel_def fixLabel_def label_def get_or_def)

lemma PodWithMetadata_fixLabels:
  "PodWithMetadata expand p job adopt =
    (let t1 = (if (label p LabelExternalJobId \<noteq> [] \<or> adopt) \<and> \<not> Finished job
           then p\<lparr>labels := fixLabels job (labels p),
                  finalizers := (if \<not> deleting p \<and> \<not> terminal p \<and> FinalizerScheduler \<notin> set (finalizers p)
                    then finalizers p @ [FinalizerScheduler] else finalizers p)\<rparr>
           else p)
     in if nodeName p = [] \<and> annotation p AnnotationExternalJobNode \<noteq> [] \<and>
           (Finished job \<or> (\<not> Pending job \<and> annotation p AnnotationExternalJobNode \<notin> set (expand (JobNodes job))))
        then t1\<lparr>annotations := AList.update AnnotationExternalJobNode [] (annotations t1)\<rparr>
        else t1)"
proof -
  have a: "validateIDLabel (JobId job) LabelExternalJobId p p =
      p\<lparr>labels := fixLabel (JobId job) LabelExternalJobId (labels p)\<rparr>"
    by (rule validateIDLabel_labels) simp
  have b: "validateIDLabel (HetJobId job) LabelExternalHetJobId p
        (p\<lparr>labels := fixLabel (JobId job) LabelExternalJobId (labels p)\<rparr>) =
      p\<lparr>labels := fixLabel (HetJobId job) LabelExternalHetJobId
        (fixLabel (JobId job) LabelExternalJobId (labels p))\<rparr>"
    by (subst validateIDLabel_labels) simp_all
  let ?B = "p\<lparr>labels := fixLabel (HetJobId job) LabelExternalHetJobId
        (fixLabel (JobId job) LabelExternalJobId (labels p))\<rparr>"
  let ?L = "p\<lparr>labels := fixLabels job (labels p)\<rparr>"
  have c: "(if HetJobId job > 0 \<and> HetJobOffset job \<ge> 0
       then ?B\<lparr>labels := AList.update LabelExternalHetJobOffset (show_int (HetJobOffset job)) (labels ?B)\<rparr>
       else ?B\<lparr>labels := AList.delete LabelExternalHetJobOffset (labels ?B)\<rparr>) = ?L"
  proof (cases "HetJobId job > 0 \<and> HetJobOffset job \<ge> 0")
    case True
    show ?thesis by (simp only: fixLabels_def Let_def True if_True) simp
  next
    case False
    show ?thesis by (simp only: fixLabels_def Let_def False if_False) simp
  qed
  have f: "(if \<not> deleting p \<and> \<not> terminal p \<and> FinalizerScheduler \<notin> set (finalizers ?L)
       then ?L\<lparr>finalizers := finalizers ?L @ [FinalizerScheduler]\<rparr> else ?L) =
      p\<lparr>labels := fixLabels job (labels p),
        finalizers := (if \<not> deleting p \<and> \<not> terminal p \<and> FinalizerScheduler \<notin> set (finalizers p)
          then finalizers p @ [FinalizerScheduler] else finalizers p)\<rparr>"
    by (cases "\<not> deleting p \<and> \<not> terminal p \<and> FinalizerScheduler \<notin> set (finalizers p)") simp_all
  show ?thesis unfolding PodWithMetadata_def Let_def a b c f ..
qed

lemma gomap_delete_absent: "map_of m k = None \<Longrightarrow> AList.delete k m = m"
  by (induction m) (auto split: if_splits)

definition id_ok :: "ExternalJob \<Rightarrow> bool" where
  "id_ok job \<longleftrightarrow> 0 < JobId job \<and> JobId job \<le> max_int32 \<and> 0 \<le> HetJobId job \<and> HetJobId job \<le> max_int32 \<and>
     0 \<le> HetJobOffset job \<and> HetJobOffset job \<le> max_int32"

lemma fixLabel_id:
  assumes "0 < i" "i \<le> max_int32"
  shows "ParseSlurmJobId (get_or [] (fixLabel i lbl m) lbl) = i"
  using assms ParseSlurmJobId_show [of i] by (simp add: fixLabel_def)

lemma fixLabel_idem: "i \<le> max_int32 \<Longrightarrow> fixLabel i lbl (fixLabel i lbl m) = fixLabel i lbl m"
  using fixLabel_id [of i lbl m] by (simp add: fixLabel_def [of i lbl "fixLabel i lbl m"]) (simp add: fixLabel_def)

lemma fixLabel_fixed: "0 < i \<Longrightarrow> ParseSlurmJobId (get_or [] m lbl) = i \<Longrightarrow> fixLabel i lbl m = m"
  by (simp add: fixLabel_def)

lemma fixLabel_absent: "\<not> 0 < i \<Longrightarrow> map_of m lbl = None \<Longrightarrow> fixLabel i lbl m = m"
  by (simp add: fixLabel_def)

lemma fixLabel_removed: "\<not> 0 < i \<Longrightarrow> map_of (fixLabel i lbl m) lbl = None"
  by (auto simp: fixLabel_def)

lemma get_or_delete [simp]: "get_or d (AList.delete k m) k' = (if k' = k then d else get_or d m k')"
  by (simp add: get_or_def)

lemma fixLabels_ids:
  assumes "id_ok job"
  shows "ParseSlurmJobId (get_or [] (fixLabels job m) LabelExternalJobId) = JobId job"
    and "HetJobId job > 0 \<Longrightarrow> ParseSlurmJobId (get_or [] (fixLabels job m) LabelExternalHetJobId) = HetJobId job"
    and "HetJobId job = 0 \<Longrightarrow> map_of (fixLabels job m) LabelExternalHetJobId = None"
    and "HetJobId job = 0 \<Longrightarrow> map_of (fixLabels job m) LabelExternalHetJobOffset = None"
    and "HetJobId job > 0 \<Longrightarrow> ParseSlurmJobId (get_or [] (fixLabels job m) LabelExternalHetJobOffset) = HetJobOffset job"
  using assms fixLabel_id [of "JobId job" LabelExternalJobId m]
    fixLabel_id [of "HetJobId job" LabelExternalHetJobId] fixLabel_removed [of "HetJobId job" LabelExternalHetJobId]
    ParseSlurmJobId_show [of "HetJobOffset job"]
  by (simp_all add: fixLabels_def id_ok_def Let_def)

lemma fixLabels_idem:
  assumes "id_ok job" shows "fixLabels job (fixLabels job m) = fixLabels job m"
proof -
  let ?m = "fixLabels job m"
  have j: "fixLabel (JobId job) LabelExternalJobId ?m = ?m"
    using fixLabels_ids(1) [OF assms] assms by (intro fixLabel_fixed) (auto simp: id_ok_def)
  have h: "fixLabel (HetJobId job) LabelExternalHetJobId ?m = ?m"
    using fixLabels_ids(2,3) [OF assms, of m] assms fixLabel_fixed fixLabel_absent
    by (cases "HetJobId job > 0") (auto simp: id_ok_def)
  show ?thesis
  proof (cases "HetJobId job > 0")
    case True
    have "map_of ?m LabelExternalHetJobOffset = Some (show_int (HetJobOffset job))"
      using True assms by (simp add: fixLabels_def id_ok_def Let_def)
    then show ?thesis using True assms j h
      by (simp add: fixLabels_def [of job ?m] id_ok_def gomap_update_same)
  next
    case False
    then have "map_of ?m LabelExternalHetJobOffset = None" using fixLabels_ids(4) [OF assms] assms
      by (simp add: id_ok_def)
    then have "AList.delete LabelExternalHetJobOffset ?m = ?m"
      by (rule gomap_delete_absent)
    then show ?thesis using False j h by (simp add: fixLabels_def [of job ?m])
  qed
qed


definition bound_job :: ExternalJob where
  "bound_job = \<lparr>JobId = 42, HetJobId = 40, HetJobOffset = 1, JobNodes = ''n1'', Pending = False,
     Held = False, Finished = False\<rparr>"


section \<open>Jobs of a Pod\<close>

type_synonym podJobs = "(string, ExternalJob) gomap"

definition JobForPod :: "podJobs \<Rightarrow> pod \<Rightarrow> ExternalJob option" where
  "JobForPod jobs p = (case map_of jobs (PodKey p) of
     Some job \<Rightarrow> Some job | None \<Rightarrow> map_of jobs (plainKey p))"

text \<open>The scan of one Pod's index entries: the active candidate, the finished one, their counts.\<close>

fun scanJobs :: "int \<Rightarrow> jobinfo list \<Rightarrow> ExternalJob \<times> nat \<times> ExternalJob \<times> nat
    \<Rightarrow> ExternalJob \<times> nat \<times> ExternalJob \<times> nat" where
  "scanJobs jobID [] acc = acc"
| "scanJobs jobID (raw # raws) (cand, matches, fin, finMatches) =
     (case FromJobInfo (Some raw) of
        Inl _ \<Rightarrow> scanJobs jobID raws (cand, matches, fin, finMatches)
      | Inr job \<Rightarrow>
          if Finished job
          then scanJobs jobID raws (cand, matches,
                 (if JobId fin = 0 \<or> JobId job = jobID then job else fin), Suc finMatches)
          else scanJobs jobID raws (job, Suc matches, fin, finMatches))"

definition chooseJob :: "int \<Rightarrow> jobinfo list \<Rightarrow> ExternalJob option" where
  "chooseJob jobID raws = (case scanJobs jobID raws (zeroJob, 0, zeroJob, 0) of
     (cand, matches, fin, finMatches) \<Rightarrow>
       if matches = 1 then Some cand
       else if matches = 0 \<and> (finMatches = 1 \<or> (JobId fin = jobID \<and> jobID > 0)) then Some fin
       else None)"

fun GetJobsForPods :: "'w cluster \<Rightarrow> pod list \<Rightarrow> podJobs \<Rightarrow> ('w, err + podJobs) handler" where
  "GetJobsForPods C [] m = ret (Inr m)"
| "GetJobsForPods C (p # ps) m = do {
     r \<leftarrow> doByIndex C PodJobIndex (PodKey p);
     case r of
       Inl e \<Rightarrow> ret (Inl e)
     | Inr raws \<Rightarrow> do {
         r' \<leftarrow> (if raws = [] \<and> uid p \<noteq> [] then doByIndex C PodJobIndex (plainKey p) else ret (Inr raws));
         case r' of
           Inl e \<Rightarrow> ret (Inl e)
         | Inr raws' \<Rightarrow>
             GetJobsForPods C ps
               (case chooseJob (ParseSlurmJobId (label p LabelExternalJobId)) raws' of
                  None \<Rightarrow> m | Some job \<Rightarrow> AList.update (PodKey p) job m) } }"

type_synonym liveJobs = "(int, jobinfo option) gomap"

definition readJob :: "'w cluster \<Rightarrow> int \<Rightarrow> liveJobs \<Rightarrow> ('w, err + jobinfo option \<times> liveJobs) handler" where
  "readJob C i live = (case map_of live i of
       Some job \<Rightarrow> ret (Inr (job, live))
     | None \<Rightarrow> do {
         r \<leftarrow> doSlurmGet C SkipCache (show_int i);
         case r of
           Inl e \<Rightarrow> if err_is SlurmNotFound e then ret (Inr (None, AList.update i None live)) else ret (Inl e)
         | Inr job \<Rightarrow> ret (Inr (Some job, AList.update i (Some job) live)) })"

definition verifyCandidate :: "'w cluster \<Rightarrow> pod \<Rightarrow> int \<Rightarrow> liveJobs \<Rightarrow> podJobs
    \<Rightarrow> ('w, err + liveJobs \<times> podJobs) handler" where
  "verifyCandidate C p candidateID live m = do {
     r \<leftarrow> readJob C candidateID live;
     case r of
       Inl e \<Rightarrow> ret (Inl e)
     | Inr (None, live) \<Rightarrow> ret (Inr (live, m))
     | Inr (Some job, live) \<Rightarrow>
         (if PodKey p \<notin> set (jobPodKeys job) \<and> plainKey p \<notin> set (jobPodKeys job)
          then ret (Inr (live, m))
          else case FromJobInfo (Some job) of
            Inl _ \<Rightarrow> ret (Inr (live, m))
          | Inr extJob \<Rightarrow>
              if JobId extJob \<noteq> candidateID then ret (Inr (live, m))
              else ret (Inr (live, AList.update (PodKey p) extJob m))) }"

fun VerifyJobsForPods :: "'w cluster \<Rightarrow> podJobs \<Rightarrow> pod list \<Rightarrow> liveJobs \<Rightarrow> podJobs
    \<Rightarrow> ('w, err + podJobs) handler" where
  "VerifyJobsForPods C candidates [] live m = ret (Inr m)"
| "VerifyJobsForPods C candidates (p # ps) live m =
     (case JobForPod candidates p of
        None \<Rightarrow> VerifyJobsForPods C candidates ps live m
      | Some candidate \<Rightarrow>
          let jobID = ParseSlurmJobId (label p LabelExternalJobId) in
          (if jobID > 0 \<and> JobId candidate \<noteq> jobID then do {
             r \<leftarrow> readJob C jobID live;
             case r of
               Inl e \<Rightarrow> ret (Inl e)
             | Inr (labeled, live) \<Rightarrow>
                 (if (case labeled of None \<Rightarrow> False
                      | Some l \<Rightarrow> deref 0 (ji_jobId l) \<noteq> jobID \<or> \<not> isFinishedJob l)
                  then VerifyJobsForPods C candidates ps live m
                  else do {
                    v \<leftarrow> verifyCandidate C p (JobId candidate) live m;
                    case v of Inl e \<Rightarrow> ret (Inl e)
                    | Inr (live, m) \<Rightarrow> VerifyJobsForPods C candidates ps live m }) }
           else do {
             v \<leftarrow> verifyCandidate C p (JobId candidate) live m;
             case v of Inl e \<Rightarrow> ret (Inl e)
             | Inr (live, m) \<Rightarrow> VerifyJobsForPods C candidates ps live m }))"

text \<open>
  A verified entry has its evidence in the trace: a live read of the job in this run, whose record
  names the Pod and decodes to the entry.
\<close>

definition live_read :: "event list \<Rightarrow> int \<Rightarrow> jobinfo \<Rightarrow> bool" where
  "live_read tr i raw \<longleftrightarrow> EvSlurmGet SkipCache (show_int i) (Inr raw) \<in> set tr"

definition live_ok :: "event list \<Rightarrow> liveJobs \<Rightarrow> bool" where
  "live_ok tr live \<longleftrightarrow> (\<forall>i raw. map_of live i = Some (Some raw) \<longrightarrow> live_read tr i raw)"

definition owns :: "jobinfo \<Rightarrow> pod \<Rightarrow> bool" where
  "owns raw p \<longleftrightarrow> PodKey p \<in> set (jobPodKeys raw) \<or> plainKey p \<in> set (jobPodKeys raw)"

definition verified_ok :: "event list \<Rightarrow> pod list \<Rightarrow> podJobs \<Rightarrow> bool" where
  "verified_ok tr ps m \<longleftrightarrow> (\<forall>k job. map_of m k = Some job \<longrightarrow>
     (\<exists>p raw. p \<in> set ps \<and> k = PodKey p \<and> live_read tr (JobId job) raw \<and> owns raw p \<and>
        FromJobInfo (Some raw) = Inr job))"

lemma live_read_mono [simp]: "live_read tr i raw \<Longrightarrow> live_read (tr @ es) i raw"
  by (simp add: live_read_def)

lemma live_ok_mono: "live_ok tr live \<Longrightarrow> live_ok (tr @ es) live"
  by (simp add: live_ok_def)

lemma verified_ok_mono: "verified_ok tr ps m \<Longrightarrow> verified_ok (tr @ es) ps m"
  unfolding verified_ok_def using live_read_mono by blast

lemma readJob_spec:
  assumes "live_ok (trace s) live" "verified_ok (trace s) ps m"
  shows "wp (readJob C i live) (\<lambda>r t. verified_ok (trace t) ps m \<and>
    (\<forall>job live'. r = Inr (job, live') \<longrightarrow> live_ok (trace t) live' \<and>
       (\<forall>raw. job = Some raw \<longrightarrow> live_read (trace t) i raw))) s"
proof (cases "map_of live i")
  case None
  have e: "live_ok (trace s @ es) live" "verified_ok (trace s @ es) ps m" for es
    using assms live_ok_mono verified_ok_mono by blast+
  have l: "\<forall>i raw. map_of live i = Some (Some raw) \<longrightarrow> EvSlurmGet SkipCache (show_int i) (Inr raw) \<in> set (trace s)"
    using assms(1) by (simp add: live_ok_def live_read_def)
  show ?thesis using None l e(2) unfolding readJob_def
    by (auto simp: call_defs live_ok_def live_read_def intro!: wp_callI split: sum.splits)
next
  case (Some job)
  then show ?thesis using assms by (auto simp: readJob_def live_ok_def)
qed

lemma verified_ok_update:
  assumes "verified_ok tr ps m" "p \<in> set ps" "live_read tr (JobId job) raw" "owns raw p"
    "FromJobInfo (Some raw) = Inr job"
  shows "verified_ok tr ps (AList.update (PodKey p) job m)"
  using assms unfolding verified_ok_def by (auto split: if_splits)

lemma verifyCandidate_spec:
  assumes "live_ok (trace s) live" "verified_ok (trace s) ps m" "p \<in> set ps"
  shows "wp (verifyCandidate C p cid live m) (\<lambda>r t. \<forall>live' m'. r = Inr (live', m') \<longrightarrow>
    live_ok (trace t) live' \<and> verified_ok (trace t) ps m') s"
  unfolding verifyCandidate_def wp_bind
  by (rule wp_mono [OF readJob_spec [OF assms(1,2)]])
    (auto split: sum.splits option.splits intro!: verified_ok_update assms(3) simp: owns_def)

lemma VerifyJobsForPods_spec:
  assumes "live_ok (trace s) live" "verified_ok (trace s) qs m" "set ps \<subseteq> set qs"
  shows "wp (VerifyJobsForPods C candidates ps live m)
    (\<lambda>r t. \<forall>m'. r = Inr m' \<longrightarrow> verified_ok (trace t) qs m') s"
  using assms
proof (induction ps arbitrary: live m s)
  case (Cons p ps)
  have p: "p \<in> set qs" and sub: "set ps \<subseteq> set qs" using Cons.prems(3) by auto
  let ?Q = "\<lambda>r t. \<forall>m'. r = Inr m' \<longrightarrow> verified_ok (trace t) qs m'"
  have tail: "wp (VerifyJobsForPods C candidates ps live m) ?Q s"
    if "live_ok (trace s) live" "verified_ok (trace s) qs m" for live m s
    using Cons.IH that sub by blast
  have cand: "wp (do { v \<leftarrow> verifyCandidate C p i live m;
        case v of Inl e \<Rightarrow> ret (Inl e)
        | Inr (live, m) \<Rightarrow> VerifyJobsForPods C candidates ps live m }) ?Q s"
    if "live_ok (trace s) live" "verified_ok (trace s) qs m" for i live m s
    unfolding wp_bind
    by (rule wp_mono [OF verifyCandidate_spec [OF that p]]) (auto split: sum.splits intro!: tail)
  have labeled: "wp (readJob C j live) (\<lambda>r. wp (case r of
        Inl e \<Rightarrow> ret (Inl e)
      | Inr (labeled, live) \<Rightarrow>
          (if (case labeled of None \<Rightarrow> False
               | Some l \<Rightarrow> deref 0 (ji_jobId l) \<noteq> j \<or> \<not> isFinishedJob l)
           then VerifyJobsForPods C candidates ps live m
           else do {
             v \<leftarrow> verifyCandidate C p i live m;
             case v of Inl e \<Rightarrow> ret (Inl e)
             | Inr (live, m) \<Rightarrow> VerifyJobsForPods C candidates ps live m })) ?Q) s" for i j
    by (rule wp_mono [OF readJob_spec [OF Cons.prems(1,2)]])
      (auto simp del: wp_bind split: sum.splits intro!: tail cand)
  show ?case
  proof (cases "JobForPod candidates p")
    case None
    then show ?thesis using tail Cons.prems by simp
  next
    case (Some candidate)
    then show ?thesis
      using labeled cand Cons.prems(1,2) by (simp add: Let_def)
  qed
qed simp

text \<open>
  C8.  A Pod is linked to a job only on live evidence: every entry that VerifyJobsForPods returns
  belongs to one of the given Pods, and this run read that job directly from Slurm (bypassing the
  cache), the record read names the Pod, and the entry is its decoding, whatever the cached
  candidates and Slurm's answers were.
\<close>

theorem VerifyJobsForPods_live:
  assumes "run_state (VerifyJobsForPods C candidates ps [] []) \<lparr>world = w, trace = []\<rparr> = (Inr m, t)"
    and "map_of m k = Some job"
  shows "\<exists>p raw. p \<in> set ps \<and> k = PodKey p \<and>
    EvSlurmGet SkipCache (show_int (JobId job)) (Inr raw) \<in> set (trace t) \<and>
    (PodKey p \<in> set (jobPodKeys raw) \<or> plainKey p \<in> set (jobPodKeys raw)) \<and>
    FromJobInfo (Some raw) = Inr job"
proof -
  let ?s = "\<lparr>world = w, trace = []\<rparr>"
  have "wp (VerifyJobsForPods C candidates ps [] [])
      (\<lambda>r t. \<forall>m'. r = Inr m' \<longrightarrow> verified_ok (trace t) ps m') ?s"
    by (rule VerifyJobsForPods_spec) (simp_all add: live_ok_def verified_ok_def)
  then have "verified_ok (trace t) ps m" using assms(1) by (simp add: wp_def)
  with assms(2) show ?thesis unfolding verified_ok_def live_read_def owns_def by blast
qed

definition one_job :: "unit cluster" where
  "one_job = no_objects\<lparr>slurmGet := (\<lambda>_ k w. (if k = ''7'' then Inr held_job else Inl SlurmNotFound, w))\<rparr>"

definition held_external :: ExternalJob where
  "held_external = \<lparr>JobId = 7, HetJobId = 0, HetJobOffset = 0, JobNodes = [], Pending = True,
     Held = True, Finished = False\<rparr>"

theorem VerifyJobsForPods_live_witness:
  "\<exists>t. run_state (VerifyJobsForPods one_job [(''ns/a/u1'', held_external)]
        [empty_pod\<lparr>namespace := ''ns'', pname := ''a'', uid := ''u1''\<rparr>] [] []) start
      = (Inr [(''ns/a/u1'', held_external)], t) \<and>
    (\<exists>raw. EvSlurmGet SkipCache ''7'' (Inr raw) \<in> set (trace t) \<and> FromJobInfo (Some raw) = Inr held_external)"
proof -
  let ?p = "empty_pod\<lparr>namespace := ''ns'', pname := ''a'', uid := ''u1''\<rparr>"
  let ?t = "\<lparr>world = (), trace = [EvSlurmGet SkipCache ''7'' (Inr held_job)]\<rparr>"
  have key: "PodKey ?p = ''ns/a/u1''" by (simp add: PodKey_def podKeyOf_def empty_pod_def)
  have keys: "jobPodKeys held_job = [''ns/a/u1'']" by code_simp
  have dec: "FromJobInfo (Some held_job) = Inr held_external" by code_simp
  have show7: "show_int 7 = ''7''" by code_simp
  have run: "run_state (VerifyJobsForPods one_job [(''ns/a/u1'', held_external)] [?p] [] []) start
      = (Inr [(''ns/a/u1'', held_external)], ?t)"
    using key keys dec show7
    by (simp add: JobForPod_def label_def get_or_def verifyCandidate_def readJob_def call_defs call_def
        State_Monad.bind_def State_Monad.return_def start_def one_job_def held_external_def empty_pod_def)
  from VerifyJobsForPods_live [OF this [unfolded start_def], of "''ns/a/u1''" held_external]
  have "\<exists>raw. EvSlurmGet SkipCache ''7'' (Inr raw) \<in> set (trace ?t) \<and> FromJobInfo (Some raw) = Inr held_external"
    using show7 by (auto simp: held_external_def)
  then show ?thesis using run by blast
qed

end
