(* ===== verification/Registration_Keys.thy ===== *)
theory Registration_Keys
  imports Pod_Metadata
begin

text \<open>
  \<open>internal/controller/registration\<close>, keys and membership (\<open>keys.go\<close>, \<open>source.go\<close>,
  \<open>membership.go\<close>): the allocation keys of the work queue and the Pods behind a key.
\<close>

record TypeMeta =
  tm_group :: string
  tm_version :: string
  tm_kind :: string

text \<open>
  The configured reconciler: its scheduler name and, when served, the native PodGroup API.  Two
  fields are parameters of the model: the expansion of a Slurm host list, which is third-party code,
  and the order in which Go ranges over a map of Pods.
\<close>

record config =
  ownScheduler :: string
  workloadAPI :: "TypeMeta option"
  expandHosts :: "string \<Rightarrow> string list"
  mapOrder :: "(string \<times> pod) list \<Rightarrow> (string \<times> pod) list"

section \<open>Definitions\<close>

definition requestPodKey :: "Request \<Rightarrow> string" where
  "requestPodKey r = podKeyOf (RNamespace r) (RName r) (RUID r)"

definition groupIdentity :: "Request \<Rightarrow> GroupIdentity" where
  "groupIdentity r = \<lparr>APIGroup = RAPIGroup r, Kind = RKind r, GNamespace = RNamespace r,
     GName = RName r, GUID = RUID r\<rparr>"

definition requestString :: "Request \<Rightarrow> string" where
  "requestString r =
     (if RKind r = ''Pod'' then ''pod/'' @ requestPodKey r
      else if RKind r = ''LeaderWorkerSet'' then
        ''lws/'' @ RNamespace r @ ''/'' @ RName r @ ''/'' @ RUID r @ ''/'' @ ReplicaHash r
      else Key (groupIdentity r))"

definition groupKey :: "GroupIdentity \<Rightarrow> Request" where
  "groupKey g = \<lparr>RAPIGroup = APIGroup g, RKind = Kind g, RNamespace = GNamespace g,
     RName = GName g, RUID = GUID g, ReplicaHash = []\<rparr>"

definition objectRequest :: "objmeta \<Rightarrow> Request" where
  "objectRequest m = \<lparr>RAPIGroup = om_group m, RKind = om_kind m, RNamespace = om_namespace m,
     RName = om_name m, RUID = om_uid m, ReplicaHash = []\<rparr>"

definition podRequest :: "pod \<Rightarrow> Request" where
  "podRequest p = \<lparr>RAPIGroup = [], RKind = ''Pod'', RNamespace = namespace p, RName = pname p,
     RUID = uid p, ReplicaHash = []\<rparr>"

definition allocationKey :: "pod \<Rightarrow> objmeta \<Rightarrow> Request" where
  "allocationKey p root = (case NewGroupIdentity root of
       Some g \<Rightarrow> groupKey g
     | None \<Rightarrow>
         if om_kind root = ''LeaderWorkerSet''
         then (objectRequest root)\<lparr>ReplicaHash := label p GroupUniqueHashLabelKey\<rparr>
         else podRequest p)"

definition typeMeta :: "config \<Rightarrow> Request \<Rightarrow> err + TypeMeta" where
  "typeMeta cfg key =
     (if RAPIGroup key = ''leaderworkerset.x-k8s.io'' \<and> RKind key = ''LeaderWorkerSet''
      then Inr \<lparr>tm_group = RAPIGroup key, tm_version = ''v1'', tm_kind = RKind key\<rparr>
      else if RAPIGroup key = ''scheduling.k8s.io'' \<and> workloadAPI cfg \<noteq> None
        \<and> (RKind key = ''PodGroup'' \<or> RKind key = ''CompositePodGroup'')
      then (if RKind key = ''PodGroup'' then Inr (the (workloadAPI cfg))
            else Inr \<lparr>tm_group = ''scheduling.k8s.io'', tm_version = ''v1alpha3'', tm_kind = RKind key\<rparr>)
      else if RAPIGroup key = ''scheduling.x-k8s.io'' \<and> RKind key = ''PodGroup''
      then Inr \<lparr>tm_group = ''scheduling.x-k8s.io'', tm_version = ''v1alpha1'', tm_kind = RKind key\<rparr>
      else Inl (OtherErr ''unsupported allocation key''))"

definition hasRegistrationGate :: "pod \<Rightarrow> bool" where
  "hasRegistrationGate p = list_ex (\<lambda>g. g = SchedulingGateRegistration) (schedulingGates p)"

definition eligible :: "config \<Rightarrow> pod \<Rightarrow> bool" where
  "eligible cfg p = (schedulerName p = ownScheduler cfg \<and> nodeName p = [] \<and> \<not> deleting p \<and> \<not> terminal p)"

definition zeroMeta :: objmeta where
  "zeroMeta = \<lparr>om_group = [], om_version = [], om_kind = [], om_namespace = [], om_name = [],
     om_uid = [], om_annotations = []\<rparr>"

definition ignoreNotFound :: "err \<Rightarrow> err option" where
  "ignoreNotFound e = (if err_is NotFound e then None else Some e)"

definition membersFrom :: "'w cluster \<Rightarrow> config \<Rightarrow> reader \<Rightarrow> Request
    \<Rightarrow> ('w, pod list \<times> AllocationIdentity \<times> err option) handler" where
  "membersFrom C cfg rd key =
     (let identity = \<lparr>Index = GroupJobIndex, IKey = Key (groupIdentity key), legacyPodKeys = []\<rparr> in
      if RKind key = ''Pod'' then
        (let identity = identity\<lparr>Index := PodJobIndex, IKey := requestPodKey key\<rparr> in do {
           r \<leftarrow> doPodGet C rd (RNamespace key) (RName key);
           case r of
             Inl e \<Rightarrow> ret ([], identity, ignoreNotFound e)
           | Inr p \<Rightarrow>
               if RUID key \<noteq> [] \<and> RUID key \<noteq> uid p then ret ([], identity, None)
               else if schedulerName p = ownScheduler cfg then do {
                 rt \<leftarrow> doRoot C rd p;
                 case rt of
                   Inl e \<Rightarrow> if err_is NotFound e \<and> \<not> eligible cfg p then ret ([p], identity, Some e)
                           else ret ([], emptyIdentity, Some e)
                 | Inr root \<Rightarrow>
                     if allocationKey p root \<noteq> key then do {
                       enqueue (allocationKey p root);
                       ret ([], emptyIdentity, None) }
                     else ret ([p], identity, None) }
               else ret ([p], identity, None) })
      else if RAPIGroup key = ''scheduling.k8s.io'' \<and> workloadAPI cfg = None then ret ([], identity, None)
      else case typeMeta cfg key of
        Inl e \<Rightarrow> ret ([], identity, Some e)
      | Inr tm \<Rightarrow>
          (let root = \<lparr>om_group = tm_group tm, om_version = tm_version tm, om_kind = tm_kind tm,
                 om_namespace = RNamespace key, om_name = RName key, om_uid = RUID key, om_annotations = []\<rparr>;
               identity = (if RKind key = ''LeaderWorkerSet'' then identity\<lparr>Index := []\<rparr> else identity)
           in do {
             r \<leftarrow> doMetaGet C rd root;
             case r of
               Inl e \<Rightarrow> ret ([], identity, ignoreNotFound e)
             | Inr current \<Rightarrow>
                 if om_uid current \<noteq> RUID key then do {
                   enqueue (key\<lparr>RUID := om_uid current\<rparr>);
                   ret ([], identity, None) }
                 else do {
                   ms \<leftarrow> doMembers C rd current (ReplicaHash key);
                   case ms of
                     Inl e \<Rightarrow> ret ([], identity, Some e)
                   | Inr [] \<Rightarrow> ret ([], identity, None)
                   | Inr (p # ps) \<Rightarrow>
                       (let ir = \<lparr>RootPOM = current, Components =
                              [\<lparr>ObjectMeta = zeroMeta, JobInfo = emptyJobInfo, Pods = p # ps\<rparr>]\<rparr>
                        in ret (p # ps, IdentityForAllocation p ir)) } }))"

definition requestOfRef :: "objref \<Rightarrow> Request" where
  "requestOfRef r = \<lparr>RAPIGroup = [], RKind = ''Pod'', RNamespace = ref_namespace r,
     RName = ref_name r, RUID = ref_uid r, ReplicaHash = []\<rparr>"

definition enqueueJob :: "jobinfo \<Rightarrow> Request list" where
  "enqueueJob job = (case ParseIntoExternalJobInfo (ji_adminComment job) of
       None \<Rightarrow> []
     | Some i \<Rightarrow>
         (case CompositePodGroup i of
            Some g \<Rightarrow> [groupKey g]
          | None \<Rightarrow>
              (case PodGroup i of
                 Some g \<Rightarrow> [groupKey g]
               | None \<Rightarrow> map (\<lambda>k. requestOfRef (ParsePodKey k)) (InfoPods i))))"

section \<open>Properties\<close>

lemma groupIdentity_groupKey [simp]: "groupIdentity (groupKey g) = g"
  by (simp add: groupIdentity_def groupKey_def)

lemma requestPodKey_podRequest [simp]: "requestPodKey (podRequest p) = PodKey p"
  by (simp add: requestPodKey_def podRequest_def PodKey_def)



end
