(* ===== verification/Registration_Lifecycle.thy ===== *)
theory Registration_Lifecycle
  imports Registration_Keys
begin

text \<open>
  \<open>internal/controller/registration\<close>, cleanup (\<open>lifecycle.go\<close>, \<open>pod_sync.go\<close>,
  \<open>pod_metadata.go\<close> and the Slurm control it uses): when an allocation is cancelled, when a Pod is
  deleted and when its claims and finalizer go.  The order in which Go ranges over a map of Pods is
  the parameter \<open>mapOrder\<close>.  The safety statement is one guard over the trace of calls: every
  destructive call must be justified by the reads before it.
\<close>

section \<open>Pod state\<close>

definition podReadyForCleanup :: "pod \<Rightarrow> bool" where
  "podReadyForCleanup p = (terminal p \<or> (deleting p \<and> nodeName p = []))"

definition needsAllocation :: "pod list \<Rightarrow> bool" where
  "needsAllocation ps = list_ex (\<lambda>p. \<not> podReadyForCleanup p) ps"

definition releasable :: "pod list \<Rightarrow> bool" where
  "releasable ps =
     (if \<not> needsAllocation ps then True
      else list_ex (\<lambda>p. label p SetNameLabelKey \<noteq> [] \<and> podReadyForCleanup p) ps)"

section \<open>Slurm control\<close>

definition IsJobRunning :: "'w cluster \<Rightarrow> pod \<Rightarrow> ('w, err + bool) handler" where
  "IsJobRunning C p =
     (let jobId = label p LabelExternalJobId in
      if jobId = [] then ret (Inr False)
      else do {
        r \<leftarrow> doSlurmGet C UseCache jobId;
        if (case r of Inl e \<Rightarrow> \<not> err_is SlurmNotFound e | Inr _ \<Rightarrow> False) then ret (rmap (\<lambda>_. False) r)
        else if (case r of Inl _ \<Rightarrow> False | Inr job \<Rightarrow> RUNNING \<in> set (ji_jobState job)) then ret (Inr True)
        else do {
          r' \<leftarrow> doSlurmGet C SkipCache jobId;
          case r' of
            Inl e \<Rightarrow> if err_is SlurmNotFound e then ret (Inr False) else ret (Inl e)
          | Inr job \<Rightarrow>
              if GetKey job \<noteq> jobId then ret (Inl (OtherErr ''job mismatch''))
              else ret (Inr (RUNNING \<in> set (ji_jobState job))) } })"

definition TerminateJob :: "'w cluster \<Rightarrow> int \<Rightarrow> ('w, err + unit) handler" where
  "TerminateJob C jobId = do {
     r \<leftarrow> doSlurmDelete C jobId;
     case r of Inl e \<Rightarrow> if err_is SlurmNotFound e then ret (Inr ()) else ret (Inl e) | Inr _ \<Rightarrow> ret (Inr ()) }"

definition componentSelector :: "int \<Rightarrow> int \<Rightarrow> string" where
  "componentSelector het off = show_int het @ ''+'' @ show_int off"

definition componentErrors :: "deleteResponse \<Rightarrow> err list" where
  "componentErrors res =
     (let body = (case json200 res of None \<Rightarrow> jsonDefault res | Some b \<Rightarrow> Some b) in
      (if statusCode res \<noteq> 200 then [OtherErr ''HTTP status''] else [])
      @ (case body of None \<Rightarrow> [OtherErr ''missing JSON cancellation response'']
         | Some errors \<Rightarrow> map (\<lambda>n. OtherErr (''slurm error '' @ show_int n)) errors))"

definition TerminateHetJobComponent :: "'w cluster \<Rightarrow> int \<Rightarrow> int \<Rightarrow> ('w, err + unit) handler" where
  "TerminateHetJobComponent C hetJobId hetJobOffset =
     (if hetJobId \<le> 0 \<or> hetJobOffset < 0 then ret (Inl (OtherErr ''invalid heterogeneous job component''))
      else do {
        r \<leftarrow> doSlurmDeleteComponent C (componentSelector hetJobId hetJobOffset);
        case r of
          Inl e \<Rightarrow> ret (Inl e)
        | Inr None \<Rightarrow> ret (Inl (OtherErr ''missing HTTP response''))
        | Inr (Some res) \<Rightarrow>
            if statusCode res = 404 then ret (Inr ()) else ret (join_errs (componentErrors res)) })"

section \<open>Membership\<close>

type_synonym members = "(string, pod) gomap"

definition addMembers :: "config \<Rightarrow> pod list \<Rightarrow> members \<Rightarrow> members" where
  "addMembers cfg ps m =
     fold (\<lambda>p m. if schedulerName p = ownScheduler cfg then AList.update (PodKey p) p m else m) ps m"

fun recordedMembers :: "'w cluster \<Rightarrow> config \<Rightarrow> reader \<Rightarrow> ExternalJobInfo \<Rightarrow> string list \<Rightarrow> members
    \<Rightarrow> ('w, err + members) handler" where
  "recordedMembers C cfg rd i [] m = ret (Inr m)"
| "recordedMembers C cfg rd i (key # keys) m =
     (let ref = ParsePodKey key in do {
        r \<leftarrow> doPodGet C rd (ref_namespace ref) (ref_name ref);
        case r of
          Inl e \<Rightarrow> if err_is NotFound e then recordedMembers C cfg rd i keys m else ret (Inl e)
        | Inr p \<Rightarrow>
            if ref_uid ref \<noteq> [] \<and> ref_uid ref \<noteq> uid p then recordedMembers C cfg rd i keys m
            else if PodGroup i = None \<and> schedulerName p = ownScheduler cfg then do {
              rt \<leftarrow> doRoot C rd p;
              case rt of
                Inl e \<Rightarrow> if err_is NotFound e then recordedMembers C cfg rd i keys (addMembers cfg [p] m)
                        else ret (Inl e)
              | Inr root \<Rightarrow>
                  if RKind (allocationKey p root) \<noteq> ''Pod'' then do {
                    ms \<leftarrow> membersFrom C cfg rd (allocationKey p root);
                    (case ms of (pods, _, e) \<Rightarrow>
                       if (case e of None \<Rightarrow> False
                           | Some e \<Rightarrow> \<not> err_is PodGroupNoPods e \<and> \<not> err_is LWSLeaderMissing e)
                       then ret (Inl (the e))
                       else recordedMembers C cfg rd i keys (addMembers cfg pods (addMembers cfg [p] m))) }
                  else recordedMembers C cfg rd i keys (addMembers cfg [p] m) }
            else recordedMembers C cfg rd i keys (addMembers cfg [p] m) })"

definition componentMembers :: "'w cluster \<Rightarrow> config \<Rightarrow> reader
    \<Rightarrow> RegisteredJob \<Rightarrow> ('w, err + pod list) handler" where
  "componentMembers C cfg rd job = do {
     g \<leftarrow> (case PodGroup (info job) of
            None \<Rightarrow> ret (Inr [])
          | Some g \<Rightarrow> do {
              r \<leftarrow> membersFrom C cfg rd (groupKey g);
              (case r of (pods, _, e) \<Rightarrow>
                 if (case e of None \<Rightarrow> False | Some e \<Rightarrow> \<not> err_is PodGroupNoPods e)
                 then ret (Inl (the e)) else ret (Inr (addMembers cfg pods []))) });
     case g of
       Inl e \<Rightarrow> ret (Inl e)
     | Inr m \<Rightarrow> do {
         r \<leftarrow> recordedMembers C cfg rd (info job) (InfoPods (info job)) m;
         case r of
           Inl e \<Rightarrow> ret (Inl e)
         | Inr m \<Rightarrow> do {
             l \<leftarrow> doPodList C rd LabelExternalJobId (show_int (JobId job));
             case l of
               Inl e \<Rightarrow> ret (Inl e)
             | Inr labeled \<Rightarrow>
                 ret (Inr (map snd (mapOrder cfg (addMembers cfg
                   (filter (\<lambda>p. \<not> podReadyForCleanup p) labeled) m)))) } } }"

section \<open>Release of a component\<close>

definition liveJob :: "'w cluster \<Rightarrow> int \<Rightarrow> ('w, err + jobinfo option) handler" where
  "liveJob C i = do {
     r \<leftarrow> doSlurmGet C SkipCache (show_int i);
     case r of
       Inl e \<Rightarrow> if err_is SlurmNotFound e then ret (Inr None) else ret (Inl e)
     | Inr raw \<Rightarrow> if GetKey raw \<noteq> show_int i then ret (Inl (OtherErr ''job mismatch'')) else ret (Inr (Some raw)) }"

definition allocationReleased :: "jobinfo \<Rightarrow> err + bool" where
  "allocationReleased raw = (case FromJobInfo (Some raw) of
       Inl _ \<Rightarrow> Inl (OtherErr ''job'')
     | Inr job \<Rightarrow> Inr (Finished job \<and> COMPLETING \<notin> set (ji_jobState raw)))"

fun siblingsReleasable :: "'w cluster \<Rightarrow> config \<Rightarrow> int
    \<Rightarrow> jobinfo list \<Rightarrow> ('w, err + bool) handler" where
  "siblingsReleasable C cfg het [] = ret (Inr True)"
| "siblingsReleasable C cfg het (raw # raws) =
     (if (case ji_hetJobId raw of None \<Rightarrow> True | Some h \<Rightarrow> deref 0 (nv_number h) \<noteq> het)
      then siblingsReleasable C cfg het raws
      else case RegisteredJobFromInfo raw of
        Inl e \<Rightarrow> ret (Inl e)
      | Inr sibling \<Rightarrow> do {
          r \<leftarrow> componentMembers C cfg Live sibling;
          case r of
            Inl e \<Rightarrow> ret (Inl e)
          | Inr pods \<Rightarrow> if \<not> releasable pods then ret (Inr False)
                       else siblingsReleasable C cfg het raws })"

definition finishRelease :: "'w cluster \<Rightarrow> RegisteredJob \<Rightarrow> ExternalJob \<Rightarrow> ('w, err + bool) handler" where
  "finishRelease C cached live = do {
     r \<leftarrow> (if HetJobId live \<noteq> 0 \<and> \<not> Pending live
          then TerminateHetJobComponent C (HetJobId live) (HetJobOffset live)
          else TerminateJob C (AllocationID live));
     case r of
       Inl e \<Rightarrow> ret (Inl e)
     | Inr _ \<Rightarrow> do {
         again \<leftarrow> liveJob C (JobId cached);
         case again of
           Inl e \<Rightarrow> ret (Inl e)
         | Inr None \<Rightarrow> ret (Inr True)
         | Inr (Some raw) \<Rightarrow> ret (allocationReleased raw) } }"

definition releaseComponent :: "'w cluster \<Rightarrow> config
    \<Rightarrow> RegisteredJob \<Rightarrow> ('w, err + bool) handler" where
  "releaseComponent C cfg cached = do {
     r \<leftarrow> liveJob C (JobId cached);
     case r of
       Inl e \<Rightarrow> ret (Inl e)
     | Inr None \<Rightarrow> ret (Inr True)
     | Inr (Some raw) \<Rightarrow>
         (case FromJobInfo (Some raw) of
            Inl _ \<Rightarrow> ret (Inl (OtherErr ''job''))
          | Inr live \<Rightarrow>
              if Finished live then ret (allocationReleased raw)
              else case ParseIntoExternalJobInfo (ji_adminComment raw) of
                None \<Rightarrow> ret (Inl (OtherErr ''admin comment''))
              | Some i \<Rightarrow>
                  if AllocationID live \<noteq> AllocationID cached \<or> HetJobOffset live \<noteq> HetJobOffset cached
                     \<or> i \<noteq> info cached
                  then ret (Inl (OtherErr ''ownership changed''))
                  else do {
                    ms \<leftarrow> componentMembers C cfg Live cached;
                    case ms of
                      Inl e \<Rightarrow> ret (Inl e)
                    | Inr pods \<Rightarrow>
                        if \<not> releasable pods then ret (Inr False)
                        else if HetJobId live \<noteq> 0 \<and> (Pending live \<or> HetJobOffset live = 0) then do {
                          l \<leftarrow> doSlurmList C SkipCache;
                          case l of
                            Inl e \<Rightarrow> ret (Inl e)
                          | Inr all \<Rightarrow> do {
                              ok \<leftarrow> siblingsReleasable C cfg (HetJobId live) all;
                              case ok of
                                Inl e \<Rightarrow> ret (Inl e)
                              | Inr b \<Rightarrow> if \<not> b then ret (Inr False) else finishRelease C cached live } }
                        else finishRelease C cached live }) }"

section \<open>Pod synchronisation\<close>

definition reconcilePodMetadata :: "'w cluster \<Rightarrow> config \<Rightarrow> string \<Rightarrow> string \<Rightarrow> ('w, err + bool) handler" where
  "reconcilePodMetadata C cfg ns name = do {
     r \<leftarrow> doPodGet C Cached ns name;
     case r of
       Inl e \<Rightarrow> ret (if err_is NotFound e then Inr False else Inl e)
     | Inr p \<Rightarrow>
         if schedulerName p \<noteq> ownScheduler cfg \<or> deleting p \<or> terminal p then ret (Inr False)
         else do {
           c \<leftarrow> GetJobsForPods C [p] [];
           case c of
             Inl e \<Rightarrow> ret (Inl e)
           | Inr candidates \<Rightarrow>
               (case JobForPod candidates p of
                  None \<Rightarrow> ret (Inr False)
                | Some job \<Rightarrow>
                    if p = PodWithMetadata (expandHosts cfg) p job False then ret (Inr False)
                    else do {
                      v \<leftarrow> VerifyJobsForPods C candidates [p] [] [];
                      case v of
                        Inl e \<Rightarrow> ret (Inl e)
                      | Inr verified \<Rightarrow>
                          (case JobForPod verified p of
                             None \<Rightarrow> ret (Inr False)
                           | Some job \<Rightarrow>
                               (let toUpdate = PodWithMetadata (expandHosts cfg) p job False in
                                if p = toUpdate then ret (Inr False)
                                else do {
                                  u \<leftarrow> doPodPatch C p toUpdate;
                                  case u of
                                    Inl e \<Rightarrow> ret (if err_is NotFound e then Inr False else Inl e)
                                  | Inr _ \<Rightarrow> ret (Inr True) })) }) } }"

definition syncKubernetes :: "'w cluster \<Rightarrow> config \<Rightarrow> string \<Rightarrow> string \<Rightarrow> ('w, err + unit) handler" where
  "syncKubernetes C cfg ns name = do {
     r \<leftarrow> doPodGet C Cached ns name;
     case r of
       Inl e \<Rightarrow> ret (if err_is NotFound e then Inr () else Inl e)
     | Inr p \<Rightarrow>
         if schedulerName p \<noteq> ownScheduler cfg then ret (Inr ())
         else if podReadyForCleanup p then ret (Inr ())
         else if nodeName p = [] then ret (Inr ())
         else do {
           x \<leftarrow> IsJobRunning C p;
           case x of
             Inl e \<Rightarrow> ret (Inl e)
           | Inr exists \<Rightarrow> if \<not> exists then doPodDelete C p else ret (Inr ()) } }"

definition syncPod :: "'w cluster \<Rightarrow> config \<Rightarrow> string \<Rightarrow> string \<Rightarrow> ('w, err + bool) handler" where
  "syncPod C cfg ns name = do {
     c \<leftarrow> reconcilePodMetadata C cfg ns name;
     case c of
       Inl e \<Rightarrow> ret (Inl e)
     | Inr changed \<Rightarrow>
         if changed then ret (Inr True)
         else do {
           r \<leftarrow> syncKubernetes C cfg ns name;
           ret (rmap (\<lambda>_. False) r) } }"

definition ownsClaim :: "pod \<Rightarrow> claim \<Rightarrow> bool" where
  "ownsClaim p c = list_ex (\<lambda>(kind, u). kind = ''Pod'' \<and> u = uid p) (claim_owners c)"

definition deleteOwnedClaim :: "'w cluster \<Rightarrow> pod \<Rightarrow> claim \<Rightarrow> ('w, err + unit) handler" where
  "deleteOwnedClaim C p c =
     (if ownsClaim p c then do {
        r \<leftarrow> doClaimDelete C c;
        case r of Inl e \<Rightarrow> if err_is NotFound e then ret (Inr ()) else ret (Inl e) | Inr _ \<Rightarrow> ret (Inr ()) }
      else ret (Inr ()))"

definition deleteExtendedClaim :: "'w cluster \<Rightarrow> pod \<Rightarrow> ('w, err + unit) handler" where
  "deleteExtendedClaim C p =
     (if extendedClaim p \<noteq> [] then do {
        r \<leftarrow> doClaimGet C (namespace p) (extendedClaim p);
        case r of
          Inl e \<Rightarrow> if err_is NotFound e then ret (Inr ()) else ret (Inl e)
        | Inr c \<Rightarrow> do {
            d \<leftarrow> doClaimDelete C c;
            case d of Inl e \<Rightarrow> if err_is NotFound e then ret (Inr ()) else ret (Inl e) | Inr _ \<Rightarrow> ret (Inr ()) } }
      else ret (Inr ()))"

definition removeFinalizer :: "'w cluster \<Rightarrow> pod \<Rightarrow> ('w, err + unit) handler" where
  "removeFinalizer C p =
     (let fs = filter (\<lambda>f. f \<noteq> FinalizerScheduler) (finalizers p) in
      if length fs = length (finalizers p) then ret (Inr ())
      else do {
        r \<leftarrow> doPodPatch C p (p\<lparr>finalizers := fs\<rparr>);
        case r of Inl e \<Rightarrow> if err_is NotFound e then ret (Inr ()) else ret (Inl e) | Inr _ \<Rightarrow> ret (Inr ()) })"

definition prepareTerminalPod :: "'w cluster \<Rightarrow> string \<Rightarrow> string \<Rightarrow> pod option \<Rightarrow> ('w, err + unit) handler" where
  "prepareTerminalPod C ns name expected = do {
     r \<leftarrow> doPodGet C Live ns name;
     case r of
       Inl e \<Rightarrow> if err_is NotFound e then ret (Inr ()) else ret (Inl e)
     | Inr p \<Rightarrow>
         if (case expected of None \<Rightarrow> False
             | Some q \<Rightarrow> uid p \<noteq> uid q \<or> resourceVersion p \<noteq> resourceVersion q)
         then ret (Inl (OtherErr ''pod changed before finalization''))
         else if \<not> podReadyForCleanup p then ret (Inr ())
         else do {
           cl \<leftarrow> doClaimList C (namespace p) (uid p);
           case cl of
             Inl e \<Rightarrow> ret (Inl e)
           | Inr claims \<Rightarrow> do {
               d \<leftarrow> for_each (deleteOwnedClaim C p) claims;
               case d of
                 Inl e \<Rightarrow> ret (Inl e)
               | Inr _ \<Rightarrow> do {
                   x \<leftarrow> deleteExtendedClaim C p;
                   case x of Inl e \<Rightarrow> ret (Inl e) | Inr _ \<Rightarrow> removeFinalizer C p } } } }"

section \<open>The lifecycle of an allocation\<close>

record lifecycle =
  lcMembers :: members
  lcReleased :: "(int, bool) gomap"
  lcAssociated :: "(string, int list) gomap"
  lcWaiting :: bool

text \<open>
  A live read decides whether a submission that the informer has not seen yet still holds
  resources: \<open>Inr True\<close> means wait.
\<close>

definition stillHeld :: "'w cluster \<Rightarrow> int \<Rightarrow> ('w, err + bool) handler" where
  "stillHeld C i = do {
     r \<leftarrow> liveJob C i;
     case r of
       Inl e \<Rightarrow> ret (Inl e)
     | Inr None \<Rightarrow> ret (Inr False)
     | Inr (Some raw) \<Rightarrow> ret (rmap Not (allocationReleased raw)) }"

definition recentSubmission :: "'w cluster \<Rightarrow> Request \<Rightarrow> pod list \<Rightarrow> RegisteredJob list \<Rightarrow> ('w, err + bool) handler" where
  "recentSubmission C key pods jobs =
     (if jobs = [] \<and> list_ex podReadyForCleanup pods then do {
        v \<leftarrow> doRecentGet C key;
        case v of
          None \<Rightarrow> ret (Inr False)
        | Some i \<Rightarrow> if i = 0 then ret (Inr True) else stillHeld C i }
      else ret (Inr False))"

definition noteMembers :: "RegisteredJob \<Rightarrow> pod list \<Rightarrow> lifecycle \<Rightarrow> lifecycle" where
  "noteMembers job current lc = fold (\<lambda>p lc.
     lc\<lparr>lcMembers := AList.update (PodKey p) p (lcMembers lc),
        lcAssociated := AList.update (PodKey p)
          (get_or [] (lcAssociated lc) (PodKey p) @ [JobId job]) (lcAssociated lc)\<rparr>) current lc"

fun lifecycleJobs :: "'w cluster \<Rightarrow> config \<Rightarrow> RegisteredJob list \<Rightarrow> lifecycle \<Rightarrow> ('w, err + lifecycle) handler" where
  "lifecycleJobs C cfg [] lc = ret (Inr lc)"
| "lifecycleJobs C cfg (job # jobs) lc = do {
     r \<leftarrow> componentMembers C cfg Cached job;
     case r of
       Inl e \<Rightarrow> ret (Inl e)
     | Inr current \<Rightarrow>
         (let lc = noteMembers job current lc in
          if Finished job \<and> \<not> list_ex (\<lambda>p. FinalizerScheduler \<in> set (finalizers p)) current
          then lifecycleJobs C cfg jobs (lc\<lparr>lcReleased := AList.update (JobId job) True (lcReleased lc)\<rparr>)
          else if \<not> releasable current \<and> \<not> Finished job then lifecycleJobs C cfg jobs lc
          else do {
            rel \<leftarrow> releaseComponent C cfg job;
            case rel of
              Inl e \<Rightarrow> ret (Inl e)
            | Inr b \<Rightarrow>
                lifecycleJobs C cfg jobs (lc\<lparr>lcReleased := AList.update (JobId job) b (lcReleased lc),
                  lcWaiting := (lcWaiting lc \<or> (\<not> b \<and> releasable current))\<rparr>) }) }"

definition associatedReleased :: "lifecycle \<Rightarrow> pod \<Rightarrow> bool" where
  "associatedReleased lc p =
     list_all (\<lambda>i. get_or False (lcReleased lc) i) (get_or [] (lcAssociated lc) (PodKey p))"

definition lifecyclePod :: "'w cluster \<Rightarrow> config \<Rightarrow> lifecycle \<Rightarrow> pod \<Rightarrow> ('w, err + bool) handler" where
  "lifecyclePod C cfg lc p =
     (if schedulerName p \<noteq> ownScheduler cfg then ret (Inr False)
      else if \<not> podReadyForCleanup p then
        (if hasRegistrationGate p then ret (Inr False) else syncPod C cfg (namespace p) (pname p))
      else if \<not> associatedReleased lc p then ret (Inr False)
      else let i = ParseSlurmJobId (label p LabelExternalJobId) in do {
        h \<leftarrow> (if i > 0 \<and> \<not> get_or False (lcReleased lc) i then stillHeld C i else ret (Inr False));
        case h of
          Inl e \<Rightarrow> ret (Inl e)
        | Inr held \<Rightarrow>
            if held then ret (Inr True)
            else do {
              f \<leftarrow> prepareTerminalPod C (namespace p) (pname p) (Some p);
              ret (rmap (\<lambda>_. False) f) } })"

fun lifecyclePods :: "'w cluster \<Rightarrow> config \<Rightarrow> lifecycle \<Rightarrow> pod list \<Rightarrow> bool \<Rightarrow> ('w, err + bool) handler" where
  "lifecyclePods C cfg lc [] waiting = ret (Inr waiting)"
| "lifecyclePods C cfg lc (p # ps) waiting = do {
     r \<leftarrow> lifecyclePod C cfg lc p;
     case r of
       Inl e \<Rightarrow> ret (Inl e)
     | Inr w \<Rightarrow> lifecyclePods C cfg lc ps (waiting \<or> w) }"

definition reconcileLifecycle :: "'w cluster \<Rightarrow> config \<Rightarrow> Request \<Rightarrow> pod list \<Rightarrow> RegisteredJob list
    \<Rightarrow> ('w, err + bool) handler" where
  "reconcileLifecycle C cfg key pods jobs = do {
     r \<leftarrow> recentSubmission C key pods jobs;
     case r of
       Inl e \<Rightarrow> ret (Inl e)
     | Inr wait \<Rightarrow>
         if wait then ret (Inr True)
         else do {
           l \<leftarrow> lifecycleJobs C cfg jobs
                 \<lparr>lcMembers = fold (\<lambda>p. AList.update (PodKey p) p) pods [], lcReleased = [],
                  lcAssociated = [], lcWaiting = False\<rparr>;
           case l of
             Inl e \<Rightarrow> ret (Inl e)
           | Inr lc \<Rightarrow> lifecyclePods C cfg lc (map snd (mapOrder cfg (lcMembers lc))) (lcWaiting lc) } }"

end
