(* ===== verification/Registration_Safety.thy ===== *)
theory Registration_Safety
  imports Registration_Lifecycle
begin

text \<open>
  What justifies the destructive calls of the lifecycle handlers.  \<open>lifecycle_guard\<close> says of each
  call what the reads before it must have shown; the handlers are shown to keep it for every
  cluster, world and response.
\<close>

section \<open>Evidence\<close>

text \<open>A Pod read in this run.\<close>

fun shows_pod :: "event \<Rightarrow> pod \<Rightarrow> bool" where
  "shows_pod (EvPodGet r ns n (Inr q)) p = (q = p)"
| "shows_pod (EvMembers r m h (Inr ps)) p = (p \<in> set ps)"
| "shows_pod (EvPodList r k v (Inr ps)) p = (p \<in> set ps)"
| "shows_pod e p = False"

definition seen :: "event set \<Rightarrow> pod \<Rightarrow> bool" where
  "seen E p = (\<exists>e\<in>E. shows_pod e p)"

lemma seen_insert [simp]: "seen (insert e E) p = (shows_pod e p \<or> seen E p)"
  by (auto simp: seen_def)

definition lost_lws_member :: "config \<Rightarrow> event set \<Rightarrow> bool" where
  "lost_lws_member cfg E \<longleftrightarrow> (\<exists>p. seen E p \<and> schedulerName p = ownScheduler cfg \<and>
     label p SetNameLabelKey \<noteq> [] \<and> podReadyForCleanup p)"

definition labeled_idle :: "config \<Rightarrow> event set \<Rightarrow> int \<Rightarrow> bool" where
  "labeled_idle cfg E jid \<longleftrightarrow> (\<exists>pods. EvPodList Live LabelExternalJobId (show_int jid) (Inr pods) \<in> E \<and>
     (\<forall>p\<in>set pods. schedulerName p = ownScheduler cfg \<longrightarrow> podReadyForCleanup p))"

definition recorded_idle :: "config \<Rightarrow> event set \<Rightarrow> ExternalJobInfo \<Rightarrow> bool" where
  "recorded_idle cfg E own \<longleftrightarrow> (\<forall>k\<in>set (InfoPods own). \<exists>r.
     EvPodGet Live (ref_namespace (ParsePodKey k)) (ref_name (ParsePodKey k)) r \<in> E \<and>
     (case r of Inl e \<Rightarrow> err_is NotFound e
      | Inr p \<Rightarrow> (ref_uid (ParsePodKey k) \<noteq> [] \<and> ref_uid (ParsePodKey k) \<noteq> uid p) \<or>
          schedulerName p \<noteq> ownScheduler cfg \<or>
          (\<exists>q. seen E q \<and> PodKey q = PodKey p \<and> podReadyForCleanup q)))"

text \<open>
  No Pod of the component can still use it: every Pod labelled with the job and every Pod the job
  recorded is gone, replaced or ready for cleanup, unless a member of an LWS group was lost, which
  recreates the whole group.
\<close>

definition component_idle :: "config \<Rightarrow> event set \<Rightarrow> int \<Rightarrow> ExternalJobInfo \<Rightarrow> bool" where
  "component_idle cfg E jid own \<longleftrightarrow>
     lost_lws_member cfg E \<or> (labeled_idle cfg E jid \<and> recorded_idle cfg E own)"

definition allocation_idle :: "config \<Rightarrow> event set \<Rightarrow> int \<Rightarrow> bool" where
  "allocation_idle cfg E het \<longleftrightarrow> (\<exists>all. EvSlurmList SkipCache (Inr all) \<in> E \<and>
     (\<forall>raw\<in>set all. \<forall>h. ji_hetJobId raw = Some h \<and> deref 0 (nv_number h) = het \<longrightarrow>
        (\<exists>j. RegisteredJobFromInfo raw = Inr j \<and> component_idle cfg E (JobId j) (info j))))"

text \<open>The live record of a cancelled job: active, with the ownership that was checked.\<close>

definition live_active :: "event set \<Rightarrow> ExternalJob \<Rightarrow> ExternalJobInfo \<Rightarrow> bool" where
  "live_active E live own \<longleftrightarrow> (\<exists>raw. EvSlurmGet SkipCache (show_int (JobId live)) (Inr raw) \<in> E \<and>
     FromJobInfo (Some raw) = Inr live \<and> \<not> Finished live \<and>
     ParseIntoExternalJobInfo (ji_adminComment raw) = Some own)"

definition release_seen :: "event set \<Rightarrow> int \<Rightarrow> bool" where
  "release_seen E i \<longleftrightarrow> (\<exists>r. EvSlurmGet SkipCache (show_int i) r \<in> E \<and>
     (case r of Inl e \<Rightarrow> err_is SlurmNotFound e | Inr raw \<Rightarrow> allocationReleased raw = Inr True))"

definition claim_deleted :: "event set \<Rightarrow> claim \<Rightarrow> bool" where
  "claim_deleted E c \<longleftrightarrow> (\<exists>r. EvClaimDelete c r \<in> E \<and>
     (case r of Inl e \<Rightarrow> err_is NotFound e | Inr _ \<Rightarrow> True))"

definition claims_gone :: "event set \<Rightarrow> pod \<Rightarrow> bool" where
  "claims_gone E p \<longleftrightarrow> (\<exists>claims. EvClaimList (namespace p) (uid p) (Inr claims) \<in> E \<and>
       (\<forall>c\<in>set claims. ownsClaim p c \<longrightarrow> claim_deleted E c)) \<and>
     (extendedClaim p \<noteq> [] \<longrightarrow>
       (\<exists>r. EvClaimGet (namespace p) (extendedClaim p) r \<in> E \<and>
         (case r of Inl e \<Rightarrow> err_is NotFound e | Inr c \<Rightarrow> claim_deleted E c)))"

definition terminal_read :: "event set \<Rightarrow> pod \<Rightarrow> bool" where
  "terminal_read E p \<longleftrightarrow> (\<exists>ns n. EvPodGet Live ns n (Inr p) \<in> E) \<and> podReadyForCleanup p"

definition job_not_running :: "event set \<Rightarrow> pod \<Rightarrow> bool" where
  "job_not_running E p \<longleftrightarrow> label p LabelExternalJobId = [] \<or>
     (\<exists>r. EvSlurmGet SkipCache (label p LabelExternalJobId) r \<in> E \<and>
       (case r of Inl e \<Rightarrow> err_is SlurmNotFound e
        | Inr job \<Rightarrow> GetKey job = label p LabelExternalJobId \<and> RUNNING \<notin> set (ji_jobState job)))"

section \<open>The guard\<close>

definition cancel_ok :: "config \<Rightarrow> event set \<Rightarrow> int \<Rightarrow> bool" where
  "cancel_ok cfg E i \<longleftrightarrow> (\<exists>live own. live_active E live own \<and> AllocationID live = i \<and>
     component_idle cfg E (JobId live) own \<and> (HetJobId live \<noteq> 0 \<longrightarrow> allocation_idle cfg E (HetJobId live)))"

definition cancel_component_ok :: "config \<Rightarrow> event set \<Rightarrow> string \<Rightarrow> bool" where
  "cancel_component_ok cfg E sel \<longleftrightarrow> (\<exists>live own. live_active E live own \<and>
     sel = componentSelector (HetJobId live) (HetJobOffset live) \<and> HetJobId live > 0 \<and> \<not> Pending live \<and>
     component_idle cfg E (JobId live) own \<and> (HetJobOffset live = 0 \<longrightarrow> allocation_idle cfg E (HetJobId live)))"

definition claim_delete_ok :: "event set \<Rightarrow> claim \<Rightarrow> bool" where
  "claim_delete_ok E c \<longleftrightarrow> (\<exists>p. terminal_read E p \<and>
     ((\<exists>claims. EvClaimList (namespace p) (uid p) (Inr claims) \<in> E \<and> c \<in> set claims \<and> ownsClaim p c) \<or>
      (extendedClaim p \<noteq> [] \<and> EvClaimGet (namespace p) (extendedClaim p) (Inr c) \<in> E)))"

definition finalizer_ok :: "RegisteredJob list \<Rightarrow> event set \<Rightarrow> pod \<Rightarrow> bool" where
  "finalizer_ok jobs E p \<longleftrightarrow> terminal_read E p \<and> claims_gone E p \<and>
     (\<exists>m. uid m = uid p \<and> resourceVersion m = resourceVersion p \<and>
       (let i = ParseSlurmJobId (label m LabelExternalJobId) in
        i > 0 \<longrightarrow> release_seen E i \<or> (\<exists>j\<in>set jobs. JobId j = i \<and> Finished j)))"

definition pod_delete_ok :: "config \<Rightarrow> event set \<Rightarrow> pod \<Rightarrow> bool" where
  "pod_delete_ok cfg E p \<longleftrightarrow> (\<exists>ns n. EvPodGet Cached ns n (Inr p) \<in> E) \<and>
     schedulerName p = ownScheduler cfg \<and> \<not> podReadyForCleanup p \<and> nodeName p \<noteq> [] \<and> job_not_running E p"

definition drops_finalizer :: "pod \<Rightarrow> pod \<Rightarrow> bool" where
  "drops_finalizer p q \<longleftrightarrow> FinalizerScheduler \<in> set (finalizers p) \<and> FinalizerScheduler \<notin> set (finalizers q)"

fun lifecycle_guard :: "config \<Rightarrow> RegisteredJob list \<Rightarrow> event list \<Rightarrow> event \<Rightarrow> bool" where
  "lifecycle_guard cfg jobs past (EvSlurmDelete i r) = cancel_ok cfg (set past) i"
| "lifecycle_guard cfg jobs past (EvSlurmDeleteComponent sel r) = cancel_component_ok cfg (set past) sel"
| "lifecycle_guard cfg jobs past (EvClaimDelete c r) = claim_delete_ok (set past) c"
| "lifecycle_guard cfg jobs past (EvPodDelete p r) = pod_delete_ok cfg (set past) p"
| "lifecycle_guard cfg jobs past (EvPodPatch p q r) = (drops_finalizer p q \<longrightarrow> finalizer_ok jobs (set past) p)"
| "lifecycle_guard cfg jobs past (EvRegister ir r) = False"
| "lifecycle_guard cfg jobs past e = True"

abbreviation guarded_run :: "config \<Rightarrow> RegisteredJob list \<Rightarrow> ('w, event) sys \<Rightarrow> bool" where
  "guarded_run cfg jobs \<equiv> safe (lifecycle_guard cfg jobs)"

section \<open>Evidence is never lost\<close>

lemma seen_mono: "seen E p \<Longrightarrow> E \<subseteq> F \<Longrightarrow> seen F p"
  unfolding seen_def by blast

lemma lost_lws_mono: "lost_lws_member cfg E \<Longrightarrow> E \<subseteq> F \<Longrightarrow> lost_lws_member cfg F"
  unfolding lost_lws_member_def using seen_mono by blast

lemma component_idle_mono:
  assumes "component_idle cfg E jid own" "E \<subseteq> F" shows "component_idle cfg F jid own"
proof -
  have "labeled_idle cfg F jid" if "labeled_idle cfg E jid"
    using that assms(2) unfolding labeled_idle_def by blast
  moreover have "recorded_idle cfg F own" if r: "recorded_idle cfg E own"
    unfolding recorded_idle_def
  proof
    fix k assume "k \<in> set (InfoPods own)"
    with r obtain r' where e: "EvPodGet Live (ref_namespace (ParsePodKey k)) (ref_name (ParsePodKey k)) r' \<in> E"
      "case r' of Inl e \<Rightarrow> err_is NotFound e
      | Inr p \<Rightarrow> (ref_uid (ParsePodKey k) \<noteq> [] \<and> ref_uid (ParsePodKey k) \<noteq> uid p) \<or>
          schedulerName p \<noteq> ownScheduler cfg \<or>
          (\<exists>q. seen E q \<and> PodKey q = PodKey p \<and> podReadyForCleanup q)"
      unfolding recorded_idle_def by blast
    show "\<exists>r. EvPodGet Live (ref_namespace (ParsePodKey k)) (ref_name (ParsePodKey k)) r \<in> F \<and>
     (case r of Inl e \<Rightarrow> err_is NotFound e
      | Inr p \<Rightarrow> (ref_uid (ParsePodKey k) \<noteq> [] \<and> ref_uid (ParsePodKey k) \<noteq> uid p) \<or>
          schedulerName p \<noteq> ownScheduler cfg \<or>
          (\<exists>q. seen F q \<and> PodKey q = PodKey p \<and> podReadyForCleanup q))"
      by (rule exI [of _ r']) (use e assms(2) seen_mono in \<open>auto split: sum.splits\<close>)
  qed
  ultimately show ?thesis using assms lost_lws_mono unfolding component_idle_def by blast
qed

lemma allocation_idle_mono: "allocation_idle cfg E het \<Longrightarrow> E \<subseteq> F \<Longrightarrow> allocation_idle cfg F het"
  unfolding allocation_idle_def using component_idle_mono by blast

lemma live_active_mono: "live_active E live own \<Longrightarrow> E \<subseteq> F \<Longrightarrow> live_active F live own"
  unfolding live_active_def by blast

lemma release_seen_mono: "release_seen E i \<Longrightarrow> E \<subseteq> F \<Longrightarrow> release_seen F i"
  unfolding release_seen_def by blast

lemma claim_deleted_mono: "claim_deleted E c \<Longrightarrow> E \<subseteq> F \<Longrightarrow> claim_deleted F c"
  unfolding claim_deleted_def by blast

lemma terminal_read_mono: "terminal_read E p \<Longrightarrow> E \<subseteq> F \<Longrightarrow> terminal_read F p"
  unfolding terminal_read_def by blast

section \<open>Handlers that only read\<close>

fun is_read :: "event \<Rightarrow> bool" where
  "is_read (EvSlurmDelete i r) = False"
| "is_read (EvSlurmDeleteComponent sel r) = False"
| "is_read (EvClaimDelete c r) = False"
| "is_read (EvPodDelete p r) = False"
| "is_read (EvPodPatch p q r) = False"
| "is_read (EvRegister ir r) = False"
| "is_read e = True"

definition allows_reads :: "(event list \<Rightarrow> event \<Rightarrow> bool) \<Rightarrow> bool" where
  "allows_reads P \<longleftrightarrow> (\<forall>past e. is_read e \<longrightarrow> P past e)"

lemma lifecycle_guard_reads: "allows_reads (lifecycle_guard cfg jobs)"
  unfolding allows_reads_def
proof (intro allI impI)
  fix past e assume "is_read e"
  then show "lifecycle_guard cfg jobs past e" by (cases e) auto
qed

text \<open>
  The contract of a run that only reads: a property of the state that every logged read keeps is
  kept by every handler made of reads.
\<close>

locale read_invariant =
  fixes I :: "('w, event) sys \<Rightarrow> bool"
  assumes read: "I s \<Longrightarrow> is_read e \<Longrightarrow> I (s\<lparr>world := w, trace := trace s @ [e]\<rparr>)"
begin

lemma keeps_call_read: "(\<And>r. is_read (ev r)) \<Longrightarrow> keeps I (call f ev)"
  unfolding keeps_def by (auto intro!: wp_callI read)

lemma keeps_reads:
  "keeps I (doPodGet C rd ns n)" "keeps I (doPodList C rd k v)"
    "keeps I (doMetaGet C rd m)" "keeps I (doClaimList C ns u)"
    "keeps I (doClaimGet C ns n)" "keeps I (doRoot C rd p)"
    "keeps I (doMembers C rd m h)" "keeps I (doSlurmGet C mode k)"
    "keeps I (doSlurmList C mode)" "keeps I (doByIndex C i k)"
    "keeps I (doSynced C)" "keeps I (doTranslate C p)" "keeps I (doReady C p ir)"
    "keeps I (doRecentGet C q)" "keeps I (doRecentSet C q j ttl)"
    "keeps I (doRecentDelete C q)" "keeps I (doHistoryGet C q)"
    "keeps I (doHistorySet C q ev ttl)" "keeps I (doHistoryDelete C q)"
    "keeps I (doRecord C ref ev)" "keeps I (enqueue q)"
  unfolding call_defs by (rule keeps_call_read; simp)+

lemma keeps_membersFrom:
  "keeps I (membersFrom C cfg rd key)"
  unfolding membersFrom_def Let_def
  by (intro keeps_if keeps_bind keeps_case_sum keeps_case_list keeps_ret keeps_reads)

lemma keeps_liveJob: "keeps I (liveJob C i)"
  unfolding liveJob_def by (intro keeps_if keeps_bind keeps_case_sum keeps_ret keeps_reads)

lemma keeps_stillHeld: "keeps I (stillHeld C i)"
  unfolding stillHeld_def
  by (intro keeps_bind keeps_case_sum keeps_case_option keeps_ret keeps_liveJob)

lemma keeps_recordedMembers:
  "keeps I (recordedMembers C cfg rd i keys m)"
proof (induction keys arbitrary: m)
  case (Cons k keys)
  show ?case unfolding recordedMembers.simps Let_def
    by (intro keeps_if keeps_bind keeps_case_sum keeps_case_prod keeps_ret keeps_reads
        keeps_membersFrom Cons.IH)
qed simp

lemma keeps_componentMembers:
  "keeps I (componentMembers C cfg rd job)"
  unfolding componentMembers_def
  by (intro keeps_if keeps_bind keeps_case_sum keeps_case_option keeps_case_prod keeps_ret
      keeps_reads keeps_membersFrom keeps_recordedMembers)

lemma keeps_siblingsReleasable:
  "keeps I (siblingsReleasable C cfg het raws)"
proof (induction raws)
  case (Cons raw raws)
  show ?case unfolding siblingsReleasable.simps
    by (intro keeps_if keeps_bind keeps_case_sum keeps_ret keeps_componentMembers Cons.IH)
qed simp

lemma keeps_GetJobsForPods:
  "keeps I (GetJobsForPods C ps m)"
proof (induction ps arbitrary: m)
  case (Cons p ps)
  show ?case unfolding GetJobsForPods.simps
    by (intro keeps_if keeps_bind keeps_case_sum keeps_ret keeps_reads Cons.IH)
qed simp

lemma keeps_readJob: "keeps I (readJob C i live)"
  unfolding readJob_def
  by (intro keeps_if keeps_bind keeps_case_sum keeps_case_option keeps_ret keeps_reads)

lemma keeps_verifyCandidate: "keeps I (verifyCandidate C p i live m)"
  unfolding verifyCandidate_def
  by (intro keeps_if keeps_bind keeps_case_sum keeps_case_prod keeps_case_option keeps_ret keeps_readJob)

lemma keeps_VerifyJobsForPods:
  "keeps I (VerifyJobsForPods C cand ps live m)"
proof (induction ps arbitrary: live m)
  case (Cons p ps)
  show ?case unfolding VerifyJobsForPods.simps Let_def
    by (intro keeps_if keeps_bind keeps_case_sum keeps_case_prod keeps_case_option keeps_ret
        keeps_readJob keeps_verifyCandidate Cons.IH)
qed simp

lemma keeps_recentSubmission: "keeps I (recentSubmission C key pods jobs)"
  unfolding recentSubmission_def
  by (intro keeps_if keeps_bind keeps_case_option keeps_ret keeps_reads keeps_stillHeld)

lemma keeps_IsJobRunning: "keeps I (IsJobRunning C p)"
  unfolding IsJobRunning_def Let_def
  by (intro keeps_if keeps_bind keeps_case_sum keeps_ret keeps_reads)

end

lemma safe_reads: "allows_reads P \<Longrightarrow> read_invariant (safe P)"
  by unfold_locales (simp add: allows_reads_def)

interpretation run: read_invariant "\<lambda>_. True"
  by unfold_locales simp

interpretation lifecycle: read_invariant "safe (lifecycle_guard cfg jobs)" for cfg jobs
  by (rule safe_reads [OF lifecycle_guard_reads])

section \<open>What the membership reads establish\<close>

definition member_map :: "config \<Rightarrow> event set \<Rightarrow> members \<Rightarrow> bool" where
  "member_map cfg E m \<longleftrightarrow> gomap_ok m \<and> (\<forall>k p. map_of m k = Some p \<longrightarrow>
     PodKey p = k \<and> schedulerName p = ownScheduler cfg \<and> seen E p)"

definition recorded_read :: "config \<Rightarrow> reader \<Rightarrow> event set \<Rightarrow> members \<Rightarrow> string \<Rightarrow> bool" where
  "recorded_read cfg rd E m k \<longleftrightarrow> (\<exists>r.
     EvPodGet rd (ref_namespace (ParsePodKey k)) (ref_name (ParsePodKey k)) r \<in> E \<and>
     (case r of Inl e \<Rightarrow> err_is NotFound e
      | Inr p \<Rightarrow> (ref_uid (ParsePodKey k) \<noteq> [] \<and> ref_uid (ParsePodKey k) \<noteq> uid p) \<or>
          schedulerName p \<noteq> ownScheduler cfg \<or> map_of m (PodKey p) \<noteq> None))"

lemma member_map_mono: "member_map cfg E m \<Longrightarrow> E \<subseteq> F \<Longrightarrow> member_map cfg F m"
  unfolding member_map_def using seen_mono by blast

lemma recorded_read_mono:
  "recorded_read cfg rd E m k \<Longrightarrow> E \<subseteq> F \<Longrightarrow> dom (map_of m) \<subseteq> dom (map_of m') \<Longrightarrow> recorded_read cfg rd F m' k"
  unfolding recorded_read_def
proof (elim exE conjE, rule exI, rule conjI)
  fix r
  assume "EvPodGet rd (ref_namespace (ParsePodKey k)) (ref_name (ParsePodKey k)) r \<in> E" "E \<subseteq> F"
  then show "EvPodGet rd (ref_namespace (ParsePodKey k)) (ref_name (ParsePodKey k)) r \<in> F" by blast
next
  fix r
  assume d: "dom (map_of m) \<subseteq> dom (map_of m')" and
    c: "case r of Inl e \<Rightarrow> err_is NotFound e
      | Inr p \<Rightarrow> (ref_uid (ParsePodKey k) \<noteq> [] \<and> ref_uid (ParsePodKey k) \<noteq> uid p) \<or>
          schedulerName p \<noteq> ownScheduler cfg \<or> map_of m (PodKey p) \<noteq> None"
  have "map_of m (PodKey p) \<noteq> None \<Longrightarrow> map_of m' (PodKey p) \<noteq> None" for p
    using d by blast
  with c show "case r of Inl e \<Rightarrow> err_is NotFound e
      | Inr p \<Rightarrow> (ref_uid (ParsePodKey k) \<noteq> [] \<and> ref_uid (ParsePodKey k) \<noteq> uid p) \<or>
          schedulerName p \<noteq> ownScheduler cfg \<or> map_of m' (PodKey p) \<noteq> None"
    by (cases r) auto
qed

lemma addMembers_Nil [simp]: "addMembers cfg [] m = m"
  by (simp add: addMembers_def)

lemma addMembers_Cons: "addMembers cfg (p # ps) m =
    addMembers cfg ps (if schedulerName p = ownScheduler cfg then AList.update (PodKey p) p m else m)"
  by (simp add: addMembers_def)

lemma member_map_update:
  "member_map cfg E m \<Longrightarrow> seen E p \<Longrightarrow> schedulerName p = ownScheduler cfg \<Longrightarrow>
    member_map cfg E (AList.update (PodKey p) p m)"
  unfolding member_map_def by (simp split: if_split)

lemma addMembers_map:
  "\<forall>p\<in>set ps. seen E p \<Longrightarrow> member_map cfg E m \<Longrightarrow> member_map cfg E (addMembers cfg ps m)"
proof (induction ps arbitrary: m)
  case (Cons p ps)
  then have "member_map cfg E (if schedulerName p = ownScheduler cfg then AList.update (PodKey p) p m else m)"
    using member_map_update by simp
  with Cons.IH Cons.prems(1) show ?case unfolding addMembers_Cons by simp
qed simp

lemma addMembers_dom: "dom (map_of m) \<subseteq> dom (map_of (addMembers cfg ps m))"
proof (induction ps arbitrary: m)
  case (Cons p ps)
  have "dom (map_of m) \<subseteq> dom (map_of (if schedulerName p = ownScheduler cfg then AList.update (PodKey p) p m else m))"
    by (auto simp: update_conv)
  then show ?case unfolding addMembers_Cons using Cons.IH by (rule subset_trans)
qed simp

lemma addMembers_lookup:
  "map_of (addMembers cfg ps m) k = map_of m k \<or> (\<exists>q\<in>set ps. map_of (addMembers cfg ps m) k = Some q)"
proof (induction ps arbitrary: m)
  case (Cons p ps)
  let ?m = "if schedulerName p = ownScheduler cfg then AList.update (PodKey p) p m else m"
  have "map_of ?m k = map_of m k \<or> map_of ?m k = Some p" by simp
  with Cons.IH [of ?m] show ?case unfolding addMembers_Cons by fastforce
qed simp

lemma addMembers_new:
  "p \<in> set ps \<Longrightarrow> schedulerName p = ownScheduler cfg \<Longrightarrow>
    \<exists>q\<in>set ps. map_of (addMembers cfg ps m) (PodKey p) = Some q"
proof (induction ps arbitrary: m)
  case (Cons a ps)
  let ?m = "if schedulerName a = ownScheduler cfg then AList.update (PodKey a) a m else m"
  show ?case
  proof (cases "p \<in> set ps")
    case True
    then show ?thesis using Cons.IH [OF True Cons.prems(2), of ?m] by (auto simp: addMembers_Cons)
  next
    case False
    then have "p = a" using Cons.prems by simp
    then show ?thesis using addMembers_lookup [of cfg ps ?m "PodKey p"] Cons.prems(2)
      by (auto simp: addMembers_Cons)
  qed
qed simp

text \<open>The Pods that a membership read returns were read.\<close>

lemma membersFrom_seen:
  "wp (membersFrom C cfg rd key) (\<lambda>r t. \<forall>p\<in>set (fst r). seen (events t) p) s"
  unfolding membersFrom_def Let_def
  by (auto simp: call_defs intro!: wp_callI split: sum.split list.split)

lemma membersFrom_spec:
  "wp (membersFrom C cfg rd key) (\<lambda>r t. events s \<subseteq> events t \<and> (\<forall>p\<in>set (fst r). seen (events t) p)) s"
  by (rule wp_mono [OF keeps_wp [OF run.keeps_membersFrom TrueI membersFrom_seen]]) auto

definition members_found :: "config \<Rightarrow> reader \<Rightarrow> event set \<Rightarrow> members \<Rightarrow> string list \<Rightarrow> event set \<Rightarrow> members \<Rightarrow> bool" where
  "members_found cfg rd E m keys E' m' \<longleftrightarrow> member_map cfg E' m' \<and> dom (map_of m) \<subseteq> dom (map_of m') \<and>
     E \<subseteq> E' \<and> (\<forall>k\<in>set keys. recorded_read cfg rd E' m' k)"

lemma members_found_step:
  assumes "recorded_read cfg rd E1 m1 k" "E \<subseteq> E1" "dom (map_of m) \<subseteq> dom (map_of m1)"
    "members_found cfg rd E1 m1 keys E' m'"
  shows "members_found cfg rd E m (k # keys) E' m'"
proof -
  have "E1 \<subseteq> E'" "dom (map_of m1) \<subseteq> dom (map_of m')" using assms(4) unfolding members_found_def by blast+
  then show ?thesis
    using assms(4) recorded_read_mono [OF assms(1), of E' m'] subset_trans [OF assms(3)] subset_trans [OF assms(2)]
    unfolding members_found_def by simp
qed

lemma recordedMembers_spec:
  assumes "member_map cfg (events s) m"
  shows "wp (recordedMembers C cfg rd i keys m) (\<lambda>r t. \<forall>m'. r = Inr m' \<longrightarrow>
    members_found cfg rd (events s) m keys (events t) m') s"
  using assms
proof (induction keys arbitrary: m s)
  case (Cons k keys)
  let ?ref = "ParsePodKey k"
  let ?Q = "\<lambda>r t. \<forall>m'. r = Inr m' \<longrightarrow> members_found cfg rd (events s) m (k # keys) (events t) m'"
  let ?at = "\<lambda>u r. EvPodGet rd (ref_namespace ?ref) (ref_name ?ref) r \<in> events u"
  have tail: "wp (recordedMembers C cfg rd i keys m1) ?Q u"
    if "recorded_read cfg rd (events u) m1 k" "events s \<subseteq> events u"
      "dom (map_of m) \<subseteq> dom (map_of m1)" "member_map cfg (events u) m1" for m1 u
    using Cons.IH [OF that(4)] by (rule wp_mono) (use members_found_step [OF that(1-3)] in blast)
  have gone: "wp (recordedMembers C cfg rd i keys m) ?Q u"
    if "?at u (Inl e)" "err_is NotFound e" "events s \<subseteq> events u" for e u
    by (rule tail) (use that member_map_mono [OF Cons.prems that(3)] in \<open>auto simp: recorded_read_def intro: exI [of _ "Inl e"]\<close>)
  have skip: "wp (recordedMembers C cfg rd i keys m) ?Q u"
    if "?at u (Inr p)" "ref_uid ?ref \<noteq> []" "ref_uid ?ref \<noteq> uid p" "events s \<subseteq> events u" for p u
    by (rule tail) (use that member_map_mono [OF Cons.prems that(4)] in \<open>auto simp: recorded_read_def intro: exI [of _ "Inr p"]\<close>)
  have add: "wp (recordedMembers C cfg rd i keys (addMembers cfg ps (addMembers cfg [p] m))) ?Q u"
    if p: "?at u (Inr p)" and e: "events s \<subseteq> events u" and ps: "\<forall>q\<in>set ps. seen (events u) q" for p ps u
  proof (rule tail)
    let ?m1 = "addMembers cfg [p] m"
    have "seen (events u) p" using p unfolding seen_def by (rule bexI [rotated]) simp
    then show "member_map cfg (events u) (addMembers cfg ps ?m1)"
      using ps member_map_mono [OF Cons.prems e] by (intro addMembers_map) auto
    show "dom (map_of m) \<subseteq> dom (map_of (addMembers cfg ps ?m1))"
      by (rule subset_trans [OF addMembers_dom addMembers_dom])
    have "schedulerName p = ownScheduler cfg \<Longrightarrow> PodKey p \<in> dom (map_of (addMembers cfg ps ?m1))"
      using addMembers_new [of p "[p]" cfg m] addMembers_dom [of ?m1 cfg ps] by auto
    then show "recorded_read cfg rd (events u) (addMembers cfg ps ?m1) k"
      using p unfolding recorded_read_def by (intro exI [of _ "Inr p"]) auto
  qed (fact e)
  have add1: "wp (recordedMembers C cfg rd i keys (addMembers cfg [p] m)) ?Q u"
    if "?at u (Inr p)" "events s \<subseteq> events u" for p u
    using add [of p u "[]"] that by simp
  have members: "wp (membersFrom C cfg rd q) (\<lambda>r t. events u \<subseteq> events t \<and> (\<forall>p\<in>set (fst r). seen (events t) p)) u" for q u
    by (rule membersFrom_spec)
  have group: "wp (membersFrom C cfg rd q) (\<lambda>a. wp (f a) ?Q) u"
    if "?at u (Inr p)" "events s \<subseteq> events u" "\<And>pods a e t. ?at t (Inr p) \<Longrightarrow> events s \<subseteq> events t \<Longrightarrow>
      \<forall>q\<in>set pods. seen (events t) q \<Longrightarrow> wp (f (pods, a, e)) ?Q t" for p q u
    and f :: "pod list \<times> AllocationIdentity \<times> err option \<Rightarrow> ('a, err + members) handler"
  proof (rule wp_mono [OF members])
    fix a :: "pod list \<times> AllocationIdentity \<times> err option" and t :: "('a, event) sys"
    assume h: "events u \<subseteq> events t \<and> (\<forall>p\<in>set (fst a). seen (events t) p)"
    obtain ps b e where a: "a = (ps, b, e)" by (cases a)
    show "wp (f a) ?Q t" using h that(1,2) unfolding a by (intro that(3)) auto
  qed
  show ?case unfolding recordedMembers.simps Let_def call_defs
    apply (intro wp_intros)
    subgoal for r w e by (rule gone [of e]) auto
    subgoal by simp
    subgoal for r w p by (rule skip [of p]) auto
    subgoal for r w p by (rule add1 [of p]) auto
    subgoal by simp
    subgoal for r w p by (rule group [of p]) (auto intro!: wp_intros add [of p])
    subgoal for r w p by (rule add1 [of p]) auto
    subgoal for r w p by (rule add1 [of p]) auto
    done
qed (simp add: members_found_def)

definition members_listed :: "config \<Rightarrow> reader \<Rightarrow> event set \<Rightarrow> RegisteredJob \<Rightarrow> pod list \<Rightarrow> bool" where
  "members_listed cfg rd E job pods \<longleftrightarrow>
     (\<forall>p\<in>set pods. schedulerName p = ownScheduler cfg \<and> seen E p) \<and>
     (\<forall>k\<in>set (InfoPods (info job)). \<exists>r.
        EvPodGet rd (ref_namespace (ParsePodKey k)) (ref_name (ParsePodKey k)) r \<in> E \<and>
        (case r of Inl e \<Rightarrow> err_is NotFound e
         | Inr p \<Rightarrow> (ref_uid (ParsePodKey k) \<noteq> [] \<and> ref_uid (ParsePodKey k) \<noteq> uid p) \<or>
             schedulerName p \<noteq> ownScheduler cfg \<or> (\<exists>q\<in>set pods. PodKey q = PodKey p))) \<and>
     (\<exists>labeled. EvPodList rd LabelExternalJobId (show_int (JobId job)) (Inr labeled) \<in> E \<and>
        (\<forall>p\<in>set labeled. schedulerName p = ownScheduler cfg \<and> \<not> podReadyForCleanup p \<longrightarrow>
           (\<exists>q\<in>set pods. \<not> podReadyForCleanup q)))"

lemma member_map_ran: "member_map cfg E m \<Longrightarrow> p \<in> snd ` set m \<longleftrightarrow> (\<exists>k. map_of m k = Some p)"
  unfolding member_map_def gomap_ok_def by (force simp: map_of_eq_Some_iff)

lemma members_listedI:
  assumes ord: "\<And>xs. set (mapOrder cfg xs) = set xs"
    and found: "members_found cfg rd E0 m0 (InfoPods (info job)) E m"
    and l: "EvPodList rd LabelExternalJobId (show_int (JobId job)) (Inr labeled) \<in> F" and F: "E \<subseteq> F"
    and pods: "pods = map snd (mapOrder cfg (addMembers cfg (filter (\<lambda>p. \<not> podReadyForCleanup p) labeled) m))"
  shows "members_listed cfg rd F job pods"
proof -
  let ?labeled = "filter (\<lambda>p. \<not> podReadyForCleanup p) labeled"
  let ?m = "addMembers cfg ?labeled m"
  have "\<forall>p\<in>set ?labeled. seen F p" using l unfolding seen_def by (auto intro: bexI [rotated])
  then have m: "member_map cfg F ?m"
    using found F member_map_mono unfolding members_found_def by (blast intro: addMembers_map)
  have set: "p \<in> set pods \<longleftrightarrow> (\<exists>k. map_of ?m k = Some p)" for p
    using member_map_ran [OF m] unfolding pods by (simp add: ord)
  have "\<exists>r. EvPodGet rd (ref_namespace (ParsePodKey k)) (ref_name (ParsePodKey k)) r \<in> F \<and>
        (case r of Inl e \<Rightarrow> err_is NotFound e
         | Inr p \<Rightarrow> (ref_uid (ParsePodKey k) \<noteq> [] \<and> ref_uid (ParsePodKey k) \<noteq> uid p) \<or>
             schedulerName p \<noteq> ownScheduler cfg \<or> (\<exists>q\<in>set pods. PodKey q = PodKey p))"
    if k: "k \<in> set (InfoPods (info job))" for k
  proof -
    have "recorded_read cfg rd F ?m k"
      by (rule recorded_read_mono [OF _ F addMembers_dom]) (use found k in \<open>simp add: members_found_def\<close>)
    then obtain r where r: "EvPodGet rd (ref_namespace (ParsePodKey k)) (ref_name (ParsePodKey k)) r \<in> F"
      "case r of Inl e \<Rightarrow> err_is NotFound e
      | Inr p \<Rightarrow> (ref_uid (ParsePodKey k) \<noteq> [] \<and> ref_uid (ParsePodKey k) \<noteq> uid p) \<or>
          schedulerName p \<noteq> ownScheduler cfg \<or> map_of ?m (PodKey p) \<noteq> None"
      unfolding recorded_read_def by blast
    have "\<exists>q\<in>set pods. PodKey q = PodKey p" if "map_of ?m (PodKey p) \<noteq> None" for p
      using that m set unfolding member_map_def by blast
    with r(2) show ?thesis using r(1) by (intro exI [of _ r]) (cases r; auto)
  qed
  moreover have "\<exists>q\<in>set pods. \<not> podReadyForCleanup q"
    if "p \<in> set labeled" "schedulerName p = ownScheduler cfg" "\<not> podReadyForCleanup p" for p
    using addMembers_new [of p ?labeled cfg m] that set by auto
  moreover have "\<forall>p\<in>set pods. schedulerName p = ownScheduler cfg \<and> seen F p"
    using m set unfolding member_map_def by blast
  ultimately show ?thesis using l unfolding members_listed_def by blast
qed

text \<open>What the Pods of \<open>componentMembers\<close> are, whatever the cluster answers.\<close>

lemma componentMembers_spec:
  assumes ord: "\<And>xs. set (mapOrder cfg xs) = set xs"
  shows "wp (componentMembers C cfg rd job) (\<lambda>r t. \<forall>pods. r = Inr pods \<longrightarrow> members_listed cfg rd (events t) job pods) s"
proof -
  let ?Q = "\<lambda>r t. \<forall>pods. r = Inr pods \<longrightarrow> members_listed cfg rd (events t) job pods"
  have rest: "wp (recordedMembers C cfg rd (info job) (InfoPods (info job)) m) (\<lambda>r. wp (case r of
           Inl e \<Rightarrow> ret (Inl e)
         | Inr m \<Rightarrow> do {
             l \<leftarrow> doPodList C rd LabelExternalJobId (show_int (JobId job));
             case l of
               Inl e \<Rightarrow> ret (Inl e)
             | Inr labeled \<Rightarrow>
                 ret (Inr (map snd (mapOrder cfg (addMembers cfg
                   (filter (\<lambda>p. \<not> podReadyForCleanup p) labeled) m)))) }) ?Q) u"
    if "member_map cfg (events u) m" for m u
    by (rule wp_mono [OF recordedMembers_spec [OF that]], unfold call_defs, intro wp_intros)
      (auto intro: members_listedI [OF ord])
  have members: "wp (membersFrom C cfg rd q) (\<lambda>r t. \<forall>p\<in>set (fst r). seen (events t) p) u" for q u
    by (rule membersFrom_seen)
  have "member_map cfg E []" for E by (simp add: member_map_def gomap_ok_def)
  moreover have "member_map cfg E (addMembers cfg ps [])" if "\<forall>p\<in>set ps. seen E p" for E ps
    using that calculation addMembers_map by blast
  ultimately show ?thesis unfolding componentMembers_def
    apply (intro wp_intros)
       subgoal by simp
       subgoal by (rule rest) simp
       subgoal by (rule wp_mono [OF members], intro wp_intros) (auto intro: rest)
       done
qed

lemma releasable_idle:
  assumes "members_listed cfg Live E job pods" "releasable pods"
  shows "component_idle cfg E (JobId job) (info job)"
proof (cases "needsAllocation pods")
  case True
  with assms(2) obtain p where "p \<in> set pods" "label p SetNameLabelKey \<noteq> []" "podReadyForCleanup p"
    by (auto simp: releasable_def list_ex_iff)
  with assms(1) show ?thesis
    unfolding component_idle_def lost_lws_member_def members_listed_def by blast
next
  case False
  then have ready: "podReadyForCleanup p" if "p \<in> set pods" for p
    using that by (auto simp: needsAllocation_def list_ex_iff)
  have "labeled_idle cfg E (JobId job)"
    using assms(1) ready unfolding members_listed_def labeled_idle_def by blast
  moreover have "recorded_idle cfg E (info job)"
    unfolding recorded_idle_def
  proof
    fix k assume "k \<in> set (InfoPods (info job))"
    then obtain r where r: "EvPodGet Live (ref_namespace (ParsePodKey k)) (ref_name (ParsePodKey k)) r \<in> E"
      "case r of Inl e \<Rightarrow> err_is NotFound e
         | Inr p \<Rightarrow> (ref_uid (ParsePodKey k) \<noteq> [] \<and> ref_uid (ParsePodKey k) \<noteq> uid p) \<or>
             schedulerName p \<noteq> ownScheduler cfg \<or> (\<exists>q\<in>set pods. PodKey q = PodKey p)"
      using assms(1) unfolding members_listed_def by blast
    have "\<exists>q. seen E q \<and> PodKey q = PodKey p \<and> podReadyForCleanup q"
      if "\<exists>q\<in>set pods. PodKey q = PodKey p" for p
      using that ready assms(1) unfolding members_listed_def by blast
    with r(2) show "\<exists>r. EvPodGet Live (ref_namespace (ParsePodKey k)) (ref_name (ParsePodKey k)) r \<in> E \<and>
       (case r of Inl e \<Rightarrow> err_is NotFound e
        | Inr p \<Rightarrow> (ref_uid (ParsePodKey k) \<noteq> [] \<and> ref_uid (ParsePodKey k) \<noteq> uid p) \<or>
          schedulerName p \<noteq> ownScheduler cfg \<or> (\<exists>q. seen E q \<and> PodKey q = PodKey p \<and> podReadyForCleanup q))"
      using r(1) by (intro exI [of _ r]) (cases r; auto)
  qed
  ultimately show ?thesis unfolding component_idle_def by blast
qed

section \<open>Release of a component\<close>

lemma keeps_wpI:
  assumes "keeps I m" "I s" "wp m Q s" "\<And>a t. I t \<Longrightarrow> events s \<subseteq> events t \<Longrightarrow> Q a t \<Longrightarrow> R a t"
  shows "wp m R s"
  by (rule wp_mono [OF keeps_wp [OF assms(1-3)]]) (use assms(4) in blast)

lemma reads_grow:
  assumes "keeps (\<lambda>_. True) m" shows "wp m (\<lambda>_ t. events s \<subseteq> events t) s"
  by (rule wp_mono [OF keepsD [OF assms]]) auto

lemma siblingsReleasable_spec:
  assumes ord: "\<And>xs. set (mapOrder cfg xs) = set xs"
  shows "wp (siblingsReleasable C cfg het raws) (\<lambda>r t. events s \<subseteq> events t \<and> (r = Inr True \<longrightarrow>
    (\<forall>raw\<in>set raws. \<forall>h. ji_hetJobId raw = Some h \<and> deref 0 (nv_number h) = het \<longrightarrow>
      (\<exists>j. RegisteredJobFromInfo raw = Inr j \<and> component_idle cfg (events t) (JobId j) (info j))))) s"
proof (induction raws arbitrary: s)
  case (Cons raw raws)
  have sib: "wp (componentMembers C cfg Live j) (\<lambda>r t. events s \<subseteq> events t \<and>
      (\<forall>pods. r = Inr pods \<longrightarrow> members_listed cfg Live (events t) j pods)) s" for j
    by (intro wp_conj reads_grow run.keeps_componentMembers componentMembers_spec ord)
  show ?case unfolding siblingsReleasable.simps
    apply (intro wp_intros)
    subgoal by (rule wp_mono [OF Cons.IH]) (auto split: option.splits)
    subgoal by simp
    subgoal for j
      apply (rule wp_mono [OF sib], intro wp_intros)
      subgoal by simp
      subgoal by simp
      subgoal for r t pods
        by (rule wp_mono [OF Cons.IH]) (auto intro: component_idle_mono [OF releasable_idle])
      done
    done
qed simp

lemma liveJob_spec:
  "wp (liveJob C i) (\<lambda>r t. \<forall>x. r = Inr x \<longrightarrow> (case x of None \<Rightarrow> release_seen (events t) i
    | Some raw \<Rightarrow> EvSlurmGet SkipCache (show_int i) (Inr raw) \<in> events t \<and> GetKey raw = show_int i)) s"
  unfolding liveJob_def call_defs
  by (intro wp_intros) (auto simp: release_seen_def intro: exI [of _ "Inl _"])

lemma release_seenI:
  "EvSlurmGet SkipCache (show_int i) (Inr raw) \<in> E \<Longrightarrow> allocationReleased raw = Inr True \<Longrightarrow> release_seen E i"
  unfolding release_seen_def by (rule exI [of _ "Inr raw"]) simp

lemma finishRelease_spec:
  assumes "guarded_run cfg jobs s" "live_active (events s) live own"
    "component_idle cfg (events s) (JobId live) own"
    "HetJobId live \<noteq> 0 \<Longrightarrow> Pending live \<or> HetJobOffset live = 0 \<Longrightarrow> allocation_idle cfg (events s) (HetJobId live)"
  shows "wp (finishRelease C cached live) (\<lambda>r t. guarded_run cfg jobs t \<and> events s \<subseteq> events t \<and>
    (r = Inr True \<longrightarrow> release_seen (events t) (JobId cached))) s"
proof -
  have comp: "wp (TerminateHetJobComponent C (HetJobId live) (HetJobOffset live))
      (\<lambda>r t. guarded_run cfg jobs t \<and> events s \<subseteq> events t) s" if "HetJobId live \<noteq> 0" "\<not> Pending live"
  proof -
    have "cancel_component_ok cfg (events s) (componentSelector (HetJobId live) (HetJobOffset live))"
      if "HetJobId live > 0"
      unfolding cancel_component_ok_def using assms(2-4) that \<open>\<not> Pending live\<close>
      by (intro exI [of _ live] exI [of _ own]) auto
    then show ?thesis using assms(1) unfolding TerminateHetJobComponent_def call_defs
      by (intro wp_intros) auto
  qed
  have whole: "wp (TerminateJob C (AllocationID live)) (\<lambda>r t. guarded_run cfg jobs t \<and> events s \<subseteq> events t) s"
    if "HetJobId live = 0 \<or> Pending live"
  proof -
    have "cancel_ok cfg (events s) (AllocationID live)"
      unfolding cancel_ok_def using assms(2-4) that by (intro exI [of _ live] exI [of _ own]) auto
    then show ?thesis using assms(1) unfolding TerminateJob_def call_defs by (intro wp_intros) auto
  qed
  have again: "wp (liveJob C (JobId cached)) (\<lambda>a. wp (case a of Inl e \<Rightarrow> ret (Inl e)
         | Inr None \<Rightarrow> ret (Inr True) | Inr (Some raw) \<Rightarrow> ret (allocationReleased raw))
      (\<lambda>r t. guarded_run cfg jobs t \<and> events s \<subseteq> events t \<and> (r = Inr True \<longrightarrow> release_seen (events t) (JobId cached)))) t"
    if "guarded_run cfg jobs t" "events s \<subseteq> events t" for t
    by (rule keeps_wpI [OF lifecycle.keeps_liveJob that(1) liveJob_spec])
      (use that(2) in \<open>auto split: sum.splits option.splits intro: release_seenI\<close>)
  show ?thesis unfolding finishRelease_def
    by (intro wp_intros; (rule wp_mono [OF comp] | rule wp_mono [OF whole])?; (intro wp_intros)?)
      (auto intro: again)
qed

lemma live_activeI:
  assumes "EvSlurmGet SkipCache (show_int i) (Inr raw) \<in> E" "GetKey raw = show_int i"
    "FromJobInfo (Some raw) = Inr live" "\<not> Finished live" "ParseIntoExternalJobInfo (ji_adminComment raw) = Some own"
  shows "live_active E live own" "JobId live = i"
proof -
  show "JobId live = i" using assms(2) FromJobInfo_JobId [OF assms(3)] by (simp add: GetKey_def)
  then show "live_active E live own" using assms unfolding live_active_def by auto
qed

lemma releaseComponent_spec:
  assumes ord: "\<And>xs. set (mapOrder cfg xs) = set xs" and s: "guarded_run cfg jobs s"
  shows "wp (releaseComponent C cfg cached) (\<lambda>r t. guarded_run cfg jobs t \<and> events s \<subseteq> events t \<and>
    (r = Inr True \<longrightarrow> release_seen (events t) (JobId cached))) s"
proof -
  let ?Q = "\<lambda>r t. guarded_run cfg jobs t \<and> events s \<subseteq> events t \<and>
    (r = Inr True \<longrightarrow> release_seen (events t) (JobId cached))"
  have siblings: "wp (siblingsReleasable C cfg het all) R t"
    if t: "guarded_run cfg jobs t" and all: "EvSlurmList SkipCache (Inr all) \<in> events t"
      and R: "\<And>r u. guarded_run cfg jobs u \<Longrightarrow> events t \<subseteq> events u \<Longrightarrow>
        (r = Inr True \<Longrightarrow> allocation_idle cfg (events u) het) \<Longrightarrow> R r u" for het all t R
    by (rule keeps_wpI [OF lifecycle.keeps_siblingsReleasable t siblingsReleasable_spec [OF ord]], rule R)
      (use all in \<open>auto simp: allocation_idle_def\<close>)
  have members: "wp (componentMembers C cfg Live cached) R t"
    if t: "guarded_run cfg jobs t" and R: "\<And>r u. guarded_run cfg jobs u \<Longrightarrow> events t \<subseteq> events u \<Longrightarrow>
        (\<And>pods. r = Inr pods \<Longrightarrow> releasable pods \<Longrightarrow> component_idle cfg (events u) (JobId cached) (info cached)) \<Longrightarrow>
        R r u" for t R
    by (rule keeps_wpI [OF lifecycle.keeps_componentMembers t componentMembers_spec [OF ord]], rule R)
      (auto intro: releasable_idle)
  have finish: "wp (finishRelease C cached live) ?Q t"
    if "guarded_run cfg jobs t" "events s \<subseteq> events t" "live_active (events t) live (info cached)"
      "component_idle cfg (events t) (JobId live) (info cached)"
      "HetJobId live \<noteq> 0 \<Longrightarrow> Pending live \<or> HetJobOffset live = 0 \<Longrightarrow> allocation_idle cfg (events t) (HetJobId live)"
    for live t
    by (rule wp_mono [OF finishRelease_spec [OF that(1,3-5)]]) (use that(2) in auto)
  have decide: "wp (componentMembers C cfg Live cached) (\<lambda>ms. wp (case ms of
                      Inl e \<Rightarrow> ret (Inl e)
                    | Inr pods \<Rightarrow>
                        if \<not> releasable pods then ret (Inr False)
                        else if HetJobId live \<noteq> 0 \<and> (Pending live \<or> HetJobOffset live = 0) then do {
                          l \<leftarrow> doSlurmList C SkipCache;
                          case l of
                            Inl e \<Rightarrow> ret (Inl e)
                          | Inr all \<Rightarrow> do {
                              ok \<leftarrow> siblingsReleasable C cfg (HetJobId live) all;
                              case ok of
                                Inl e \<Rightarrow> ret (Inl e)
                              | Inr b \<Rightarrow> if \<not> b then ret (Inr False) else finishRelease C cached live } }
                        else finishRelease C cached live) ?Q) t"
    if t: "guarded_run cfg jobs t" "events s \<subseteq> events t"
      and live: "live_active (events t) live (info cached)" "JobId live = JobId cached" for live t
    unfolding call_defs
    apply (rule members [OF t(1)], intro wp_intros)
    subgoal using t by auto
    subgoal using t by auto
    subgoal using t by auto
    subgoal for ms u pods l w all
      using t live by (intro siblings finish wp_intros) (auto intro: live_active_mono component_idle_mono)
    subgoal for ms u pods
      using t live by (intro finish) (auto intro: live_active_mono)
    done
  show ?thesis unfolding releaseComponent_def wp_bind
    apply (rule keeps_wpI [OF lifecycle.keeps_liveJob s liveJob_spec])
    apply (intro wp_intros)
    subgoal by simp
    subgoal by simp
    subgoal by simp
    subgoal by (auto intro: release_seenI)
    subgoal by simp
    subgoal by simp
    subgoal for r t x raw live own by (rule decide) (auto intro: live_activeI)
    done
qed

section \<open>Pods\<close>

lemma IsJobRunning_spec: "wp (IsJobRunning C p) (\<lambda>r t. r = Inr False \<longrightarrow> job_not_running (events t) p) s"
  unfolding IsJobRunning_def Let_def call_defs
  by (intro wp_intros) (auto simp: job_not_running_def rmap_def split: sum.splits intro: exI [of _ "Inl _"] exI [of _ "Inr _"])

lemma syncKubernetes_keeps: "keeps (guarded_run cfg jobs) (syncKubernetes C cfg ns name)"
  unfolding keeps_def
proof (intro allI impI)
  fix s :: "('a, event) sys" assume s: "guarded_run cfg jobs s"
  let ?Q = "\<lambda>_ t. guarded_run cfg jobs t \<and> events s \<subseteq> events t"
  have running: "wp (IsJobRunning C p) R t"
    if "guarded_run cfg jobs t" "\<And>r u. guarded_run cfg jobs u \<Longrightarrow> events t \<subseteq> events u \<Longrightarrow>
      (r = Inr False \<Longrightarrow> job_not_running (events u) p) \<Longrightarrow> R r u" for p t R
    by (rule keeps_wpI [OF lifecycle.keeps_IsJobRunning that(1) IsJobRunning_spec]) (use that(2) in blast)
  show "wp (syncKubernetes C cfg ns name) ?Q s"
    unfolding syncKubernetes_def call_defs
    apply (intro wp_intros running)
    using s apply (auto simp: pod_delete_ok_def)
    done
qed

lemma PodWithMetadata_finalizers:
  "f \<in> set (finalizers p) \<Longrightarrow> f \<in> set (finalizers (PodWithMetadata expand p job adopt))"
  by (simp add: PodWithMetadata_fixLabels Let_def)

lemma reconcilePodMetadata_keeps: "keeps (guarded_run cfg jobs) (reconcilePodMetadata C cfg ns name)"
proof -
  have patch: "keeps (guarded_run cfg jobs) (doPodPatch C p (PodWithMetadata expand p job adopt))" for p expand job adopt
    unfolding call_defs by (rule keeps_call) (auto simp: drops_finalizer_def PodWithMetadata_finalizers)
  show ?thesis unfolding reconcilePodMetadata_def Let_def
    by (intro keeps_if keeps_bind keeps_case_sum keeps_case_option keeps_ret lifecycle.keeps_reads patch
        lifecycle.keeps_GetJobsForPods lifecycle.keeps_VerifyJobsForPods)
qed

lemma syncPod_keeps: "keeps (guarded_run cfg jobs) (syncPod C cfg ns name)"
  unfolding syncPod_def
  by (intro keeps_if keeps_bind keeps_case_sum keeps_ret reconcilePodMetadata_keeps syncKubernetes_keeps)

text \<open>
  \<open>prepareTerminalPod\<close> removes the finalizer last: every claim of the Pod was deleted or gone
  before, and the Pod is the one that was expected.
\<close>

definition finalization_ok :: "RegisteredJob list \<Rightarrow> event set \<Rightarrow> pod \<Rightarrow> bool" where
  "finalization_ok jobs E m = (let i = ParseSlurmJobId (label m LabelExternalJobId) in
     i > 0 \<longrightarrow> release_seen E i \<or> (\<exists>j\<in>set jobs. JobId j = i \<and> Finished j))"

lemma finalization_ok_mono: "finalization_ok jobs E m \<Longrightarrow> E \<subseteq> F \<Longrightarrow> finalization_ok jobs F m"
  unfolding finalization_ok_def Let_def using release_seen_mono by blast

lemma deleteOwnedClaim_spec:
  assumes "guarded_run cfg jobs s" "terminal_read (events s) p"
    "EvClaimList (namespace p) (uid p) (Inr claims) \<in> events s" "c \<in> set claims"
  shows "wp (deleteOwnedClaim C p c) (\<lambda>r t. guarded_run cfg jobs t \<and> events s \<subseteq> events t \<and>
    (\<forall>u. r = Inr u \<longrightarrow> ownsClaim p c \<longrightarrow> claim_deleted (events t) c)) s"
proof -
  have "ownsClaim p c \<Longrightarrow> claim_delete_ok (events s) c"
    using assms unfolding claim_delete_ok_def by blast
  then show ?thesis using assms(1) unfolding deleteOwnedClaim_def call_defs
    by (intro wp_intros) (auto simp: claim_deleted_def split: sum.split)
qed

lemma deleteExtendedClaim_spec:
  assumes "guarded_run cfg jobs s" "terminal_read (events s) p"
  shows "wp (deleteExtendedClaim C p) (\<lambda>r t. guarded_run cfg jobs t \<and> events s \<subseteq> events t \<and>
    (\<forall>u. r = Inr u \<longrightarrow> extendedClaim p \<noteq> [] \<longrightarrow>
       (\<exists>r. EvClaimGet (namespace p) (extendedClaim p) r \<in> events t \<and>
         (case r of Inl e \<Rightarrow> err_is NotFound e | Inr c \<Rightarrow> claim_deleted (events t) c)))) s"
proof -
  have "claim_delete_ok (insert (EvClaimGet (namespace p) (extendedClaim p) (Inr c)) (events s)) c"
    if "extendedClaim p \<noteq> []" for c
    using assms(2) that terminal_read_mono [OF assms(2), of "insert e (events s)" for e]
    unfolding claim_delete_ok_def by blast
  then show ?thesis using assms(1) unfolding deleteExtendedClaim_def call_defs
    by (intro wp_intros) (auto simp: claim_deleted_def split: sum.split)
qed

lemma deleteClaims_spec:
  assumes "guarded_run cfg jobs s" "terminal_read (events s) p"
    "EvClaimList (namespace p) (uid p) (Inr claims) \<in> events s" "set cs \<subseteq> set claims"
  shows "wp (for_each (deleteOwnedClaim C p) cs) (\<lambda>r t. guarded_run cfg jobs t \<and> events s \<subseteq> events t \<and>
    (\<forall>u. r = Inr u \<longrightarrow> (\<forall>c\<in>set cs. ownsClaim p c \<longrightarrow> claim_deleted (events t) c))) s"
  using assms
proof (induction cs arbitrary: s)
  case (Cons c cs)
  have c: "c \<in> set claims" "set cs \<subseteq> set claims" using Cons.prems(4) by auto
  show ?case unfolding for_each.simps wp_bind
  proof (rule wp_mono [OF deleteOwnedClaim_spec [OF Cons.prems(1-3) c(1)]], intro wp_intros)
    fix r u and t :: "('a, event) sys"
    assume t: "guarded_run cfg jobs t \<and> events s \<subseteq> events t \<and>
      (\<forall>u. r = Inr u \<longrightarrow> ownsClaim p c \<longrightarrow> claim_deleted (events t) c)" and r: "r = Inr u"
    have "wp (for_each (deleteOwnedClaim C p) cs) (\<lambda>r v. guarded_run cfg jobs v \<and> events t \<subseteq> events v \<and>
        (\<forall>u. r = Inr u \<longrightarrow> (\<forall>c\<in>set cs. ownsClaim p c \<longrightarrow> claim_deleted (events v) c))) t"
      by (rule Cons.IH) (use t Cons.prems c terminal_read_mono in auto)
    then show "wp (for_each (deleteOwnedClaim C p) cs) (\<lambda>r v. guarded_run cfg jobs v \<and> events s \<subseteq> events v \<and>
        (\<forall>u. r = Inr u \<longrightarrow> (\<forall>c'\<in>set (c # cs). ownsClaim p c' \<longrightarrow> claim_deleted (events v) c'))) t"
      by (rule wp_mono) (use t r claim_deleted_mono in auto)
  qed auto
qed simp

lemma removeFinalizer_spec:
  assumes "guarded_run cfg jobs s" "finalizer_ok jobs (events s) p"
  shows "wp (removeFinalizer C p) (\<lambda>r t. guarded_run cfg jobs t \<and> events s \<subseteq> events t) s"
  using assms unfolding removeFinalizer_def Let_def call_defs by (intro wp_intros) auto

lemma prepareTerminalPod_spec:
  assumes s: "guarded_run cfg jobs s" and fin: "finalization_ok jobs (events s) m"
  shows "wp (prepareTerminalPod C ns name (Some m)) (\<lambda>r t. guarded_run cfg jobs t \<and> events s \<subseteq> events t) s"
proof -
  have claims: "wp (for_each (deleteOwnedClaim C p) claims) R t"
    if "guarded_run cfg jobs t" "terminal_read (events t) p" "EvClaimList (namespace p) (uid p) (Inr claims) \<in> events t"
      "\<And>r u. guarded_run cfg jobs u \<Longrightarrow> events t \<subseteq> events u \<Longrightarrow>
        (\<And>v. r = Inr v \<Longrightarrow> \<forall>c\<in>set claims. ownsClaim p c \<longrightarrow> claim_deleted (events u) c) \<Longrightarrow> R r u" for p claims t R
    by (rule wp_mono [OF deleteClaims_spec [OF that(1-3) subset_refl]]) (use that(4) in blast)
  have extended: "wp (deleteExtendedClaim C p) R t"
    if "guarded_run cfg jobs t" "terminal_read (events t) p"
      "\<And>r u. guarded_run cfg jobs u \<Longrightarrow> events t \<subseteq> events u \<Longrightarrow> (\<And>v. r = Inr v \<Longrightarrow> extendedClaim p \<noteq> [] \<Longrightarrow>
       \<exists>r. EvClaimGet (namespace p) (extendedClaim p) r \<in> events u \<and>
         (case r of Inl e \<Rightarrow> err_is NotFound e | Inr c \<Rightarrow> claim_deleted (events u) c)) \<Longrightarrow> R r u" for p t R
    by (rule wp_mono [OF deleteExtendedClaim_spec [OF that(1,2)]]) (use that(3) in blast)
  have final: "wp (removeFinalizer C p) (\<lambda>r t. guarded_run cfg jobs t \<and> events s \<subseteq> events t) t"
    if "guarded_run cfg jobs t" "events s \<subseteq> events t" "terminal_read (events t) p" "claims_gone (events t) p"
      "uid m = uid p" "resourceVersion m = resourceVersion p" for p t
    by (rule wp_mono [OF removeFinalizer_spec [OF that(1)]])
      (use that finalization_ok_mono [OF fin that(2)] in \<open>auto simp: finalizer_ok_def finalization_ok_def\<close>)
  have gone: "claims_gone E' p"
    if "EvClaimList (namespace p) (uid m) (Inr claims) \<in> E" "uid p = uid m"
      "\<forall>c\<in>set claims. ownsClaim p c \<longrightarrow> claim_deleted E c" "E \<subseteq> E'"
      "extendedClaim p \<noteq> [] \<Longrightarrow> \<exists>r. EvClaimGet (namespace p) (extendedClaim p) r \<in> E' \<and>
         (case r of Inl e \<Rightarrow> err_is NotFound e | Inr c \<Rightarrow> claim_deleted E' c)" for p claims E E'
    using that claim_deleted_mono unfolding claims_gone_def by (metis subsetD)
  show ?thesis unfolding prepareTerminalPod_def call_defs
    apply (intro wp_intros claims extended final)
    using s apply (simp_all add: terminal_read_def)
    apply (auto intro: gone)
    done
qed

section \<open>The lifecycle\<close>

definition released_ok :: "RegisteredJob list \<Rightarrow> event set \<Rightarrow> lifecycle \<Rightarrow> bool" where
  "released_ok jobs E lc \<longleftrightarrow> (\<forall>i. get_or False (lcReleased lc) i \<longrightarrow>
     release_seen E i \<or> (\<exists>j\<in>set jobs. JobId j = i \<and> Finished j))"

lemma released_ok_mono: "released_ok jobs E lc \<Longrightarrow> E \<subseteq> F \<Longrightarrow> released_ok jobs F lc"
  unfolding released_ok_def using release_seen_mono by blast

lemma noteMembers_released [simp]: "lcReleased (noteMembers job current lc) = lcReleased lc"
  unfolding noteMembers_def by (induction current arbitrary: lc) auto

lemma released_ok_update:
  assumes "released_ok jobs E lc" "b \<Longrightarrow> release_seen E i \<or> (\<exists>j\<in>set jobs. JobId j = i \<and> Finished j)"
    "lcReleased lc' = AList.update i b (lcReleased lc)"
  shows "released_ok jobs E lc'"
  using assms unfolding released_ok_def by (auto simp: get_or_def)

lemma lifecycleJobs_spec:
  assumes ord: "\<And>xs. set (mapOrder cfg xs) = set xs"
    and "guarded_run cfg jobs s" "released_ok jobs (events s) lc" "set js \<subseteq> set jobs"
  shows "wp (lifecycleJobs C cfg js lc) (\<lambda>r t. guarded_run cfg jobs t \<and> events s \<subseteq> events t \<and>
    (\<forall>lc'. r = Inr lc' \<longrightarrow> released_ok jobs (events t) lc')) s"
  using assms(2-)
proof (induction js arbitrary: s lc)
  case (Cons j js)
  let ?Q = "\<lambda>r t. guarded_run cfg jobs t \<and> events s \<subseteq> events t \<and>
    (\<forall>lc'. r = Inr lc' \<longrightarrow> released_ok jobs (events t) lc')"
  have IH: "wp (lifecycleJobs C cfg js lc') ?Q t"
    if "guarded_run cfg jobs t" "events s \<subseteq> events t" "released_ok jobs (events t) lc'" for lc' t
    by (rule wp_mono [OF Cons.IH [OF that(1,3)]]) (use that(2) Cons.prems(3) in auto)
  have members: "wp (componentMembers C cfg Cached j) R s"
    if "\<And>r u. guarded_run cfg jobs u \<Longrightarrow> events s \<subseteq> events u \<Longrightarrow> R r u" for R
    by (rule wp_mono [OF keepsD [OF lifecycle.keeps_componentMembers Cons.prems(1)]])
      (use that in blast)
  have release: "wp (releaseComponent C cfg j) R t"
    if "guarded_run cfg jobs t" "\<And>r u. guarded_run cfg jobs u \<Longrightarrow> events t \<subseteq> events u \<Longrightarrow>
      (r = Inr True \<Longrightarrow> release_seen (events u) (JobId j)) \<Longrightarrow> R r u" for t R
    by (rule wp_mono [OF releaseComponent_spec [OF ord that(1)]]) (use that(2) in blast)
  have ok: "released_ok jobs (events t) (noteMembers j current lc)" if "events s \<subseteq> events t" for t current
    using released_ok_mono [OF Cons.prems(2) that] by (simp add: released_ok_def)
  have upd: "released_ok jobs (events t) lc'"
    if "events s \<subseteq> events t" "lcReleased lc' = AList.update (JobId j) b (lcReleased lc)"
      "b \<Longrightarrow> release_seen (events t) (JobId j) \<or> Finished j" for t lc' b
    by (rule released_ok_update [OF released_ok_mono [OF Cons.prems(2) that(1)] _ that(2)])
      (use that(3) Cons.prems(3) in auto)
  show ?case unfolding lifecycleJobs.simps wp_bind Let_def
    apply (rule members, intro wp_intros)
    subgoal by simp
    subgoal by (rule IH, assumption, assumption, rule upd [of _ _ True]) simp_all
    subgoal by (rule IH) (auto intro: ok)
    subgoal for r t current
      apply (rule release, assumption, intro wp_intros)
      subgoal by auto
      subgoal for rel u b by (rule IH, assumption, blast, rule upd [of _ _ b]) auto
      done
    done
qed simp

lemma stillHeld_spec:
  "wp (stillHeld C i) (\<lambda>r t. r = Inr False \<longrightarrow> release_seen (events t) i) s"
  unfolding stillHeld_def wp_bind
  by (rule wp_mono [OF liveJob_spec], intro wp_intros)
    (auto simp: rmap_def split: sum.splits intro: release_seenI)

lemma lifecyclePod_spec:
  assumes s: "guarded_run cfg jobs s" and lc: "released_ok jobs (events s) lc"
  shows "wp (lifecyclePod C cfg lc p) (\<lambda>r t. guarded_run cfg jobs t \<and> events s \<subseteq> events t) s"
proof -
  let ?i = "ParseSlurmJobId (label p LabelExternalJobId)"
  have held: "wp (stillHeld C ?i) R s"
    if "\<And>r u. guarded_run cfg jobs u \<Longrightarrow> events s \<subseteq> events u \<Longrightarrow>
      (r = Inr False \<Longrightarrow> release_seen (events u) ?i) \<Longrightarrow> R r u" for R
    by (rule keeps_wpI [OF lifecycle.keeps_stillHeld s stillHeld_spec]) (use that in blast)
  have final: "wp (prepareTerminalPod C ns name (Some p)) R t"
    if "guarded_run cfg jobs t" "events s \<subseteq> events t" "finalization_ok jobs (events t) p"
      "\<And>r u. guarded_run cfg jobs u \<Longrightarrow> events s \<subseteq> events u \<Longrightarrow> R r u" for ns name t R
    by (rule wp_mono [OF prepareTerminalPod_spec [OF that(1,3)]]) (use that(2,4) in blast)
  have known: "finalization_ok jobs (events s) p" if "\<not> (?i > 0 \<and> \<not> get_or False (lcReleased lc) ?i)"
    using that lc unfolding released_ok_def finalization_ok_def Let_def by blast
  have fresh: "finalization_ok jobs E p" if "release_seen E ?i" for E
    using that unfolding finalization_ok_def Let_def by blast
  show ?thesis unfolding lifecyclePod_def Let_def
    apply (intro wp_intros held final keepsD [OF syncPod_keeps])
    using s by (auto intro: known fresh)
qed

lemma lifecyclePods_spec:
  assumes "guarded_run cfg jobs s" "released_ok jobs (events s) lc"
  shows "wp (lifecyclePods C cfg lc ps waiting) (\<lambda>r t. guarded_run cfg jobs t \<and> events s \<subseteq> events t) s"
  using assms
proof (induction ps arbitrary: s waiting)
  case (Cons p ps)
  have IH: "wp (lifecyclePods C cfg lc ps b) (\<lambda>r t. guarded_run cfg jobs t \<and> events s \<subseteq> events t) u"
    if "guarded_run cfg jobs u \<and> events s \<subseteq> events u" for b u
    by (rule wp_mono [OF Cons.IH]) (use that released_ok_mono [OF Cons.prems(2)] in auto)
  show ?case unfolding lifecyclePods.simps wp_bind
    by (rule wp_mono [OF lifecyclePod_spec [OF Cons.prems]], intro wp_intros) (simp_all add: IH)
qed simp

lemma reconcileLifecycle_spec:
  assumes ord: "\<And>xs. set (mapOrder cfg xs) = set xs" and s: "guarded_run cfg jobs s"
  shows "wp (reconcileLifecycle C cfg key pods jobs) (\<lambda>r t. guarded_run cfg jobs t \<and> events s \<subseteq> events t) s"
  unfolding reconcileLifecycle_def wp_bind
  apply (rule wp_mono [OF keepsD [OF lifecycle.keeps_recentSubmission s]], intro wp_intros)
  subgoal by simp
  subgoal by simp
  subgoal for r t wait
    apply (rule wp_mono [OF lifecycleJobs_spec [OF ord, of jobs]])
    subgoal by simp
    subgoal by (simp add: released_ok_def get_or_def)
    subgoal by simp
    subgoal by (intro wp_intros) (auto intro!: wp_mono [OF lifecyclePods_spec])
    done
  done

section \<open>Properties\<close>


definition sample_config :: config where
  "sample_config = \<lparr>ownScheduler = ''slurm-bridge-scheduler'', workloadAPI = None,
     expandHosts = (\<lambda>s. [s]), mapOrder = (\<lambda>xs. xs)\<rparr>"

definition held_registered :: RegisteredJob where
  "held_registered = (case RegisteredJobFromInfo held_job of Inr j \<Rightarrow> j)"


end
