(* ===== verification/Registration_Duplicates.thy ===== *)
theory Registration_Duplicates
  imports Registration_Safety
begin

text \<open>
  \<open>internal/controller/registration/duplicates.go\<close>: recovery when one workload has several
  active allocations.  Records are grouped by owner, the conflicting group is read again live, one
  allocation survives and the others are cancelled.  Go ranges over maps in any order; the orders
  of the four loops are parameters.
\<close>

section \<open>Grouping\<close>

type_synonym allocations = "(int, jobinfo list) gomap"

record orders =
  groupOrder :: "(string \<times> allocations) list \<Rightarrow> (string \<times> allocations) list"
  readOrder :: "(int \<times> jobinfo list) list \<Rightarrow> (int \<times> jobinfo list) list"
  surviveOrder :: "(int \<times> jobinfo list) list \<Rightarrow> (int \<times> jobinfo list) list"
  cancelOrder :: "(int \<times> jobinfo list) list \<Rightarrow> (int \<times> jobinfo list) list"

record legacyAllocation =
  la_job :: jobinfo
  la_id :: int
  la_pods :: "string list"

record grouping =
  g_groups :: "(string, allocations) gomap"
  g_owners :: "(string, string list) gomap"
  g_legacy :: "legacyAllocation list"

definition addAllocation :: "string \<Rightarrow> int \<Rightarrow> jobinfo \<Rightarrow> (string, allocations) gomap \<Rightarrow> (string, allocations) gomap" where
  "addAllocation key i job groups =
     (let m = get_or [] groups key in AList.update key (AList.update i (get_or [] m i @ [job]) m) groups)"

definition addOwner :: "string \<Rightarrow> string \<Rightarrow> (string, string list) gomap \<Rightarrow> (string, string list) gomap" where
  "addOwner podKey key owners = AList.update podKey (List.insert key (get_or [] owners podKey)) owners"

definition addOwners :: "string \<Rightarrow> string list \<Rightarrow> (string, string list) gomap \<Rightarrow> (string, string list) gomap" where
  "addOwners key pods owners = fold (\<lambda>podKey owners.
     (let pod = ParsePodKey podKey
      in addOwner (ref_namespace pod @ ''/'' @ ref_name pod) key (addOwner podKey key owners))) pods owners"

definition groupJob :: "jobinfo \<Rightarrow> grouping \<Rightarrow> grouping" where
  "groupJob raw g = (case FromJobInfo (Some raw) of
       Inl _ \<Rightarrow> g
     | Inr job \<Rightarrow>
         if Finished job then g
         else case ParseIntoExternalJobInfo (ji_adminComment raw) of
           None \<Rightarrow> g
         | Some i \<Rightarrow>
             (case CompositePodGroup i of
                Some c \<Rightarrow> g\<lparr>g_groups := addAllocation (Key c) (AllocationID job) raw (g_groups g)\<rparr>
              | None \<Rightarrow>
                  (case PodGroup i of
                     Some p \<Rightarrow> g\<lparr>g_groups := addAllocation (Key p) (AllocationID job) raw (g_groups g),
                                g_owners := addOwners (Key p) (InfoPods i) (g_owners g)\<rparr>
                   | None \<Rightarrow> g\<lparr>g_legacy := g_legacy g @ [\<lparr>la_job = raw, la_id = AllocationID job,
                                la_pods = InfoPods i\<rparr>]\<rparr>)))"

definition legacyMatches :: "(string, string list) gomap \<Rightarrow> string list \<Rightarrow> string list" where
  "legacyMatches owners pods = remdups (concat (map (get_or [] owners) pods))"

definition groupLegacy :: "(string, string list) gomap \<Rightarrow> legacyAllocation \<Rightarrow> (string, allocations) gomap
    \<Rightarrow> (string, allocations) gomap" where
  "groupLegacy owners old groups = (case legacyMatches owners (la_pods old) of
       [key] \<Rightarrow> addAllocation key (la_id old) (la_job old) groups
     | _ \<Rightarrow> fold (\<lambda>pod. addAllocation (''pod/'' @ pod) (la_id old) (la_job old)) (la_pods old) groups)"

definition groupAllocations :: "jobinfo list \<Rightarrow> (string, allocations) gomap" where
  "groupAllocations jobs =
     (let g = fold groupJob jobs \<lparr>g_groups = [], g_owners = [], g_legacy = []\<rparr>
      in fold (groupLegacy (g_owners g)) (g_legacy g) (g_groups g))"

section \<open>The surviving allocation\<close>

definition started :: "jobinfo \<Rightarrow> bool" where
  "started job = list_ex (\<lambda>s. s \<in> set [RUNNING, SUSPENDED, COMPLETING]) (ji_jobState job)"

definition lower :: "int \<Rightarrow> int \<Rightarrow> int" where
  "lower i best = (if best = 0 \<or> i < best then i else best)"

fun surviveComponents :: "int \<Rightarrow> jobinfo list \<Rightarrow> int \<times> int \<Rightarrow> err + int \<times> int" where
  "surviveComponents i [] kr = Inr kr"
| "surviveComponents i (job # jobs) (keep, released) = (case FromJobInfo (Some job) of
       Inl _ \<Rightarrow> Inl (OtherErr ''job'')
     | Inr current \<Rightarrow> surviveComponents i jobs
         (if started job then lower i keep else keep,
          if Pending current \<and> \<not> Held current then lower i released else released))"

fun surviveLoop :: "(int \<times> jobinfo list) list \<Rightarrow> int \<times> int \<times> int \<Rightarrow> err + int \<times> int \<times> int" where
  "surviveLoop [] krl = Inr krl"
| "surviveLoop ((i, components) # rest) (keep, released, lowest) =
     rbind (surviveComponents i components (keep, released)) (\<lambda>(keep, released).
       surviveLoop rest (keep, released, lower i lowest))"

definition survivingAllocation :: "orders \<Rightarrow> allocations \<Rightarrow> err + int" where
  "survivingAllocation ord active =
     rmap (\<lambda>(keep, released, lowest).
       let keep = (if keep = 0 then released else keep) in if keep = 0 then lowest else keep)
       (surviveLoop (surviveOrder ord active) (0, 0, 0))"

section \<open>Cancelling the others\<close>

fun readConflict :: "'w cluster \<Rightarrow> jobinfo list \<Rightarrow> jobinfo list \<Rightarrow> ('w, err + jobinfo list) handler" where
  "readConflict C [] live = ret (Inr live)"
| "readConflict C (cached # rest) live = do {
     r \<leftarrow> doSlurmGet C SkipCache (GetKey cached);
     case r of
       Inl e \<Rightarrow> if err_is SlurmNotFound e then readConflict C rest live else ret (Inl e)
     | Inr job \<Rightarrow>
         if GetKey job \<noteq> GetKey cached then ret (Inl (OtherErr ''job mismatch''))
         else readConflict C rest (live @ [job]) }"

fun cancelOthers :: "'w cluster \<Rightarrow> int \<Rightarrow> int list \<Rightarrow> err list \<Rightarrow> (int, bool) gomap
    \<Rightarrow> ('w, err list \<times> (int, bool) gomap) handler" where
  "cancelOthers C keep [] errs canceled = ret (errs, canceled)"
| "cancelOthers C keep (i # rest) errs canceled =
     (if i = keep \<or> get_or False canceled i then cancelOthers C keep rest errs canceled
      else do {
        r \<leftarrow> doSlurmDelete C i;
        (case r of
           Inl e \<Rightarrow>
             if \<not> err_is SlurmNotFound e
             then cancelOthers C keep rest (errs @ [Wrapped ''cancel duplicate allocation'' e]) canceled
             else cancelOthers C keep rest errs (AList.update i True canceled)
         | Inr _ \<Rightarrow> cancelOthers C keep rest errs (AList.update i True canceled)) })"

definition cleanAllocationConflict :: "'w cluster \<Rightarrow> orders \<Rightarrow> string \<Rightarrow> allocations \<Rightarrow> (int, bool) gomap
    \<Rightarrow> ('w, err option \<times> (int, bool) gomap) handler" where
  "cleanAllocationConflict C ord key allocations canceled = do {
     l \<leftarrow> readConflict C (concat (map snd (readOrder ord allocations))) [];
     case l of
       Inl e \<Rightarrow> ret (Some e, canceled)
     | Inr live \<Rightarrow>
         (let active = get_or [] (groupAllocations live) key in
          if length active < 2 then ret (None, canceled)
          else case survivingAllocation ord active of
            Inl e \<Rightarrow> ret (Some e, canceled)
          | Inr keep \<Rightarrow> do {
              r \<leftarrow> cancelOthers C keep (map fst (cancelOrder ord active)) [] canceled;
              (case r of (errs, canceled) \<Rightarrow>
                 ret (case join_errs errs of Inl e \<Rightarrow> Some e | Inr _ \<Rightarrow> None, canceled)) }) }"

fun cleanGroups :: "'w cluster \<Rightarrow> orders \<Rightarrow> string list \<Rightarrow> (string \<times> allocations) list \<Rightarrow> err list
    \<Rightarrow> (int, bool) gomap \<Rightarrow> ('w, err + unit) handler" where
  "cleanGroups C ord keys [] errs canceled = ret (join_errs errs)"
| "cleanGroups C ord keys ((key, allocations) # rest) errs canceled =
     (if key \<notin> set keys \<or> length allocations < 2 then cleanGroups C ord keys rest errs canceled
      else do {
        r \<leftarrow> cleanAllocationConflict C ord key allocations canceled;
        (case r of (e, canceled) \<Rightarrow>
           cleanGroups C ord keys rest (case e of None \<Rightarrow> errs | Some e \<Rightarrow> errs @ [e]) canceled) })"

definition cleanDuplicateAllocations :: "'w cluster \<Rightarrow> orders \<Rightarrow> string list \<Rightarrow> ('w, err + unit) handler" where
  "cleanDuplicateAllocations C ord keys = do {
     r \<leftarrow> doSlurmList C UseCache;
     case r of
       Inl e \<Rightarrow> ret (Inl e)
     | Inr items \<Rightarrow> cleanGroups C ord keys (groupOrder ord (groupAllocations items)) [] [] }"

definition cleanDuplicates :: "'w cluster \<Rightarrow> orders \<Rightarrow> AllocationIdentity \<Rightarrow> pod list \<Rightarrow> ('w, err + unit) handler" where
  "cleanDuplicates C ord identity pods =
     cleanDuplicateAllocations C ord
       ((if Index identity = PodJobIndex then ''pod/'' @ IKey identity else IKey identity)
        # concat (map (\<lambda>p. [''pod/'' @ PodKey p, ''pod/'' @ namespace p @ ''/'' @ pname p]) pods))"

section \<open>Which allocation survives\<close>

definition waitingReleased :: "jobinfo \<Rightarrow> bool" where
  "waitingReleased job = (case FromJobInfo (Some job) of Inl _ \<Rightarrow> False | Inr c \<Rightarrow> Pending c \<and> \<not> Held c)"

definition decodes :: "jobinfo \<Rightarrow> bool" where
  "decodes job = is_ok (FromJobInfo (Some job))"

definition idsWith :: "(jobinfo \<Rightarrow> bool) \<Rightarrow> allocations \<Rightarrow> int list" where
  "idsWith P active = map fst (filter (\<lambda>(i, jobs). list_ex P jobs) active)"

text \<open>
  The rule in the source's comments: a started allocation first, then one whose release has begun,
  then the oldest; ties go to the lowest leader ID.
\<close>

definition survivor :: "allocations \<Rightarrow> int" where
  "survivor active =
     (if idsWith started active \<noteq> [] then Min (set (idsWith started active))
      else if idsWith waitingReleased active \<noteq> [] then Min (set (idsWith waitingReleased active))
      else Min (fst ` set active))"

lemma set_idsWith: "set (idsWith P active) = {i. \<exists>jobs. (i, jobs) \<in> set active \<and> (\<exists>j\<in>set jobs. P j)}"
  by (force simp: idsWith_def list_ex_iff)

lemma lower_again [simp]: "i \<noteq> 0 \<Longrightarrow> lower i (lower i b) = lower i b"
  by (simp add: lower_def)

lemma surviveComponents_spec:
  "\<forall>j\<in>set jobs. decodes j \<Longrightarrow> i \<noteq> 0 \<Longrightarrow> surviveComponents i jobs (keep, released) =
    Inr (if list_ex started jobs then lower i keep else keep,
         if list_ex waitingReleased jobs then lower i released else released)"
  by (induction jobs arbitrary: keep released)
    (auto simp: decodes_def is_ok_def waitingReleased_def split: sum.splits)

lemma surviveComponents_error:
  "\<exists>j\<in>set jobs. \<not> decodes j \<Longrightarrow> surviveComponents i jobs kr = Inl (OtherErr ''job'')"
  by (induction i jobs kr rule: surviveComponents.induct) (auto simp: decodes_def is_ok_def split: sum.splits)

lemma surviveLoop_spec:
  "\<forall>(i, jobs)\<in>set xs. i \<noteq> 0 \<and> (\<forall>j\<in>set jobs. decodes j) \<Longrightarrow> surviveLoop xs (k, r, l) =
    Inr (fold lower (idsWith started xs) k, fold lower (idsWith waitingReleased xs) r, fold lower (map fst xs) l)"
  by (induction xs arbitrary: k r l) (auto simp: surviveComponents_spec idsWith_def rbind_def split: prod.splits)

lemma fold_lower_pos: "\<forall>i\<in>set ids. i > 0 \<Longrightarrow> b > 0 \<Longrightarrow> fold lower ids b = Min (set (b # ids))"
proof (induction ids arbitrary: b)
  case (Cons i ids)
  then have "lower i b > 0" by (simp add: lower_def)
  with Cons.IH Cons.prems have "fold lower (i # ids) b = Min (set (lower i b # ids))" by simp
  also have "\<dots> = Min (set (b # i # ids))"
    using Cons.prems by (cases ids) (auto simp: lower_def min_def Min_insert)
  finally show ?case .
qed simp

lemma fold_lower_0: "\<forall>i\<in>set ids. i > 0 \<Longrightarrow> fold lower ids 0 = (if ids = [] then 0 else Min (set ids))"
  by (cases ids) (auto simp: lower_def fold_lower_pos)

lemma Min_pos: "(\<forall>i\<in>set ids. (i :: int) > 0) \<Longrightarrow> ids \<noteq> [] \<Longrightarrow> Min (set ids) > 0"
  using Min_in [of "set ids"] by simp

lemma survivingAllocation_spec:
  assumes "set (surviveOrder ord active) = set active" "active \<noteq> []"
    "\<forall>(i, jobs)\<in>set active. i > 0 \<and> (\<forall>j\<in>set jobs. decodes j)"
  shows "survivingAllocation ord active = Inr (survivor active)"
proof -
  let ?xs = "surviveOrder ord active"
  have pos: "\<forall>i\<in>fst ` set active. i > 0" using assms(3) by auto
  have ids: "set (idsWith P ?xs) = set (idsWith P active)" for P by (simp add: set_idsWith assms(1))
  have sub: "\<forall>i\<in>set (idsWith P ?xs). i > 0" for P using pos unfolding ids by (auto simp: idsWith_def)
  have "\<forall>(i, jobs)\<in>set ?xs. i \<noteq> 0 \<and> (\<forall>j\<in>set jobs. decodes j)" using assms(1,3) by fastforce
  then have "surviveLoop ?xs (0, 0, 0) = Inr (fold lower (idsWith started ?xs) 0,
      fold lower (idsWith waitingReleased ?xs) 0, fold lower (map fst ?xs) 0)"
    by (rule surviveLoop_spec)
  moreover have "fold lower (map fst ?xs) 0 = Min (fst ` set active)"
    using pos assms(1,2) by (subst fold_lower_0) auto
  moreover have "fold lower (idsWith P ?xs) 0 = (if idsWith P active = [] then 0 else Min (set (idsWith P active)))" for P
    using sub ids [of P] by (subst fold_lower_0) (auto simp del: set_empty simp flip: set_empty)
  moreover have "idsWith P active \<noteq> [] \<Longrightarrow> Min (set (idsWith P active)) \<noteq> 0" for P
    using Min_pos [of "idsWith P active"] sub [of P] ids [of P] by fastforce
  ultimately show ?thesis
    by (simp add: survivingAllocation_def rmap_def survivor_def Let_def)
qed

lemma survivor_in:
  assumes "active \<noteq> []" shows "survivor active \<in> fst ` set active"
proof -
  have "Min (set (idsWith P active)) \<in> fst ` set active" if "idsWith P active \<noteq> []" for P
  proof -
    have "set (idsWith P active) \<subseteq> fst ` set active" by (auto simp: idsWith_def)
    moreover have "Min (set (idsWith P active)) \<in> set (idsWith P active)" by (rule Min_in) (use that in auto)
    ultimately show ?thesis by blast
  qed
  moreover have "Min (fst ` set active) \<in> fst ` set active" by (rule Min_in) (use assms in auto)
  ultimately show ?thesis by (simp add: survivor_def)
qed

section \<open>What a group holds\<close>

definition active_in :: "int \<Rightarrow> jobinfo \<Rightarrow> bool" where
  "active_in i raw \<longleftrightarrow> (\<exists>job. FromJobInfo (Some raw) = Inr job \<and> \<not> Finished job \<and> AllocationID job = i)"

definition allocs_ok :: "allocations \<Rightarrow> bool" where
  "allocs_ok m \<longleftrightarrow> gomap_ok m \<and> (\<forall>i jobs. map_of m i = Some jobs \<longrightarrow> jobs \<noteq> [] \<and> (\<forall>j\<in>set jobs. active_in i j))"

definition groups_ok :: "(string, allocations) gomap \<Rightarrow> bool" where
  "groups_ok g \<longleftrightarrow> gomap_ok g \<and> (\<forall>key m. map_of g key = Some m \<longrightarrow> m \<noteq> [] \<and> allocs_ok m)"

lemma active_in_pos: "active_in i raw \<Longrightarrow> i > 0"
  using FromJobInfo_ok AllocationID_pos unfolding active_in_def by blast

lemma active_in_decodes: "active_in i raw \<Longrightarrow> decodes raw"
  by (auto simp: active_in_def decodes_def is_ok_def)

lemma addAllocation_ok:
  assumes "groups_ok g" "active_in i raw"
  shows "groups_ok (addAllocation key i raw g)"
proof -
  let ?m = "get_or [] g key"
  let ?m' = "AList.update i (get_or [] ?m i @ [raw]) ?m"
  have m: "allocs_ok ?m"
    using assms(1) by (cases "map_of g key") (auto simp: get_or_def groups_ok_def allocs_ok_def gomap_ok_def)
  then have old: "\<forall>j\<in>set (get_or [] ?m i). active_in i j"
    by (cases "map_of ?m i") (auto simp: get_or_def [of "[]" ?m i] allocs_ok_def)
  have "map_of ?m' i \<noteq> None" by simp
  then have "?m' \<noteq> []" by (metis map_of.simps(1))
  moreover have "allocs_ok ?m'"
    unfolding allocs_ok_def
  proof (intro conjI allI impI)
    show "gomap_ok ?m'" using m by (simp add: allocs_ok_def)
  next
    fix k jobs assume "map_of ?m' k = Some jobs"
    then show "jobs \<noteq> []" "\<forall>j\<in>set jobs. active_in k j"
      using m old assms(2) by (cases "k = i"; auto simp: allocs_ok_def)+
  qed
  ultimately show ?thesis
    using assms(1) unfolding addAllocation_def Let_def groups_ok_def by simp
qed

lemma groupJob_ok:
  "groups_ok (g_groups g) \<Longrightarrow> \<forall>l\<in>set (g_legacy g). active_in (la_id l) (la_job l) \<Longrightarrow>
   groups_ok (g_groups (groupJob raw g)) \<and> (\<forall>l\<in>set (g_legacy (groupJob raw g)). active_in (la_id l) (la_job l))"
proof -
  assume g: "groups_ok (g_groups g)" "\<forall>l\<in>set (g_legacy g). active_in (la_id l) (la_job l)"
  have "active_in (AllocationID job) raw" if "FromJobInfo (Some raw) = Inr job" "\<not> Finished job" for job
    using that unfolding active_in_def by blast
  with g show ?thesis unfolding groupJob_def
    by (cases "FromJobInfo (Some raw)"; cases "ParseIntoExternalJobInfo (ji_adminComment raw)")
      (simp_all add: addAllocation_ok ball_Un split: option.split)
qed

lemma groupJobs_ok:
  "groups_ok (g_groups g) \<Longrightarrow> \<forall>l\<in>set (g_legacy g). active_in (la_id l) (la_job l) \<Longrightarrow>
   groups_ok (g_groups (fold groupJob jobs g)) \<and>
   (\<forall>l\<in>set (g_legacy (fold groupJob jobs g)). active_in (la_id l) (la_job l))"
proof (induction jobs arbitrary: g)
  case (Cons raw jobs)
  have "groups_ok (g_groups (groupJob raw g)) \<and> (\<forall>l\<in>set (g_legacy (groupJob raw g)). active_in (la_id l) (la_job l))"
    by (rule groupJob_ok [OF Cons.prems])
  then show ?case unfolding fold.simps comp_apply by (intro Cons.IH) blast+
qed simp

lemma groupLegacy_ok:
  "groups_ok g \<Longrightarrow> active_in (la_id l) (la_job l) \<Longrightarrow> groups_ok (groupLegacy owners l g)"
proof -
  assume g: "groups_ok g" and l: "active_in (la_id l) (la_job l)"
  have "groups_ok (fold (\<lambda>pod. addAllocation (''pod/'' @ pod) (la_id l) (la_job l)) pods g')"
    if "groups_ok g'" for pods g'
    using that l by (induction pods arbitrary: g') (auto simp: addAllocation_ok)
  then show ?thesis using g l unfolding groupLegacy_def
    by (auto simp: addAllocation_ok split: list.split)
qed

lemma groupLegacies_ok:
  "groups_ok g \<Longrightarrow> \<forall>l\<in>set ls. active_in (la_id l) (la_job l) \<Longrightarrow> groups_ok (fold (groupLegacy owners) ls g)"
  by (induction ls arbitrary: g) (auto simp: groupLegacy_ok)

lemma groupAllocations_ok: "groups_ok (groupAllocations jobs)"
proof -
  let ?g = "fold groupJob jobs \<lparr>g_groups = [], g_owners = [], g_legacy = []\<rparr>"
  have "groups_ok (g_groups ?g) \<and> (\<forall>l\<in>set (g_legacy ?g). active_in (la_id l) (la_job l))"
    by (rule groupJobs_ok) (auto simp: groups_ok_def gomap_ok_def)
  then show ?thesis unfolding groupAllocations_def Let_def by (intro groupLegacies_ok) auto
qed

lemma group_members:
  assumes "map_of (groupAllocations jobs) key = Some active"
  shows "active \<noteq> []" "gomap_ok active" "\<forall>(i, js)\<in>set active. i > 0 \<and> js \<noteq> [] \<and> (\<forall>j\<in>set js. active_in i j)"
proof -
  have ok: "active \<noteq> [] \<and> allocs_ok active" using groupAllocations_ok [of jobs] assms unfolding groups_ok_def by blast
  then show "active \<noteq> []" "gomap_ok active" by (auto simp: allocs_ok_def)
  have "js \<noteq> [] \<and> (\<forall>j\<in>set js. active_in i j)" if "(i, js) \<in> set active" for i js
  proof -
    have "map_of active i = Some js" using ok that by (simp add: allocs_ok_def gomap_ok_def)
    then show ?thesis using ok unfolding allocs_ok_def by blast
  qed
  moreover have "i > 0" if "(i, js) \<in> set active" for i js
    using calculation [OF that] active_in_pos by (metis list.set_sel(1))
  ultimately show "\<forall>(i, js)\<in>set active. i > 0 \<and> js \<noteq> [] \<and> (\<forall>j\<in>set js. active_in i j)" by blast
qed

section \<open>What justifies a cancellation\<close>

text \<open>
  A conflict seen live: every record was read live, and under one owner key they hold the
  allocation to cancel and another one, which survives.
\<close>

definition live_conflict :: "event set \<Rightarrow> int \<Rightarrow> bool" where
  "live_conflict E i \<longleftrightarrow> (\<exists>live key active.
     (\<forall>j\<in>set live. EvSlurmGet SkipCache (GetKey j) (Inr j) \<in> E) \<and>
     map_of (groupAllocations live) key = Some active \<and>
     i \<in> fst ` set active \<and> survivor active \<in> fst ` set active \<and> i \<noteq> survivor active)"

fun duplicate_guard :: "event list \<Rightarrow> event \<Rightarrow> bool" where
  "duplicate_guard past (EvSlurmDelete i r) = (live_conflict (set past) i \<and> EvSlurmDelete i (Inr ()) \<notin> set past)"
| "duplicate_guard past e = is_read e"

lemma duplicate_guard_reads: "allows_reads duplicate_guard"
  unfolding allows_reads_def
proof (intro allI impI)
  fix past e assume "is_read e"
  then show "duplicate_guard past e" by (cases e) auto
qed

definition cancelled :: "event set \<Rightarrow> int \<Rightarrow> bool" where
  "cancelled E i \<longleftrightarrow> (\<exists>r. EvSlurmDelete i r \<in> E \<and> (case r of Inl e \<Rightarrow> err_is SlurmNotFound e | Inr _ \<Rightarrow> True))"

definition canceled_ok :: "event set \<Rightarrow> (int, bool) gomap \<Rightarrow> bool" where
  "canceled_ok E canceled \<longleftrightarrow> (\<forall>i. get_or False canceled i = cancelled E i)"

lemma cancelled_mono: "cancelled E i \<Longrightarrow> E \<subseteq> F \<Longrightarrow> cancelled F i"
  unfolding cancelled_def by blast

lemma cancelled_insert:
  "cancelled (insert (EvSlurmDelete k r) E) i \<longleftrightarrow>
    cancelled E i \<or> (i = k \<and> (case r of Inl e \<Rightarrow> err_is SlurmNotFound e | Inr _ \<Rightarrow> True))"
  unfolding cancelled_def by blast

lemma cancelled_read: "is_read e \<Longrightarrow> cancelled (insert e E) i = cancelled E i"
  unfolding cancelled_def by auto

lemma live_conflict_mono: "live_conflict E i \<Longrightarrow> E \<subseteq> F \<Longrightarrow> live_conflict F i"
  unfolding live_conflict_def by blast

context read_invariant
begin

lemma keeps_readConflict: "keeps I (readConflict C cs live)"
proof (induction cs arbitrary: live)
  case (Cons c cs)
  show ?case unfolding readConflict.simps
    by (intro keeps_bind keeps_case_sum keeps_if keeps_ret keeps_reads Cons.IH)
qed simp

end

interpretation duplicates: read_invariant "safe duplicate_guard"
  by (rule safe_reads [OF duplicate_guard_reads])

lemma readConflict_spec:
  assumes "\<forall>j\<in>set live. EvSlurmGet SkipCache (GetKey j) (Inr j) \<in> events s"
  shows "wp (readConflict C cs live) (\<lambda>r t. (\<forall>i. cancelled (events t) i = cancelled (events s) i) \<and>
    (\<forall>l. r = Inr l \<longrightarrow> (\<forall>j\<in>set l. EvSlurmGet SkipCache (GetKey j) (Inr j) \<in> events t))) s"
  using assms
proof (induction cs arbitrary: live s)
  case (Cons c cs)
  show ?case unfolding readConflict.simps call_defs
    apply (intro wp_intros)
    subgoal by (rule wp_mono [OF Cons.IH]) (use Cons.prems in \<open>auto simp: cancelled_read\<close>)
    subgoal by (simp add: cancelled_read)
    subgoal by (simp add: cancelled_read)
    subgoal by (rule wp_mono [OF Cons.IH]) (use Cons.prems in \<open>auto simp: cancelled_read\<close>)
    done
qed simp

lemma cancelOthers_spec:
  assumes "safe duplicate_guard s" "canceled_ok (events s) canceled"
    "\<forall>i\<in>set ids. i \<noteq> keep \<longrightarrow> live_conflict (events s) i"
  shows "wp (cancelOthers C keep ids errs canceled) (\<lambda>r t. safe duplicate_guard t \<and> events s \<subseteq> events t \<and>
    canceled_ok (events t) (snd r) \<and>
    (fst r = [] \<longrightarrow> errs = [] \<and> (\<forall>i\<in>set ids. i \<noteq> keep \<longrightarrow> cancelled (events t) i))) s"
  using assms
proof (induction ids arbitrary: s errs canceled)
  case (Cons i ids)
  let ?Q = "\<lambda>r t. safe duplicate_guard t \<and> events s \<subseteq> events t \<and> canceled_ok (events t) (snd r) \<and>
    (fst r = [] \<longrightarrow> errs = [] \<and> (\<forall>k\<in>set (i # ids). k \<noteq> keep \<longrightarrow> cancelled (events t) k))"
  have next': "wp (cancelOthers C keep ids errs' canceled') ?Q t"
    if "safe duplicate_guard t" "canceled_ok (events t) canceled'" "events s \<subseteq> events t"
      "errs' = [] \<Longrightarrow> errs = [] \<and> (i \<noteq> keep \<longrightarrow> cancelled (events t) i)" for errs' canceled' t
    by (rule wp_mono [OF Cons.IH [OF that(1,2)]])
      (use that(3,4) Cons.prems(3) live_conflict_mono cancelled_mono in auto)
  have fresh: "EvSlurmDelete i (Inr ()) \<notin> events s" if "\<not> get_or False canceled i"
    using Cons.prems(2) that unfolding canceled_ok_def cancelled_def by (metis old.sum.simps(6))
  show ?case unfolding cancelOthers.simps call_defs
    apply (intro wp_intros)
    subgoal by (rule next') (use Cons.prems in \<open>auto simp: canceled_ok_def\<close>)
    subgoal by (rule next') (use Cons.prems fresh in \<open>auto simp: canceled_ok_def cancelled_insert\<close>)
    subgoal by (rule next') (use Cons.prems fresh in \<open>auto simp: canceled_ok_def cancelled_insert get_or_def\<close>)
    subgoal by (rule next') (use Cons.prems fresh in \<open>auto simp: canceled_ok_def cancelled_insert get_or_def\<close>)
    done
qed simp

definition orders_ok :: "orders \<Rightarrow> bool" where
  "orders_ok ord \<longleftrightarrow> (\<forall>xs. mset (groupOrder ord xs) = mset xs) \<and> (\<forall>xs. mset (readOrder ord xs) = mset xs) \<and>
     (\<forall>xs. mset (surviveOrder ord xs) = mset xs) \<and> (\<forall>xs. mset (cancelOrder ord xs) = mset xs)"

lemma orders_set:
  assumes "orders_ok ord"
  shows "set (groupOrder ord gs) = set gs" "set (readOrder ord xs) = set xs"
    "set (surviveOrder ord xs) = set xs" "set (cancelOrder ord xs) = set xs"
  using assms unfolding orders_ok_def by (metis set_mset_mset)+

text \<open>After a conflict was handled without error only the survivor of the live group is left.\<close>

definition resolved :: "event set \<Rightarrow> string \<Rightarrow> bool" where
  "resolved E key \<longleftrightarrow> (\<exists>live. (\<forall>j\<in>set live. EvSlurmGet SkipCache (GetKey j) (Inr j) \<in> E) \<and>
     (let active = get_or [] (groupAllocations live) key in
      length active < 2 \<or> (\<forall>i\<in>fst ` set active. i = survivor active \<or> cancelled E i)))"

lemma cleanAllocationConflict_spec:
  assumes ord: "orders_ok ord" and s: "safe duplicate_guard s" and c: "canceled_ok (events s) canceled"
  shows "wp (cleanAllocationConflict C ord key allocations canceled) (\<lambda>r t. safe duplicate_guard t \<and>
    events s \<subseteq> events t \<and> canceled_ok (events t) (snd r) \<and> (fst r = None \<longrightarrow> resolved (events t) key)) s"
proof -
  have cancel: "wp (cancelOthers C keep (map fst (cancelOrder ord active)) [] canceled) R t"
    if t: "safe duplicate_guard t" "canceled_ok (events t) canceled"
      and live: "\<forall>j\<in>set live. EvSlurmGet SkipCache (GetKey j) (Inr j) \<in> events t"
      and a: "active = get_or [] (groupAllocations live) key" "\<not> length active < 2"
        "survivingAllocation ord active = Inr keep"
      and R: "\<And>r u. safe duplicate_guard u \<Longrightarrow> events t \<subseteq> events u \<Longrightarrow> canceled_ok (events u) (snd r) \<Longrightarrow>
        (fst r = [] \<Longrightarrow> resolved (events u) key) \<Longrightarrow> R r u" for keep active live t R
  proof -
    have act: "map_of (groupAllocations live) key = Some active"
      using a(1,2) by (cases "map_of (groupAllocations live) key") (auto simp: get_or_def)
    note g = group_members [OF act]
    have dec: "\<forall>(i, js)\<in>set active. i > 0 \<and> (\<forall>j\<in>set js. decodes j)"
      using g(3) active_in_decodes by blast
    have keep: "keep = survivor active"
      using survivingAllocation_spec [OF orders_set(3) [OF ord] g(1) dec] a(3) by simp
    have conf: "\<forall>i\<in>set (map fst (cancelOrder ord active)). i \<noteq> keep \<longrightarrow> live_conflict (events t) i"
      using live act survivor_in [OF g(1)] unfolding live_conflict_def keep by (force simp: orders_set [OF ord])
    show ?thesis
    proof (rule wp_mono [OF cancelOthers_spec [OF t conf]], elim conjE, rule R)
      fix r u assume r: "fst r = [] \<longrightarrow> ([] :: err list) = [] \<and>
          (\<forall>i\<in>set (map fst (cancelOrder ord active)). i \<noteq> keep \<longrightarrow> cancelled (events u) i)"
        and u: "events t \<subseteq> events u" and n: "fst r = []"
      show "resolved (events u) key" unfolding resolved_def
        using live u r n a(1) keep by (intro exI [of _ live]) (auto simp: orders_set [OF ord] Let_def)
    qed
  qed
  show ?thesis unfolding cleanAllocationConflict_def wp_bind Let_def
    apply (rule keeps_wpI [OF duplicates.keeps_readConflict s readConflict_spec [of "[]"]])
    subgoal by simp
    apply (intro wp_intros)
    subgoal using c by (simp add: canceled_ok_def)
    subgoal using c by (auto simp: canceled_ok_def resolved_def Let_def)
    subgoal using c by (simp add: canceled_ok_def)
    subgoal for r t live keep
      by (rule cancel [OF _ _ _ refl], assumption)
        (use c in \<open>auto simp: canceled_ok_def join_errs_def intro!: wp_intros split: if_splits\<close>)
    done
qed

lemma resolved_mono:
  assumes "resolved E key" "E \<subseteq> F" shows "resolved F key"
proof -
  obtain live where live: "\<forall>j\<in>set live. EvSlurmGet SkipCache (GetKey j) (Inr j) \<in> E"
    and r: "let active = get_or [] (groupAllocations live) key in
      length active < 2 \<or> (\<forall>i\<in>fst ` set active. i = survivor active \<or> cancelled E i)"
    using assms(1) unfolding resolved_def by (elim exE conjE) (rule that)
  define active where "active = get_or [] (groupAllocations live) key"
  have "length active < 2 \<or> (\<forall>i\<in>fst ` set active. i = survivor active \<or> cancelled F i)"
    using r cancelled_mono [OF _ assms(2)] unfolding active_def [symmetric] Let_def by blast
  moreover have "\<forall>j\<in>set live. EvSlurmGet SkipCache (GetKey j) (Inr j) \<in> F" using live assms(2) by blast
  ultimately show ?thesis unfolding resolved_def Let_def active_def by (intro exI [of _ live] conjI)
qed

lemma cleanGroups_spec:
  assumes ord: "orders_ok ord" and "safe duplicate_guard s" "canceled_ok (events s) canceled"
  shows "wp (cleanGroups C ord keys gs errs canceled) (\<lambda>r t. safe duplicate_guard t \<and> events s \<subseteq> events t \<and>
    (r = Inr () \<longrightarrow> errs = [] \<and> (\<forall>(key, m)\<in>set gs. key \<in> set keys \<and> 2 \<le> length m \<longrightarrow> resolved (events t) key))) s"
  using assms(2-)
proof (induction gs arbitrary: s errs canceled)
  case Nil
  then show ?case by (simp add: join_errs_def)
next
  case (Cons g gs)
  obtain key m where g: "g = (key, m)" by (cases g)
  let ?Q = "\<lambda>r t. safe duplicate_guard t \<and> events s \<subseteq> events t \<and> (r = Inr () \<longrightarrow> errs = [] \<and>
    (\<forall>(key, m)\<in>set (g # gs). key \<in> set keys \<and> 2 \<le> length m \<longrightarrow> resolved (events t) key))"
  have next': "wp (cleanGroups C ord keys gs errs' canceled') ?Q t"
    if "safe duplicate_guard t" "canceled_ok (events t) canceled'" "events s \<subseteq> events t"
      "errs' = [] \<Longrightarrow> errs = [] \<and> (key \<in> set keys \<and> 2 \<le> length m \<longrightarrow> resolved (events t) key)" for errs' canceled' t
    by (rule wp_mono [OF Cons.IH [OF that(1,2)]]) (use that(3,4) resolved_mono g in auto)
  show ?case unfolding g cleanGroups.simps
    apply (intro wp_intros)
    subgoal unfolding g [symmetric] by (rule next') (use Cons.prems in auto)
    subgoal unfolding g [symmetric]
      by (rule wp_mono [OF cleanAllocationConflict_spec [OF ord Cons.prems]], intro wp_intros, rule next')
        (auto split: option.splits)
    done
qed

lemma cleanDuplicates_spec:
  assumes "orders_ok ord" "safe duplicate_guard s" "canceled_ok (events s) []"
  shows "wp (cleanDuplicates C ord identity pods) (\<lambda>r t. safe duplicate_guard t) s"
  unfolding cleanDuplicates_def cleanDuplicateAllocations_def call_defs
  using assms(2,3) by (intro wp_intros) (auto intro!: wp_mono [OF cleanGroups_spec [OF assms(1)]] simp: canceled_ok_def cancelled_read)

section \<open>Properties\<close>


definition same_orders :: orders where
  "same_orders = \<lparr>groupOrder = (\<lambda>x. x), readOrder = (\<lambda>x. x), surviveOrder = (\<lambda>x. x), cancelOrder = (\<lambda>x. x)\<rparr>"

definition running_job :: jobinfo where
  "running_job = held_job\<lparr>ji_jobId := Some 8, ji_jobState := [RUNNING]\<rparr>"

definition two_jobs :: "unit cluster" where
  "two_jobs = no_objects\<lparr>slurmList := \<lambda>_ w. (Inr [held_job, running_job], w),
     slurmGet := \<lambda>_ k w. (Inr (if k = ''8'' then running_job else held_job), w)\<rparr>"

lemma two_jobs_group:
  "groupAllocations [held_job, running_job] = [(''pod/ns/a/u1'', [(7, [held_job]), (8, [running_job])])]"
  by code_simp

lemma two_jobs_survivor: "survivingAllocation same_orders [(7, [held_job]), (8, [running_job])] = Inr 8"
  by code_simp

lemma two_jobs_keys: "GetKey held_job = ''7''" "GetKey running_job = ''8''"
  by code_simp+


text \<open>
  C10.  The allocation that survives a conflict, whatever order Go ranges over the group: one of the
  group; if any allocation of the group has started (running, suspended or completing), a started
  one, and the lowest leader ID among those; otherwise, if a component's hold was released, the
  lowest such ID; otherwise the lowest ID.  The choice never fails for a group built from job
  records.
\<close>

theorem survivingAllocation_rule:
  assumes "orders_ok ord" and "map_of (groupAllocations live) key = Some active"
  shows "\<exists>keep. survivingAllocation ord active = Inr keep \<and> keep \<in> fst ` set active \<and>
    (let S = set (idsWith started active); R = set (idsWith waitingReleased active) in
     (S \<noteq> {} \<longrightarrow> keep \<in> S \<and> (\<forall>i\<in>S. keep \<le> i)) \<and>
     (S = {} \<and> R \<noteq> {} \<longrightarrow> keep \<in> R \<and> (\<forall>i\<in>R. keep \<le> i)) \<and>
     (S = {} \<and> R = {} \<longrightarrow> (\<forall>i\<in>fst ` set active. keep \<le> i)))"
proof -
  note g = group_members [OF assms(2)]
  have "\<forall>(i, js)\<in>set active. i > 0 \<and> (\<forall>j\<in>set js. decodes j)" using g(3) active_in_decodes by blast
  from survivingAllocation_spec [OF orders_set(3) [OF assms(1)] g(1) this]
  have "survivingAllocation ord active = Inr (survivor active)" .
  moreover have "survivor active \<in> fst ` set active" by (rule survivor_in [OF g(1)])
  moreover have "Min (set xs) \<in> set xs \<and> (\<forall>i\<in>set xs. Min (set xs) \<le> i)" if "set xs \<noteq> {}" for xs :: "int list"
    using that Min_in [of "set xs"] Min_le [of "set xs"] by simp
  ultimately show ?thesis by (auto simp: survivor_def Let_def simp flip: set_empty)
qed

theorem survivingAllocation_rule_witness:
  "survivingAllocation same_orders [(7, [held_job]), (8, [running_job])] = Inr 8"
proof -
  have "orders_ok same_orders" by (simp add: orders_ok_def same_orders_def)
  moreover have g: "map_of (groupAllocations [held_job, running_job]) ''pod/ns/a/u1'' =
      Some [(7, [held_job]), (8, [running_job])]" by (simp add: two_jobs_group)
  ultimately obtain keep where k: "survivingAllocation same_orders [(7, [held_job]), (8, [running_job])] = Inr keep"
    "keep \<in> set (idsWith started [(7, [held_job]), (8, [running_job])])"
    using survivingAllocation_rule [OF _ g, of same_orders]
    by (auto simp: Let_def idsWith_def started_def held_job_def running_job_def)
  then show ?thesis by (simp add: idsWith_def started_def held_job_def running_job_def)
qed

end
