(* ===== verification/Registration_Controller.thy ===== *)
theory Registration_Controller
  imports Registration_Duplicates "HOL-Library.List_Lexorder" "HOL-Library.Char_ord"
begin

text \<open>
  \<open>internal/controller/registration\<close>, the reconciler (\<open>controller.go\<close>, \<open>registration.go\<close>,
  \<open>events.go\<close>, \<open>rejection.go\<close>): when a workload is submitted to Slurm, when its Pods are released
  for scheduling, and how one run composes conflict recovery, cleanup and registration.
\<close>

section \<open>Times and results\<close>

text \<open>Durations are in nanoseconds, as \<open>time.Duration\<close>.\<close>

definition second :: int where "second = 1000000000"
definition SlurmCacheSyncPeriod :: int where "SlurmCacheSyncPeriod = 30 * second"
definition registrationCooldown :: int where "registrationCooldown = 2 * SlurmCacheSyncPeriod"
definition registrationRetry :: int where "registrationRetry = 2 * second"
definition registrationDependencyRetry :: int where "registrationDependencyRetry = 5 * second"
definition requestRetry :: int where "requestRetry = 10 * (60 * second)"
definition limitRetry :: int where "limitRetry = 60 * second"
definition registrationEventReminder :: int where "registrationEventReminder = 5 * (60 * second)"

text \<open>\<open>reconcile.Result\<close>: the delay after which the key is queued again, 0 for not at all.\<close>

type_synonym result = int

section \<open>Rejections\<close>

text \<open>
  The Slurm error numbers are constants of the Slurm client, a parameter \<open>errno\<close> from their names.
\<close>

datatype slurm_errname = ErrInvalidPartitionName | ErrInvalidNodeCount | ErrBadTaskCount
  | ErrInvalidFeature | ErrInvalidAccount | ErrInvalidLicenses | ErrInvalidTimeLimit
  | ErrInvalidWCKey | ErrInvalidQOS | ErrInvalidGRES | ErrInvalidTRES | ErrUserIDInvalid
  | ErrUserIDUnknown | ErrMaxJobCount | ErrAccountingPolicy | ErrPartitionNotAvail | ErrPartitionDown

datatype rejection = rejectOther | rejectRequest | rejectLimit

definition requestErrors :: "slurm_errname list" where
  "requestErrors = [ErrInvalidPartitionName, ErrInvalidNodeCount, ErrBadTaskCount, ErrInvalidFeature,
     ErrInvalidAccount, ErrInvalidLicenses, ErrInvalidTimeLimit, ErrInvalidWCKey, ErrInvalidQOS,
     ErrInvalidGRES, ErrInvalidTRES, ErrUserIDInvalid, ErrUserIDUnknown]"

definition limitErrors :: "slurm_errname list" where
  "limitErrors = [ErrMaxJobCount, ErrAccountingPolicy, ErrPartitionNotAvail, ErrPartitionDown]"

text \<open>\<open>errors.As\<close>: the first Slurm error of the tree.\<close>

fun err_as :: "err \<Rightarrow> int option" and errs_as :: "err list \<Rightarrow> int option" where
  "err_as (SlurmError n) = Some n"
| "err_as (NotSubmitted e) = err_as e"
| "err_as (Wrapped s e) = err_as e"
| "err_as (Joined es) = errs_as es"
| "err_as e = None"
| "errs_as [] = None"
| "errs_as (e # es) = (case err_as e of None \<Rightarrow> errs_as es | Some n \<Rightarrow> Some n)"

definition classifyRejection :: "(slurm_errname \<Rightarrow> int) \<Rightarrow> err option \<Rightarrow> rejection" where
  "classifyRejection errno e = (case Option.bind e err_as of
       None \<Rightarrow> rejectOther
     | Some n \<Rightarrow>
         if n \<in> set (map errno requestErrors) then rejectRequest
         else if n \<in> set (map errno limitErrors) then rejectLimit
         else rejectOther)"

definition notSubmitted :: "err \<Rightarrow> bool" where
  "notSubmitted e = err_any (\<lambda>x. case x of NotSubmitted _ \<Rightarrow> True | _ \<Rightarrow> False) e"

section \<open>Configuration\<close>

text \<open>
  What the reconciler is configured with beyond its keys: the Slurm error numbers, the text of an
  error, whether an event recorder is installed, and the orders of Go's map loops.
\<close>

record controller =
  base :: config
  errno :: "slurm_errname \<Rightarrow> int"
  errText :: "err \<Rightarrow> string"
  eventRecorder :: bool
  ranges :: orders

section \<open>Events\<close>

definition apiVersion :: "TypeMeta \<Rightarrow> string" where
  "apiVersion t = (if tm_group t = [] then tm_version t else tm_group t @ ''/'' @ tm_version t)"

definition eventMessage :: "Request \<Rightarrow> string \<Rightarrow> string" where
  "eventMessage key msg = (if ReplicaHash key \<noteq> [] then ''Replica '' @ ReplicaHash key @ '': '' @ msg else msg)"

definition recordOnce :: "'w cluster \<Rightarrow> Request \<Rightarrow> ObjectReference \<Rightarrow> registrationEvent \<Rightarrow> ('w, unit) handler" where
  "recordOnce C key ref event = do {
     previous \<leftarrow> doHistoryGet C key;
     if previous = Some event then ret ()
     else do {
       _ \<leftarrow> doHistorySet C key event registrationEventReminder;
       doRecord C ref event } }"

definition registrationEventFor :: "'w cluster \<Rightarrow> controller \<Rightarrow> Request \<Rightarrow> string \<Rightarrow> string \<Rightarrow> string
    \<Rightarrow> ('w, unit) handler" where
  "registrationEventFor C K key ty why msg =
     (if \<not> eventRecorder K then ret ()
      else let ref = \<lparr>refAPIVersion = ''v1'', refKind = RKind key, refNamespace = RNamespace key,
                  refName = RName key, refUID = RUID key\<rparr>;
               event = \<lparr>eventType = ty, reason = why, message = eventMessage key msg\<rparr>
           in if RKind key \<noteq> ''Pod'' then
                (case typeMeta (base K) key of
                   Inl _ \<Rightarrow> ret ()
                 | Inr tm \<Rightarrow> recordOnce C key (ref\<lparr>refAPIVersion := apiVersion tm\<rparr>) event)
              else recordOnce C key ref event)"

definition clearRegistrationEvent :: "'w cluster \<Rightarrow> controller \<Rightarrow> Request \<Rightarrow> ('w, unit) handler" where
  "clearRegistrationEvent C K key = (if eventRecorder K then doHistoryDelete C key else ret ())"

definition isMembershipWait :: "err \<Rightarrow> bool" where
  "isMembershipWait e = (err_is NotFound e \<or> err_is PodGroupNoPods e \<or> err_is LWSNoPods e \<or> err_is LWSLeaderMissing e)"

definition registrationReadResult :: "err option \<Rightarrow> result \<times> err option" where
  "registrationReadResult e = (case e of
       None \<Rightarrow> (0, None)
     | Some e \<Rightarrow> if isMembershipWait e then (registrationDependencyRetry, None) else (0, Some e))"

definition registrationReadEvent :: "'w cluster \<Rightarrow> controller \<Rightarrow> Request \<Rightarrow> err option
    \<Rightarrow> ('w, result \<times> err option) handler" where
  "registrationReadEvent C K key e = (case e of
       None \<Rightarrow> ret (registrationReadResult None)
     | Some er \<Rightarrow> do {
         _ \<leftarrow> (if snd (registrationReadResult e) = None
              then registrationEventFor C K key ''Normal'' ''WaitingForMembers'' (errText K er)
              else registrationEventFor C K key ''Warning'' ''SlurmRegistrationFailed'' (errText K er));
         ret (registrationReadResult e) })"

section \<open>Registration\<close>

definition submissionAllowed :: "RegisteredJob list \<Rightarrow> int option \<Rightarrow> pod list \<Rightarrow> (pod \<Rightarrow> bool) \<Rightarrow> bool" where
  "submissionAllowed jobs cooldown members elig =
     (if list_ex (\<lambda>m. \<not> elig m) members then False
      else case cooldown of
        None \<Rightarrow> True
      | Some c \<Rightarrow> c \<noteq> 0 \<and> list_ex (\<lambda>job. AllocationID job = c) jobs)"

definition publishedPod :: "config \<Rightarrow> ExternalJob \<Rightarrow> pod \<Rightarrow> pod" where
  "publishedPod cfg job member =
     (let updated = PodWithMetadata (expandHosts cfg) member job True
      in updated\<lparr>schedulingGates := filter (\<lambda>g. g \<noteq> SchedulingGateRegistration) (schedulingGates updated)\<rparr>)"

fun publishPods :: "'w cluster \<Rightarrow> config \<Rightarrow> ExternalJob \<Rightarrow> pod list \<Rightarrow> ('w, err list) handler" where
  "publishPods C cfg job [] = ret []"
| "publishPods C cfg job (member # members) =
     (if \<not> eligible cfg member then publishPods C cfg job members
      else if member = publishedPod cfg job member then publishPods C cfg job members
      else do {
        r \<leftarrow> doPodPatch C member (publishedPod cfg job member);
        rest \<leftarrow> publishPods C cfg job members;
        ret ((case r of Inl e \<Rightarrow> if err_is NotFound e then [] else [e] | Inr _ \<Rightarrow> []) @ rest) })"

fun publishComponents :: "'w cluster \<Rightarrow> config \<Rightarrow> SlurmJobComponent list \<Rightarrow> ExternalJob list \<Rightarrow> ('w, err list) handler" where
  "publishComponents C cfg (component # cs) (job # jobs) =
     (if Finished job then publishComponents C cfg cs jobs
      else do {
        errs \<leftarrow> publishPods C cfg job (Pods component);
        rest \<leftarrow> publishComponents C cfg cs jobs;
        ret (errs @ rest) })"
| "publishComponents C cfg cs jobs = ret []"

definition publish :: "'w cluster \<Rightarrow> config \<Rightarrow> SlurmJobIR \<Rightarrow> ExternalJob list \<Rightarrow> ('w, err option) handler" where
  "publish C cfg ir components = do {
     errs \<leftarrow> publishComponents C cfg (Components ir) components;
     ret (case join_errs errs of Inl e \<Rightarrow> Some e | Inr _ \<Rightarrow> None) }"

definition submitted :: "'w cluster \<Rightarrow> controller \<Rightarrow> Request \<Rightarrow> err option \<Rightarrow> ('w, result \<times> err option) handler" where
  "submitted C K key e = (case e of
       None \<Rightarrow> do { _ \<leftarrow> clearRegistrationEvent C K key; ret (registrationRetry, None) }
     | Some er \<Rightarrow>
         (case classifyRejection (errno K) e of
            rejectRequest \<Rightarrow> do {
              _ \<leftarrow> registrationEventFor C K key ''Warning'' ''SlurmRegistrationRejected'' (errText K er);
              ret (requestRetry, None) }
          | rejectLimit \<Rightarrow> do {
              _ \<leftarrow> registrationEventFor C K key ''Normal'' ''WaitingForSlurm'' (errText K er);
              ret (limitRetry, None) }
          | rejectOther \<Rightarrow> do {
              _ \<leftarrow> registrationEventFor C K key ''Warning'' ''SlurmRegistrationFailed'' (errText K er);
              ret (registrationRetry, e) }))"

definition register :: "'w cluster \<Rightarrow> controller \<Rightarrow> Request \<Rightarrow> pod \<Rightarrow> SlurmJobIR \<Rightarrow> RegisteredJob list
    \<Rightarrow> ('w, result \<times> err option) handler" where
  "register C K key p ir jobs =
     (if list_ex (\<lambda>job. \<not> Finished job) jobs then do {
        _ \<leftarrow> doRecentDelete C key;
        case MatchAllocationComponents ir jobs of
          Inl e \<Rightarrow> ret (registrationRetry, Some e)
        | Inr None \<Rightarrow> ret (registrationRetry, None)
        | Inr (Some components) \<Rightarrow> do {
            _ \<leftarrow> clearRegistrationEvent C K key;
            e \<leftarrow> publish C (base K) ir components;
            ret (0, e) } }
      else do {
        cooldown \<leftarrow> doRecentGet C key;
        if \<not> submissionAllowed jobs cooldown (AllPods ir) (eligible (base K)) then ret (registrationRetry, None)
        else do {
          r \<leftarrow> doReady C p ir;
          case r of
            Inl e \<Rightarrow> registrationReadEvent C K key (Some e)
          | Inr (ready, msg) \<Rightarrow>
              if \<not> ready then do {
                _ \<leftarrow> registrationEventFor C K key ''Normal'' ''WaitingForMembers'' msg;
                ret (registrationRetry, None) }
              else do {
                s \<leftarrow> doRegister C ir;
                (case s of (e, i) \<Rightarrow> do {
                   _ \<leftarrow> (if (case e of None \<Rightarrow> False | Some e \<Rightarrow> notSubmitted e)
                        then doRecentDelete C key else doRecentSet C key i registrationCooldown);
                   submitted C K key e }) } } })"

section \<open>One reconciliation\<close>

definition allocationOwner :: "RegisteredJob \<Rightarrow> GroupIdentity option" where
  "allocationOwner job = (case CompositePodGroup (info job) of Some g \<Rightarrow> Some g | None \<Rightarrow> PodGroup (info job))"

fun otherQueue :: "Request \<Rightarrow> RegisteredJob list \<Rightarrow> Request option" where
  "otherQueue key [] = None"
| "otherQueue key (job # jobs) = (case allocationOwner job of
       Some g \<Rightarrow> if groupKey g \<noteq> key then Some (groupKey g) else otherQueue key jobs
     | None \<Rightarrow> otherQueue key jobs)"

fun registerPods :: "'w cluster \<Rightarrow> controller \<Rightarrow> Request \<Rightarrow> AllocationIdentity \<Rightarrow> RegisteredJob list \<Rightarrow> pod list
    \<Rightarrow> ('w, result \<times> err option) handler" where
  "registerPods C K key identity jobs [] = ret (0, None)"
| "registerPods C K key identity jobs (p # ps) =
     (if \<not> eligible (base K) p then registerPods C K key identity jobs ps
      else do {
        r \<leftarrow> doTranslate C p;
        case r of
          Inl e \<Rightarrow> registrationReadEvent C K key (Some e)
        | Inr ir \<Rightarrow>
            if allocationKey p (RootPOM ir) \<noteq> key then do {
              _ \<leftarrow> enqueue (allocationKey p (RootPOM ir));
              registerPods C K key identity jobs ps }
            else (case IdentityForAllocation p ir of
                (current, Some e) \<Rightarrow> registrationReadEvent C K key (Some e)
              | (current, None) \<Rightarrow>
                  if Index current \<noteq> Index identity \<or> IKey current \<noteq> IKey identity
                  then ret (registrationRetry, None)
                  else register C K key p ir jobs) })"

definition reconcileAllocation :: "'w cluster \<Rightarrow> controller \<Rightarrow> Request \<Rightarrow> pod list \<Rightarrow> AllocationIdentity
    \<Rightarrow> err option \<Rightarrow> RegisteredJob list \<Rightarrow> ('w, result \<times> err option) handler" where
  "reconcileAllocation C K key pods identity membershipErr jobs =
     (if (case membershipErr of None \<Rightarrow> False | Some e \<Rightarrow> \<not> isMembershipWait e)
      then registrationReadEvent C K key membershipErr
      else do {
        l \<leftarrow> reconcileLifecycle C (base K) key pods jobs;
        case l of
          Inl e \<Rightarrow> ret (registrationRetry, Some e)
        | Inr waiting \<Rightarrow>
            if waiting then ret (registrationRetry, None)
            else if membershipErr \<noteq> None then registrationReadEvent C K key membershipErr
            else registerPods C K key identity jobs (sort_key pname pods) })"

definition joinTwo :: "err option \<Rightarrow> err + unit \<Rightarrow> err option" where
  "joinTwo a b = (case join_errs ((case a of None \<Rightarrow> [] | Some e \<Rightarrow> [e]) @ (case b of Inl e \<Rightarrow> [e] | Inr _ \<Rightarrow> [])) of
       Inl e \<Rightarrow> Some e | Inr _ \<Rightarrow> None)"

definition Reconcile :: "'w cluster \<Rightarrow> controller \<Rightarrow> Request \<Rightarrow> ('w, result \<times> err option) handler" where
  "Reconcile C K key = do {
     ms \<leftarrow> membersFrom C (base K) Cached key;
     (case ms of (pods, identity, membershipErr) \<Rightarrow>
        if Index identity = [] then registrationReadEvent C K key membershipErr
        else do {
          sy \<leftarrow> doSynced C;
          case sy of
            Inl e \<Rightarrow> ret (registrationRetry, Some e)
          | Inr synced \<Rightarrow>
              if \<not> synced then ret (registrationRetry, None)
              else do {
                ix \<leftarrow> IndexedAllocation C identity;
                (case ix of (e, jobs) \<Rightarrow>
                   (case otherQueue key jobs of
                      Some q \<Rightarrow> do { _ \<leftarrow> enqueue q; ret (0, None) }
                    | None \<Rightarrow>
                        (case e of
                           Some er \<Rightarrow>
                             if err_is AmbiguousAllocation er then do {
                               c \<leftarrow> cleanDuplicates C (ranges K) identity pods;
                               ret (registrationRetry, joinTwo (snd (registrationReadResult membershipErr)) c) }
                             else ret (0, e)
                         | None \<Rightarrow> reconcileAllocation C K key pods identity membershipErr jobs))) } }) }"

section \<open>What a lookup accounts for\<close>

definition index_record :: "event set \<Rightarrow> RegisteredJob \<Rightarrow> bool" where
  "index_record E j \<longleftrightarrow> (\<exists>i k items raw. EvByIndex i k (Inr items) \<in> E \<and> raw \<in> set items \<and>
     RegisteredJobFromInfo raw = Inr j)"

definition lookup_ok :: "event set \<Rightarrow> AllocationIdentity \<Rightarrow> RegisteredJob list \<Rightarrow> bool" where
  "lookup_ok E identity jobs \<longleftrightarrow> (\<forall>j\<in>set jobs. index_record E j) \<and>
     (\<exists>items. EvByIndex (Index identity) (IKey identity) (Inr items) \<in> E \<and>
        (\<forall>raw\<in>set items. \<exists>j\<in>set jobs. JobId j = deref 0 (ji_jobId raw)))"

lemma index_record_mono: "index_record E j \<Longrightarrow> E \<subseteq> F \<Longrightarrow> index_record F j"
  unfolding index_record_def by blast

lemma lookup_ok_mono: "lookup_ok E identity jobs \<Longrightarrow> E \<subseteq> F \<Longrightarrow> lookup_ok F identity jobs"
  unfolding lookup_ok_def using index_record_mono by blast

lemma indexCandidates_account:
  assumes "indexCandidates cs old leader conflict jobs = Inr (out, b)"
    "\<forall>i\<in>set old. \<exists>j\<in>set jobs. JobId j = i"
  shows "set jobs \<subseteq> set out \<and> (\<forall>c\<in>set cs. \<exists>j\<in>set out. JobId j = deref 0 (ji_jobId c)) \<and>
    (\<forall>j\<in>set out. j \<in> set jobs \<or> (\<exists>c\<in>set cs. RegisteredJobFromInfo c = Inr j))"
  using assms
proof (induction cs arbitrary: old leader conflict jobs)
  case (Cons c cs)
  obtain job where job: "FromJobInfo (Some c) = Inr job"
    using Cons.prems(1) by (cases "FromJobInfo (Some c)") (auto simp: jobErr_def rbind_def)
  note jid = FromJobInfo_JobId [OF job]
  show ?case
  proof (cases "JobId job \<in> set old")
    case True
    then have "indexCandidates cs old leader conflict jobs = Inr (out, b)"
      using Cons.prems(1) job by (simp add: jobErr_def rbind_def)
    note ih = Cons.IH [OF this Cons.prems(2)]
    have "\<exists>j\<in>set out. JobId j = deref 0 (ji_jobId c)" using True Cons.prems(2) jid ih by (metis subsetD)
    with ih show ?thesis by (simp only: set_simps ball_simps bex_simps) blast
  next
    case False
    obtain i where i: "ParseIntoExternalJobInfo (ji_adminComment c) = Some i"
      using Cons.prems(1) job False by (cases "ParseIntoExternalJobInfo (ji_adminComment c)") (auto simp: jobErr_def rbind_def)
    have "indexCandidates cs (JobId job # old) (if \<not> Finished job then AllocationID job else leader)
        (conflict \<or> (\<not> Finished job \<and> leader \<noteq> 0 \<and> leader \<noteq> AllocationID job)) (jobs @ [registered job i]) = Inr (out, b)"
      using Cons.prems(1) job False i by (simp add: jobErr_def rbind_def Let_def)
    moreover have "\<forall>k\<in>set (JobId job # old). \<exists>j\<in>set (jobs @ [registered job i]). JobId j = k"
      using Cons.prems(2) by simp
    ultimately have ih: "set (jobs @ [registered job i]) \<subseteq> set out \<and>
       (\<forall>c\<in>set cs. \<exists>j\<in>set out. JobId j = deref 0 (ji_jobId c)) \<and>
       (\<forall>j\<in>set out. j \<in> set (jobs @ [registered job i]) \<or> (\<exists>c\<in>set cs. RegisteredJobFromInfo c = Inr j))"
      by (rule Cons.IH)
    have "RegisteredJobFromInfo c = Inr (registered job i)"
      using job i by (simp add: RegisteredJobFromInfo_def jobErr_def rbind_def)
    moreover have "registered job i \<in> set out" "set jobs \<subseteq> set out" using ih by auto
    moreover from this(1) have "\<exists>j\<in>set out. JobId j = deref 0 (ji_jobId c)" using jid by (metis registered_simps(1))
    moreover have "j \<in> set jobs \<or> j = registered job i \<or> (\<exists>c\<in>set cs. RegisteredJobFromInfo c = Inr j)"
      if "j \<in> set out" for j using ih that by auto
    ultimately show ?thesis using ih by (intro conjI ballI) (auto dest!: set_ConsD)
  qed
qed simp

context read_invariant
begin

lemma keeps_legacyLookup: "keeps I (legacyLookup C keys)"
proof (induction keys)
  case (Cons k keys)
  show ?case unfolding legacyLookup.simps by (intro keeps_bind keeps_case_sum keeps_ret keeps_reads Cons.IH)
qed simp

lemma keeps_IndexedAllocation: "keeps I (IndexedAllocation C identity)"
  unfolding IndexedAllocation_def
  by (intro keeps_bind keeps_case_sum keeps_case_prod keeps_if keeps_ret keeps_reads keeps_legacyLookup)

lemma keeps_recordOnce: "keeps I (recordOnce C key ref ev)"
  unfolding recordOnce_def by (intro keeps_bind keeps_if keeps_ret keeps_reads)

lemma keeps_registrationEventFor: "keeps I (registrationEventFor C K key ty why msg)"
  unfolding registrationEventFor_def Let_def by (intro keeps_if keeps_case_sum keeps_ret keeps_recordOnce)

lemma keeps_clearRegistrationEvent: "keeps I (clearRegistrationEvent C K key)"
  unfolding clearRegistrationEvent_def by (intro keeps_if keeps_ret keeps_reads)

lemma keeps_registrationReadEvent: "keeps I (registrationReadEvent C K key e)"
  unfolding registrationReadEvent_def
  by (intro keeps_case_option keeps_bind keeps_if keeps_ret keeps_registrationEventFor)

lemma keeps_submitted: "keeps I (submitted C K key e)"
  unfolding submitted_def
  by (cases "classifyRejection (errno K) e")
    (auto intro!: keeps_case_option keeps_bind keeps_ret keeps_registrationEventFor keeps_clearRegistrationEvent
      split: option.split)

end

lemma legacyLookup_spec:
  "wp (legacyLookup C keys) (\<lambda>r t. \<forall>items. r = Inr items \<longrightarrow> (\<forall>raw\<in>set items. \<exists>i k l. EvByIndex i k (Inr l) \<in> events t \<and> raw \<in> set l)) s"
proof (induction keys arbitrary: s)
  case (Cons k keys)
  let ?Q = "\<lambda>r t. \<forall>items. r = Inr items \<longrightarrow> (\<forall>raw\<in>set items. \<exists>i k l. EvByIndex i k (Inr l) \<in> events t \<and> raw \<in> set l)"
  have "wp (legacyLookup C keys) (\<lambda>r t. events u \<subseteq> events t \<and> ?Q r t) u" for u
    by (intro wp_conj reads_grow run.keeps_legacyLookup Cons.IH)
  then show ?case unfolding legacyLookup.simps call_defs
    apply (intro wp_intros)
    subgoal by simp
    subgoal for r w items
      by (erule meta_allE, erule wp_mono, intro wp_intros)
        (fastforce simp: rmap_def split: sum.splits)
    done
qed simp

lemma IndexedAllocation_spec:
  "wp (IndexedAllocation C identity) (\<lambda>r t. (\<forall>j\<in>set (snd r). index_record (events t) j) \<and>
    (fst r = None \<longrightarrow> lookup_ok (events t) identity (snd r))) s"
proof -
  let ?Q = "\<lambda>r t. (\<forall>j\<in>set (snd r). index_record (events t) j) \<and> (fst r = None \<longrightarrow> lookup_ok (events t) identity (snd r))"
  have all: "(\<forall>j\<in>set jobs. index_record E j) \<and> lookup_ok E identity jobs"
    if "indexCandidates (items @ legacy) [] 0 False [] = Inr (jobs, b)"
      "\<forall>raw\<in>set legacy. \<exists>i k l. EvByIndex i k (Inr l) \<in> E \<and> raw \<in> set l"
      "EvByIndex (Index identity) (IKey identity) (Inr cached) \<in> E" "set cached \<subseteq> set items"
      "EvByIndex i' k' (Inr items) \<in> E" for items legacy jobs b cached i' k' E
  proof -
    have acc: "(\<forall>c\<in>set (items @ legacy). \<exists>j\<in>set jobs. JobId j = deref 0 (ji_jobId c)) \<and>
        (\<forall>j\<in>set jobs. \<exists>c\<in>set (items @ legacy). RegisteredJobFromInfo c = Inr j)"
      using indexCandidates_account [OF that(1)] by simp
    then have "\<forall>j\<in>set jobs. index_record E j"
      using that(2,5) unfolding index_record_def by (metis UnE set_append)
    moreover have "\<forall>raw\<in>set cached. \<exists>j\<in>set jobs. JobId j = deref 0 (ji_jobId raw)" using acc that(4) by auto
    ultimately show ?thesis using that(3) unfolding lookup_ok_def by blast
  qed
  have ok: "?Q (if b then Some AmbiguousAllocation else None, jobs) u"
    if "indexCandidates (items @ legacy) [] 0 False [] = Inr (jobs, b)"
      "\<forall>raw\<in>set legacy. \<exists>i k l. EvByIndex i k (Inr l) \<in> events t \<and> raw \<in> set l" "events t \<subseteq> events u"
      "EvByIndex (Index identity) (IKey identity) (Inr cached) \<in> events u" "set cached \<subseteq> set items"
      "EvByIndex i' k' (Inr items) \<in> events u" for items legacy jobs b cached i' k' and t u :: "('a, event) sys"
  proof -
    have "\<forall>raw\<in>set legacy. \<exists>i k l. EvByIndex i k (Inr l) \<in> events u \<and> raw \<in> set l" using that(2,3) by blast
    from all [OF that(1) this that(4-6)] show ?thesis by simp
  qed
  have legacy: "wp (legacyLookup C keys) R u"
    if "\<And>r t. \<forall>items. r = Inr items \<longrightarrow> (\<forall>raw\<in>set items. \<exists>i k l. EvByIndex i k (Inr l) \<in> events t \<and> raw \<in> set l) \<Longrightarrow> R r t"
    for keys R u
    by (rule wp_mono [OF legacyLookup_spec]) (use that in blast)
  show ?thesis unfolding IndexedAllocation_def call_defs wp_bind
    apply (rule legacy, intro wp_intros)
    subgoal by simp
    subgoal by simp
    subgoal by simp
    subgoal by simp
    subgoal for r t legacy ra w cached rb wa items x jobs b
      by (rule ok [of items legacy jobs b t]) auto
    subgoal by simp
    subgoal by simp
    subgoal for r t legacy ra w cached items x jobs b
      by (rule ok [of items legacy jobs b t]) auto
    done
qed

section \<open>What justifies a submission and a publication\<close>

definition registration_ok :: "config \<Rightarrow> Request \<Rightarrow> event set \<Rightarrow> SlurmJobIR \<Rightarrow> bool" where
  "registration_ok cfg key E ir \<longleftrightarrow> (\<exists>p identity jobs cooldown msg.
     EvTranslate p (Inr ir) \<in> E \<and> eligible cfg p \<and> allocationKey p (RootPOM ir) = key \<and>
     IdentityForAllocation p ir = (identity, None) \<and>
     EvSynced (Inr True) \<in> E \<and> lookup_ok E identity jobs \<and> (\<forall>j\<in>set jobs. Finished j) \<and>
     (\<forall>q\<in>set (AllPods ir). eligible cfg q) \<and> EvReady p ir (Inr (True, msg)) \<in> E \<and>
     EvRecentGet key cooldown \<in> E \<and>
     (\<forall>i. cooldown = Some i \<longrightarrow> i \<noteq> 0 \<and> (\<exists>j\<in>set jobs. AllocationID j = i)))"

definition publish_ok :: "config \<Rightarrow> Request \<Rightarrow> event set \<Rightarrow> RegisteredJob list \<Rightarrow> pod \<Rightarrow> pod \<Rightarrow> bool" where
  "publish_ok cfg key E jobs p q \<longleftrightarrow> (\<exists>p0 ir components n.
     EvTranslate p0 (Inr ir) \<in> E \<and> allocationKey p0 (RootPOM ir) = key \<and>
     MatchAllocationComponents ir jobs = Inr (Some components) \<and>
     n < length (Components ir) \<and> n < length components \<and> p \<in> set (Pods (Components ir ! n)) \<and>
     eligible cfg p \<and> \<not> Finished (components ! n) \<and> q = publishedPod cfg (components ! n) p)"

fun controller_guard :: "config \<Rightarrow> Request \<Rightarrow> RegisteredJob list \<Rightarrow> event list \<Rightarrow> event \<Rightarrow> bool" where
  "controller_guard cfg key jobs past (EvRegister ir r) =
     (registration_ok cfg key (set past) ir \<and> (\<forall>ir' r'. EvRegister ir' r' \<notin> set past))"
| "controller_guard cfg key jobs past (EvPodPatch p q r) =
     (publish_ok cfg key (set past) jobs p q \<or> lifecycle_guard cfg jobs past (EvPodPatch p q r))"
| "controller_guard cfg key jobs past (EvSlurmDelete i r) =
     (duplicate_guard past (EvSlurmDelete i r) \<or> lifecycle_guard cfg jobs past (EvSlurmDelete i r))"
| "controller_guard cfg key jobs past e = lifecycle_guard cfg jobs past e"

lemma controller_guard_reads: "allows_reads (controller_guard cfg key jobs)"
  unfolding allows_reads_def
proof (intro allI impI)
  fix past e assume "is_read e"
  then show "controller_guard cfg key jobs past e" by (cases e) auto
qed

lemma lifecycle_controller: "lifecycle_guard cfg jobs past e \<Longrightarrow> controller_guard cfg key jobs past e"
  by (cases e) auto

lemma duplicate_controller: "duplicate_guard past e \<Longrightarrow> controller_guard cfg key jobs past e"
  by (cases e) auto

interpretation controller: read_invariant "safe (controller_guard cfg key jobs)" for cfg key jobs
  by (rule safe_reads [OF controller_guard_reads])

abbreviation only_reads :: "('w, event) sys \<Rightarrow> bool" where
  "only_reads \<equiv> safe (\<lambda>_. is_read)"

interpretation reads: read_invariant "safe (\<lambda>_. is_read)"
  by (rule safe_reads) (simp add: allows_reads_def)

lemma only_reads_safe: "only_reads s \<Longrightarrow> allows_reads P \<Longrightarrow> safe P s"
  unfolding allows_reads_def by (blast intro: safe_weaken)

lemma safe_event: "safe P s \<Longrightarrow> e \<in> events s \<Longrightarrow> \<exists>past. P past e"
  unfolding safe_def guarded_split by (metis in_set_conv_decomp)

lemma no_register: "guarded_run cfg jobs s \<Longrightarrow> EvRegister ir r \<notin> events s"
  using safe_event [of "lifecycle_guard cfg jobs" s "EvRegister ir r"] by auto

section \<open>The parts of a run\<close>

lemma publishPods_spec:
  assumes "safe (controller_guard cfg key jobs) s"
    "\<forall>p\<in>set ps. eligible cfg p \<longrightarrow> publish_ok cfg key (events s) jobs p (publishedPod cfg job p)"
  shows "wp (publishPods C cfg job ps) (\<lambda>_ t. safe (controller_guard cfg key jobs) t \<and> events s \<subseteq> events t) s"
  using assms
proof (induction ps arbitrary: s)
  case (Cons p ps)
  have mono: "publish_ok cfg key E jobs p q \<Longrightarrow> E \<subseteq> F \<Longrightarrow> publish_ok cfg key F jobs p q" for E F p q
    unfolding publish_ok_def by blast
  have IH: "wp (publishPods C cfg job ps) R t"
    if "safe (controller_guard cfg key jobs) t" "events s \<subseteq> events t"
      "\<And>r u. safe (controller_guard cfg key jobs) u \<Longrightarrow> events s \<subseteq> events u \<Longrightarrow> R r u" for t R
    by (rule wp_mono [OF Cons.IH [OF that(1)]]) (use that(2,3) Cons.prems(2) mono in auto)
  show ?case unfolding publishPods.simps call_defs
    by (intro wp_intros IH) (use Cons.prems in auto)
qed simp

lemma keeps_wpTo:
  assumes "keeps I m" "I t" "events s \<subseteq> events t"
  shows "wp m (\<lambda>_ u. I u \<and> events s \<subseteq> events u) t"
  by (rule wp_mono [OF keepsD [OF assms(1,2)]]) (use assms(3) in auto)

lemma publish_ok_mono: "publish_ok cfg key E jobs p q \<Longrightarrow> E \<subseteq> F \<Longrightarrow> publish_ok cfg key F jobs p q"
  unfolding publish_ok_def by blast

lemma publishComponents_spec:
  assumes "safe (controller_guard cfg key jobs) s"
    "\<forall>n < min (length cs) (length js). \<not> Finished (js ! n) \<longrightarrow> (\<forall>p\<in>set (Pods (cs ! n)). eligible cfg p \<longrightarrow>
       publish_ok cfg key (events s) jobs p (publishedPod cfg (js ! n) p))"
  shows "wp (publishComponents C cfg cs js) (\<lambda>_ t. safe (controller_guard cfg key jobs) t \<and> events s \<subseteq> events t) s"
  using assms
proof (induction cs arbitrary: js s)
  case (Cons c cs)
  show ?case
  proof (cases js)
    case (Cons j js')
    have tail: "\<forall>n < min (length cs) (length js'). \<not> Finished (js' ! n) \<longrightarrow> (\<forall>p\<in>set (Pods (cs ! n)). eligible cfg p \<longrightarrow>
       publish_ok cfg key E jobs p (publishedPod cfg (js' ! n) p))" if "events s \<subseteq> E" for E
    proof (intro allI impI ballI)
      fix n p assume "n < min (length cs) (length js')" "\<not> Finished (js' ! n)" "p \<in> set (Pods (cs ! n))" "eligible cfg p"
      then have "publish_ok cfg key (events s) jobs p (publishedPod cfg (js' ! n) p)"
        using Cons.prems(2) [rule_format, of "Suc n"] Cons by simp
      then show "publish_ok cfg key E jobs p (publishedPod cfg (js' ! n) p)" using that by (rule publish_ok_mono)
    qed
    have IH: "wp (publishComponents C cfg cs js') R t"
      if "safe (controller_guard cfg key jobs) t" "events s \<subseteq> events t"
        "\<And>r u. safe (controller_guard cfg key jobs) u \<Longrightarrow> events s \<subseteq> events u \<Longrightarrow> R r u" for t R
      by (rule wp_mono [OF Cons.IH [OF that(1) tail [OF that(2)]]]) (use that(2,3) in auto)
    have head: "wp (publishPods C cfg j (Pods c)) R s"
      if "\<not> Finished j" "\<And>r u. safe (controller_guard cfg key jobs) u \<Longrightarrow> events s \<subseteq> events u \<Longrightarrow> R r u" for R
      by (rule wp_mono [OF publishPods_spec [OF Cons.prems(1)]])
        (use that Cons.prems(2) [rule_format, of 0] Cons in auto)
    show ?thesis unfolding Cons publishComponents.simps
      by (intro wp_intros IH head) (use Cons.prems(1) in auto)
  qed (use Cons.prems in simp)
qed simp

lemma publish_spec:
  assumes "safe (controller_guard cfg key jobs) s" "EvTranslate p0 (Inr ir) \<in> events s"
    "allocationKey p0 (RootPOM ir) = key" "MatchAllocationComponents ir jobs = Inr (Some components)"
  shows "wp (publish C cfg ir components) (\<lambda>_ t. safe (controller_guard cfg key jobs) t \<and> events s \<subseteq> events t) s"
  unfolding publish_def wp_bind
  by (rule wp_mono [OF publishComponents_spec [OF assms(1)]])
    (use assms in \<open>auto simp: publish_ok_def\<close>)

lemma register_spec:
  assumes s: "safe (controller_guard (base K) key jobs) s" "\<forall>ir r. EvRegister ir r \<notin> events s"
    and p: "EvTranslate p (Inr ir) \<in> events s" "eligible (base K) p" "allocationKey p (RootPOM ir) = key"
      "IdentityForAllocation p ir = (identity, None)"
    and l: "EvSynced (Inr True) \<in> events s" "lookup_ok (events s) identity jobs"
  shows "wp (register C K key p ir jobs) (\<lambda>_ t. safe (controller_guard (base K) key jobs) t \<and> events s \<subseteq> events t) s"
proof -
  let ?P = "controller_guard (base K) key jobs"
  let ?Q = "\<lambda>_ t. safe ?P t \<and> events s \<subseteq> events t"
  have pub: "wp (publish C (base K) ir components) R t"
    if "safe ?P t" "EvTranslate p (Inr ir) \<in> events t" "MatchAllocationComponents ir jobs = Inr (Some components)"
      "\<And>r u. safe ?P u \<Longrightarrow> events t \<subseteq> events u \<Longrightarrow> R r u" for components t R
    by (rule wp_mono [OF publish_spec [OF that(1,2) p(3) that(3)]]) (use that(4) in blast)
  have clear: "wp (clearRegistrationEvent C K key) R t"
    if "safe ?P t" "\<And>r u. safe ?P u \<Longrightarrow> events t \<subseteq> events u \<Longrightarrow> R r u" for t R
    by (rule wp_mono [OF keepsD [OF controller.keeps_clearRegistrationEvent that(1)]]) (use that(2) in blast)
  have ok: "registration_ok (base K) key E ir"
    if "events s \<subseteq> E" "\<not> list_ex (\<lambda>job. \<not> Finished job) jobs" "EvRecentGet key c \<in> E"
      "submissionAllowed jobs c (AllPods ir) (eligible (base K))" "EvReady p ir (Inr (True, msg)) \<in> E" for E c msg
    unfolding registration_ok_def
    using that p l lookup_ok_mono [OF l(2) that(1)]
    by (intro exI [of _ p] exI [of _ identity] exI [of _ jobs] exI [of _ c] exI [of _ msg])
      (auto simp: submissionAllowed_def list_ex_iff split: if_splits option.splits)
  have rest: "wp (submitted C K key e) ?Q t" "wp (registrationReadEvent C K key e') ?Q t"
    "wp (registrationEventFor C K key a b d) (\<lambda>_. wp (ret x) ?Q) t"
    if "safe ?P t" "events s \<subseteq> events t" for e e' t a b d and x :: "result \<times> err option"
    unfolding wp_ret
    by (rule keeps_wpTo [OF controller.keeps_submitted that] keeps_wpTo [OF controller.keeps_registrationReadEvent that]
        keeps_wpTo [OF controller.keeps_registrationEventFor that])+
  show ?thesis unfolding register_def call_defs
    apply (intro wp_intros clear pub rest)
    using s p(1) by (auto intro: ok)
qed

lemma lookup_ok_identity:
  "Index a = Index b \<Longrightarrow> IKey a = IKey b \<Longrightarrow> lookup_ok E a jobs = lookup_ok E b jobs"
  by (simp add: lookup_ok_def)

lemma registerPods_spec:
  assumes "safe (controller_guard (base K) key jobs) s" "\<forall>ir r. EvRegister ir r \<notin> events s"
    "EvSynced (Inr True) \<in> events s" "lookup_ok (events s) identity jobs"
  shows "wp (registerPods C K key identity jobs ps) (\<lambda>_ t. safe (controller_guard (base K) key jobs) t \<and> events s \<subseteq> events t) s"
  using assms
proof (induction ps arbitrary: s)
  case (Cons p ps)
  let ?P = "controller_guard (base K) key jobs"
  let ?Q = "\<lambda>_ t. safe ?P t \<and> events s \<subseteq> events t"
  have read: "wp (registrationReadEvent C K key e) ?Q t" if "safe ?P t" "events s \<subseteq> events t" for e t
    by (rule keeps_wpTo [OF controller.keeps_registrationReadEvent that])
  have IH: "wp (registerPods C K key identity jobs ps) ?Q t"
    if "safe ?P t" "\<forall>ir r. EvRegister ir r \<notin> events t" "events s \<subseteq> events t" for t
    by (rule wp_mono [OF Cons.IH [OF that(1,2)]]) (use that(3) Cons.prems(3) lookup_ok_mono [OF Cons.prems(4)] in auto)
  have reg: "wp (register C K key p ir jobs) ?Q t"
    if "safe ?P t" "\<forall>ir r. EvRegister ir r \<notin> events t" "events s \<subseteq> events t"
      "EvTranslate p (Inr ir) \<in> events t" "eligible (base K) p" "allocationKey p (RootPOM ir) = key"
      "IdentityForAllocation p ir = (current, None)" "Index current = Index identity" "IKey current = IKey identity"
    for ir current t
    by (rule wp_mono [OF register_spec [OF that(1,2,4-7)]])
      (use that(3,8,9) Cons.prems(3) lookup_ok_mono [OF Cons.prems(4)] lookup_ok_identity [of current identity] in auto)
  show ?case unfolding registerPods.simps call_defs
    apply (intro wp_intros)
    subgoal by (rule IH) (use Cons.prems in auto)
    subgoal by (rule read) (use Cons.prems in auto)
    subgoal by (rule IH) (use Cons.prems in auto)
    subgoal using Cons.prems by auto
    subgoal for r w ir current by (rule reg [of _ ir current]) (use Cons.prems in auto)
    subgoal by (rule read) (use Cons.prems in auto)
    done
qed simp

lemma reconcileAllocation_spec:
  assumes ord: "\<And>xs. set (mapOrder (base K) xs) = set xs" and s: "only_reads s"
    and l: "EvSynced (Inr True) \<in> events s" "lookup_ok (events s) identity jobs"
  shows "wp (reconcileAllocation C K key pods identity membershipErr jobs)
    (\<lambda>_ t. safe (controller_guard (base K) key jobs) t \<and> events s \<subseteq> events t) s"
proof -
  let ?P = "controller_guard (base K) key jobs"
  let ?Q = "\<lambda>_ t. safe ?P t \<and> events s \<subseteq> events t"
  have read: "wp (registrationReadEvent C K key e) ?Q t" if "safe ?P t" "events s \<subseteq> events t" for e t
    by (rule keeps_wpTo [OF controller.keeps_registrationReadEvent that])
  have life: "wp (reconcileLifecycle C (base K) key pods jobs) R s"
    if "\<And>r u. safe ?P u \<Longrightarrow> events s \<subseteq> events u \<Longrightarrow> \<forall>ir r. EvRegister ir r \<notin> events u \<Longrightarrow> R r u" for R
    by (rule wp_mono [OF reconcileLifecycle_spec [OF ord only_reads_safe [OF s lifecycle_guard_reads]]], rule that)
      (auto intro: safe_weaken lifecycle_controller dest: no_register)
  have reg: "wp (registerPods C K key identity jobs ps) ?Q t"
    if "safe ?P t" "events s \<subseteq> events t" "\<forall>ir r. EvRegister ir r \<notin> events t" for ps t
    by (rule wp_mono [OF registerPods_spec [OF that(1,3)]])
      (use that(2) l lookup_ok_mono [OF l(2)] in auto)
  have "safe ?P s" by (rule only_reads_safe [OF s controller_guard_reads])
  then show ?thesis unfolding reconcileAllocation_def
    by (intro wp_intros read life reg) auto
qed

lemma Reconcile_spec:
  assumes ord: "\<And>xs. set (mapOrder (base K) xs) = set xs" "orders_ok (ranges K)" and s: "only_reads s"
  shows "wp (Reconcile C K key) (\<lambda>_ t. \<exists>jobs. (\<forall>j\<in>set jobs. index_record (events t) j) \<and>
    safe (controller_guard (base K) key jobs) t) s"
proof -
  let ?Q = "\<lambda>_ t. \<exists>jobs. (\<forall>j\<in>set jobs. index_record (events t) j) \<and> safe (controller_guard (base K) key jobs) t"
  have stop: "?Q r t" if "only_reads t" for r :: 'b and t
    using only_reads_safe [OF that controller_guard_reads] by (intro exI [of _ "[]"]) simp
  have read: "wp (registrationReadEvent C K key e) ?Q t" if "only_reads t" for e t
    by (rule wp_mono [OF keepsD [OF reads.keeps_registrationReadEvent that]]) (use stop in blast)
  have members: "wp (membersFrom C (base K) Cached key) R s" if "\<And>r t. only_reads t \<Longrightarrow> R r t" for R
    by (rule wp_mono [OF keepsD [OF reads.keeps_membersFrom s]]) (use that in blast)
  have indexed: "wp (IndexedAllocation C identity) R t"
    if "only_reads t" "\<And>r u. only_reads u \<Longrightarrow> events t \<subseteq> events u \<Longrightarrow>
      (fst r = None \<Longrightarrow> lookup_ok (events u) identity (snd r)) \<Longrightarrow> R r u" for identity t R
    by (rule keeps_wpI [OF reads.keeps_IndexedAllocation that(1) IndexedAllocation_spec], rule that(2)) auto
  have dup: "wp (cleanDuplicates C (ranges K) identity pods) R t"
    if t: "only_reads t" and R: "\<And>r u. ?Q r u \<Longrightarrow> R r u" for identity pods t R
  proof -
    have "EvSlurmDelete i r \<notin> events t" for i r
      using safe_event [OF t, of "EvSlurmDelete i r"] by auto
    then have "canceled_ok (events t) []" by (simp add: canceled_ok_def cancelled_def get_or_def)
    from cleanDuplicates_spec [OF ord(2) only_reads_safe [OF t duplicate_guard_reads] this] show ?thesis
    proof (rule wp_mono, intro R)
      fix r u assume "safe duplicate_guard u"
      then show "?Q r u" by (intro exI [of _ "[]"] conjI) (auto intro: safe_weaken duplicate_controller)
    qed
  qed
  have alloc: "wp (reconcileAllocation C K key pods identity me jobs) ?Q t"
    if "only_reads t" "EvSynced (Inr True) \<in> events t" "lookup_ok (events t) identity jobs" for pods identity me jobs t
    by (rule wp_mono [OF reconcileAllocation_spec [OF ord(1) that]])
      (use lookup_ok_mono [OF that(3)] in \<open>auto simp: lookup_ok_def\<close>)
  show ?thesis unfolding Reconcile_def call_defs
    by (intro wp_intros members indexed dup read alloc; (assumption | rule stop)?) auto
qed

section \<open>Properties\<close>


definition sample_controller :: controller where
  "sample_controller = \<lparr>base = sample_config, errno = (\<lambda>_. 0), errText = (\<lambda>_. []), eventRecorder = True,
     ranges = same_orders\<rparr>"

definition gated_pod :: pod where
  "gated_pod = empty_pod\<lparr>namespace := ''ns'', pname := ''a'', uid := ''u1'',
     schedulerName := ''slurm-bridge-scheduler'', schedulingGates := [SchedulingGateRegistration]\<rparr>"

definition gated_ir :: SlurmJobIR where
  "gated_ir = \<lparr>RootPOM = sample_meta, Components =
     [\<lparr>ObjectMeta = zeroMeta, JobInfo = emptyJobInfo, Pods = [gated_pod]\<rparr>]\<rparr>"

definition one_pod :: "unit cluster" where
  "one_pod = no_objects\<lparr>podGet := \<lambda>_ _ _ w. (Inr gated_pod, w), workloadRoot := \<lambda>_ _ w. (Inr sample_meta, w),
     translateIR := \<lambda>_ w. (Inr gated_ir, w)\<rparr>"


section \<open>Publication is complete\<close>



lemma matchComponents_length: "matchComponents root aid jobs cs = Inr (Some comps) \<Longrightarrow> length comps = length cs"
proof (induction cs arbitrary: comps)
  case (Cons c cs)
  then obtain f rest where "matchComponents root aid jobs cs = Inr (Some rest)" "comps = f # rest"
    by (auto simp: rbind_eq_Inr rmap_eq_Inr split: option.splits if_splits)
  then show ?case using Cons.IH by simp
qed simp

lemma MatchAllocationComponents_length:
  "MatchAllocationComponents ir jobs = Inr (Some comps) \<Longrightarrow> length comps = length (Components ir)"
  by (auto simp: MatchAllocationComponents_def rbind_def matchComponents_length split: sum.splits if_splits)

definition published :: "config \<Rightarrow> event set \<Rightarrow> ExternalJob \<Rightarrow> pod \<Rightarrow> bool" where
  "published cfg E job p \<longleftrightarrow> p = publishedPod cfg job p \<or>
     (\<exists>r. EvPodPatch p (publishedPod cfg job p) r \<in> E \<and> (case r of Inl e \<Rightarrow> err_is NotFound e | Inr _ \<Rightarrow> True))"

lemma published_mono: "published cfg E job p \<Longrightarrow> E \<subseteq> F \<Longrightarrow> published cfg F job p"
  unfolding published_def by blast

lemma publishPods_complete:
  "wp (publishPods C cfg job ps) (\<lambda>errs t. events s \<subseteq> events t \<and>
    (errs = [] \<longrightarrow> (\<forall>p\<in>set ps. eligible cfg p \<longrightarrow> published cfg (events t) job p))) s"
proof (induction ps arbitrary: s)
  case (Cons p ps)
  show ?case unfolding publishPods.simps call_defs
    apply (intro wp_intros)
    subgoal by (rule wp_mono [OF Cons.IH]) auto
    subgoal by (rule wp_mono [OF Cons.IH]) (auto simp: published_def)
    subgoal for r w
      by (rule wp_mono [OF Cons.IH], intro wp_intros)
        (cases r; auto simp: published_def split: if_splits)
    done
qed simp

lemma publishComponents_complete:
  "wp (publishComponents C cfg cs js) (\<lambda>errs t. events s \<subseteq> events t \<and>
    (errs = [] \<longrightarrow> (\<forall>(c, job)\<in>set (zip cs js). \<not> Finished job \<longrightarrow>
      (\<forall>p\<in>set (Pods c). eligible cfg p \<longrightarrow> published cfg (events t) job p)))) s"
proof (induction cs arbitrary: js s)
  case (Cons c cs)
  show ?case
  proof (cases js)
    case (Cons j js')
    show ?thesis unfolding Cons publishComponents.simps
      apply (intro wp_intros)
      subgoal by (rule wp_mono [OF Cons.IH]) auto
      subgoal
        by (rule wp_mono [OF publishPods_complete], intro wp_intros, rule wp_mono [OF Cons.IH], intro wp_intros)
          (use published_mono in fastforce)
      done
  qed simp
qed simp

text \<open>
  C11.  Publication reaches every Pod.  Once the components of an allocation are matched, there is
  one job per component, so no index is out of range; and when \<open>publish\<close> reports no error, every
  eligible Pod of an unfinished component either already was in its published form or was patched
  to it (or is gone).  The published form has no registration gate, keeps the other gates, carries
  the component's job ID and has the scheduler finalizer.
\<close>

theorem publish_complete:
  assumes "MatchAllocationComponents ir jobs = Inr (Some components)"
  shows "length components = length (Components ir) \<and>
    (let (e, t) = run_state (publish C cfg ir components) s in
     e = None \<longrightarrow> (\<forall>(c, job)\<in>set (zip (Components ir) components). \<not> Finished job \<longrightarrow>
       (\<forall>p\<in>set (Pods c). eligible cfg p \<longrightarrow> published cfg (events t) job p))) \<and>
    (\<forall>job p. id_ok job \<and> \<not> Finished job \<and> eligible cfg p \<longrightarrow>
       (let q = publishedPod cfg job p in
        schedulingGates q = filter (\<lambda>g. g \<noteq> SchedulingGateRegistration) (schedulingGates p) \<and>
        ParseSlurmJobId (label q LabelExternalJobId) = JobId job \<and> FinalizerScheduler \<in> set (finalizers q)))"
proof (intro conjI allI impI)
  show "length components = length (Components ir)" by (rule MatchAllocationComponents_length [OF assms])
  have "wp (publish C cfg ir components) (\<lambda>e t. e = None \<longrightarrow> (\<forall>(c, job)\<in>set (zip (Components ir) components).
      \<not> Finished job \<longrightarrow> (\<forall>p\<in>set (Pods c). eligible cfg p \<longrightarrow> published cfg (events t) job p))) s"
    unfolding publish_def wp_bind
    by (rule wp_mono [OF publishComponents_complete], intro wp_intros) (auto simp: join_errs_def split: if_splits)
  then show "let (e, t) = run_state (publish C cfg ir components) s in
     e = None \<longrightarrow> (\<forall>(c, job)\<in>set (zip (Components ir) components). \<not> Finished job \<longrightarrow>
       (\<forall>p\<in>set (Pods c). eligible cfg p \<longrightarrow> published cfg (events t) job p))"
    by (simp add: wp_def split: prod.splits)
next
  fix job p assume h: "id_ok job \<and> \<not> Finished job \<and> eligible cfg p"
  let ?q = "PodWithMetadata (expandHosts cfg) p job True"
  have "schedulingGates ?q = schedulingGates p" "labels ?q = fixLabels job (labels p)"
    "FinalizerScheduler \<in> set (finalizers ?q)"
    using h by (simp_all add: PodWithMetadata_fixLabels Let_def eligible_def)
  then show "let q = publishedPod cfg job p in
        schedulingGates q = filter (\<lambda>g. g \<noteq> SchedulingGateRegistration) (schedulingGates p) \<and>
        ParseSlurmJobId (label q LabelExternalJobId) = JobId job \<and> FinalizerScheduler \<in> set (finalizers q)"
    using fixLabels_ids(1) [of job "labels p"] h by (simp add: publishedPod_def Let_def label_def)
qed

theorem publish_complete_witness:
  "(let (e, t) = run_state (publish no_objects sample_config gated_ir [externalOf held_registered])
      \<lparr>world = (), trace = []\<rparr> in
    e = None \<and> published sample_config (events t) (externalOf held_registered) gated_pod)"
proof -
  have m: "MatchAllocationComponents gated_ir [held_registered] = Inr (Some [externalOf held_registered])"
    by code_simp
  have f: "\<not> Finished held_registered" "eligible sample_config gated_pod"
    "gated_pod \<noteq> publishedPod sample_config (externalOf held_registered) gated_pod"
    by code_simp+
  have "fst (run_state (publish no_objects sample_config gated_ir [externalOf held_registered])
      \<lparr>world = (), trace = []\<rparr>) = None"
    using f unfolding wp_run [of _ "\<lambda>e _. e = None", symmetric]
    by (simp add: publish_def gated_ir_def call_defs wp_call no_objects_def join_errs_def)
  moreover have "Components gated_ir = [\<lparr>ObjectMeta = zeroMeta, JobInfo = emptyJobInfo, Pods = [gated_pod]\<rparr>]"
    by (simp add: gated_ir_def)
  ultimately show ?thesis
    using publish_complete [OF m, of no_objects sample_config "\<lparr>world = (), trace = []\<rparr>"] f
    by (auto simp: Let_def split: prod.splits)
qed

section \<open>The submission memo\<close>

definition unsubmitted :: "event list \<Rightarrow> ('w, event) sys \<Rightarrow> bool" where
  "unsubmitted tr s \<longleftrightarrow> (\<exists>rest. trace s = tr @ rest \<and> (\<forall>ir x. EvRegister ir x \<notin> set rest))"

lemma unsubmitted_step: "unsubmitted tr s \<Longrightarrow> (\<forall>ir x. e \<noteq> EvRegister ir x) \<Longrightarrow>
    unsubmitted tr (s\<lparr>world := w, trace := trace s @ [e]\<rparr>)"
  unfolding unsubmitted_def by auto

interpretation suffix: read_invariant "unsubmitted tr" for tr
proof unfold_locales
  fix s :: "('a, event) sys" and e w assume "unsubmitted tr s" "is_read e"
  then show "unsubmitted tr (s\<lparr>world := w, trace := trace s @ [e]\<rparr>)"
    by (intro unsubmitted_step) auto
qed

lemma publish_unsubmitted: "keeps (unsubmitted tr) (publish C cfg ir components)"
proof -
  have patch: "keeps (unsubmitted tr) (doPodPatch C p q)" for p q
    unfolding keeps_def call_defs by (auto intro!: wp_callI unsubmitted_step)
  have pods: "keeps (unsubmitted tr) (publishPods C cfg job ps)" for job ps
  proof (induction ps)
    case (Cons p ps)
    show ?case unfolding publishPods.simps by (intro keeps_if keeps_bind keeps_ret patch Cons.IH)
  qed simp
  have "keeps (unsubmitted tr) (publishComponents C cfg cs js)" for cs js
  proof (induction cs arbitrary: js)
    case (Cons c cs)
    show ?case
    proof (cases js)
      case (Cons j js')
      then show ?thesis unfolding Cons publishComponents.simps
        by (intro keeps_if keeps_bind keeps_ret pods Cons.IH)
    qed simp
  qed simp
  then show ?thesis unfolding publish_def by (intro keeps_bind keeps_ret)
qed

definition memo :: "Request \<Rightarrow> err option \<times> int \<Rightarrow> event" where
  "memo key s = (case s of (e, i) \<Rightarrow>
     if (case e of None \<Rightarrow> False | Some e \<Rightarrow> notSubmitted e) then EvRecentDelete key
     else EvRecentSet key i registrationCooldown)"

definition outcome :: "controller \<Rightarrow> err option \<Rightarrow> result \<times> err option" where
  "outcome K e = (case classifyRejection (errno K) e of
       rejectRequest \<Rightarrow> (requestRetry, None)
     | rejectLimit \<Rightarrow> (limitRetry, None)
     | rejectOther \<Rightarrow> (registrationRetry, e))"

lemma classify_None [simp]: "classifyRejection n None = rejectOther"
  by (simp add: classifyRejection_def)

lemma submitted_outcome: "wp (submitted C K key e) (\<lambda>r t. r = outcome K e) s"
proof -
  have "wp m (\<lambda>_. wp (ret x) (\<lambda>r t. r = x)) s" for m :: "('a, unit) handler" and x :: "result \<times> err option"
    by (rule wp_total) simp
  then show ?thesis
    by (cases "classifyRejection (errno K) e"; cases e) (auto simp: submitted_def outcome_def wp_def split: prod.splits)
qed

text \<open>
  C12.  What a submission leaves behind.  A run of \<open>register\<close> either submits nothing or submits the
  workload once; right after a submission the memo is written before anything else: kept with the
  returned ID for two cache periods, or dropped when the failure happened before anything reached
  Slurm.  The answer to the queue is decided by the rejection class: refused requests retry after
  ten minutes and limits after one minute, both without an error; every other failure is returned
  with the error for backoff, and success polls again in two seconds.
\<close>

theorem register_outcome:
  "let (r, t) = run_state (register C K key p ir jobs) s in
    (\<exists>rest. trace t = trace s @ rest \<and> (\<forall>ir' x. EvRegister ir' x \<notin> set rest)) \<or>
    (\<exists>pre answer rest. trace t = trace s @ pre @ [EvRegister ir answer, memo key answer] @ rest \<and>
       (\<forall>ir' x. EvRegister ir' x \<notin> set pre \<union> set rest) \<and> r = outcome K (fst answer))"
proof -
  let ?yes = "\<lambda>r t. \<exists>pre answer rest. trace t = trace s @ pre @ [EvRegister ir answer, memo key answer] @ rest \<and>
       (\<forall>ir' x. EvRegister ir' x \<notin> set pre \<union> set rest) \<and> r = outcome K (fst answer)"
  let ?Q = "\<lambda>r t. unsubmitted (trace s) t \<or> ?yes r t"
  have clear: "wp (clearRegistrationEvent C K key) R t"
    if "unsubmitted (trace s) t" "\<And>r u. unsubmitted (trace s) u \<Longrightarrow> R r u" for R t
    by (rule wp_mono [OF keepsD [OF suffix.keeps_clearRegistrationEvent that(1)]]) (use that(2) in blast)
  have event: "wp (registrationEventFor C K key ty why msg) R t"
    if "unsubmitted (trace s) t" "\<And>r u. unsubmitted (trace s) u \<Longrightarrow> R r u" for ty why msg R t
    by (rule wp_mono [OF keepsD [OF suffix.keeps_registrationEventFor that(1)]]) (use that(2) in blast)
  have pub: "wp (publish C cfg ir comps) R t"
    if "unsubmitted (trace s) t" "\<And>r u. unsubmitted (trace s) u \<Longrightarrow> R r u" for cfg comps R t
    by (rule wp_mono [OF keepsD [OF publish_unsubmitted that(1)]]) (use that(2) in blast)
  have read: "wp (registrationReadEvent C K key e) ?Q t" if "unsubmitted (trace s) t" for e t
    by (rule wp_mono [OF keepsD [OF suffix.keeps_registrationReadEvent that]]) blast
  have sent: "wp (submitted C K key (fst answer)) ?Q t"
    if "trace t = trace s @ pre @ [EvRegister ir answer, memo key answer]" "\<forall>ir' x. EvRegister ir' x \<notin> set pre" for pre answer t
  proof -
    have "unsubmitted (trace t) t" by (simp add: unsubmitted_def)
    from wp_conj [OF keepsD [OF suffix.keeps_submitted this] submitted_outcome]
    show ?thesis
    proof (rule wp_mono, elim conjE)
      fix r u assume u: "unsubmitted (trace t) u" and r: "r = outcome K (fst answer)"
      then obtain rest where "trace u = trace t @ rest" "\<forall>ir x. EvRegister ir x \<notin> set rest"
        unfolding unsubmitted_def by blast
      then show "unsubmitted (trace s) u \<or> ?yes r u"
        using that r by (intro disjI2 exI [of _ pre] exI [of _ answer] exI [of _ rest]) simp
    qed
  qed
  have "wp (register C K key p ir jobs) ?Q s"
    unfolding register_def call_defs
    apply (intro wp_intros)
    subgoal by (rule disjI1) (simp add: unsubmitted_def)
    subgoal by (rule disjI1) (simp add: unsubmitted_def)
    subgoal by (rule clear, simp add: unsubmitted_def, intro wp_intros pub) auto
    subgoal by (rule disjI1) (simp add: unsubmitted_def)
    subgoal by (rule read) (simp add: unsubmitted_def)
    subgoal by (rule event, simp add: unsubmitted_def, intro wp_intros) simp
    subgoal for c w1 r w2 x ready msg a w3 e i
      using sent [of _ "[EvRecentGet key c, EvReady p ir r]" "(e, i)"] by (simp add: memo_def)
    subgoal for c w1 r w2 x ready msg a w3 e i
      using sent [of _ "[EvRecentGet key c, EvReady p ir r]" "(e, i)"] by (simp add: memo_def)
    done
  then show ?thesis unfolding unsubmitted_def by (simp add: wp_def split: prod.splits)
qed

end
