(* ===== verification/Resource_Types.thy ===== *)
theory Resource_Types
  imports Go_Text "HOL-Library.Product_Lexorder" "HOL-Library.List_Lexorder" "HOL-Library.Char_ord"
begin

text \<open>
  The objects of the Kubernetes resource API and of the Slurm node API that the node controller
  reads, with the fields the source uses.  A quantity is its exact value in billionths, the
  finest unit a Kubernetes quantity has.  A CPU set of \<open>k8s.io/utils/cpuset\<close> is the finite set
  of its CPU IDs; \<open>List\<close> returns it in ascending order.  Go compares strings by their bytes,
  which is the lexicographic order on characters imported here.
\<close>

section \<open>Resource slices\<close>

record device_attribute =
  IntValue :: "int option"
  BoolValue :: "bool option"
  StringValue :: "string option"
  IntValues :: "int list"

record device_capacity =
  capacityNanos :: int
  hasRequestPolicy :: bool

record device =
  deviceName :: string
  deviceAttributes :: "(string, device_attribute) gomap"
  deviceCapacity :: "(string, device_capacity) gomap"
  allowMultipleAllocations :: "bool option"

record resource_pool =
  poolName :: string
  poolGeneration :: int
  poolSliceCount :: int

record resource_slice =
  sliceName :: string
  sliceDriver :: string
  sliceNodeName :: "string option"
  hasNodeSelector :: bool
  sliceAllNodes :: "bool option"
  perDeviceNodeSelection :: "bool option"
  slicePool :: resource_pool
  sliceDevices :: "device list"

definition nano :: int where "nano = 1000000000"

section \<open>CPU sets\<close>

type_synonym cpuset = "int set"

abbreviation cpuset_List :: "cpuset \<Rightarrow> int list" where
  "cpuset_List \<equiv> sorted_list_of_set"

text \<open>
  The text form of a CPU set: ranges \<open>lo-hi\<close> and single IDs, separated by commas.  The parser
  is the package's; \<open>cpuset_parse_ok\<close> states its documented behaviour on well-formed text, and
  \<open>cpuset_text_ok\<close> that its printer writes text which denotes the set.
\<close>

definition range_of :: "string \<Rightarrow> (int \<times> int) option" where
  "range_of part = (case cut_at CHR ''-'' part of
     None \<Rightarrow> map_option (\<lambda>n. (n, n)) (parse_int 32 part)
   | Some (lo, hi) \<Rightarrow> (case parse_int 32 lo of None \<Rightarrow> None | Some a \<Rightarrow>
       map_option (\<lambda>b. (a, b)) (parse_int 32 hi)))"

definition ranges_ok :: "string \<Rightarrow> bool" where
  "ranges_ok raw = list_all (\<lambda>part. case range_of part of None \<Rightarrow> False | Some (a, b) \<Rightarrow> 0 \<le> a \<and> a \<le> b)
     (split_on CHR '','' raw)"

definition ranges_set :: "string \<Rightarrow> cpuset" where
  "ranges_set raw = (\<Union>part \<in> set (split_on CHR '','' raw).
     case range_of part of None \<Rightarrow> {} | Some (a, b) \<Rightarrow> {a..b})"

definition cpuset_parse_ok :: "(string \<Rightarrow> string + cpuset) \<Rightarrow> bool" where
  "cpuset_parse_ok parse \<longleftrightarrow> (\<forall>raw. ranges_ok raw \<longrightarrow> parse raw = Inr (ranges_set raw))"

definition model_parse :: "string \<Rightarrow> string + cpuset" where
  "model_parse raw = (if ranges_ok raw then Inr (ranges_set raw) else Inl ''cpuset'')"

lemma model_parse_ok: "cpuset_parse_ok model_parse"
  by (simp add: cpuset_parse_ok_def model_parse_def)

end
