(* ===== verification/Bitmap_Util.thy ===== *)
theory Bitmap_Util
  imports Go_Text "HOL-Library.Word"
begin

text \<open>
  \<open>internal/utils/bitmaputil\<close>: the core bitmaps that Slurm prints as hexadecimal text.  A bitmap
  is a slice of 64-bit blocks, least significant block first.  Setting a bit and ranging over
  the set bits belong to the bitmap package, which is not part of the repository; they are the
  two operations of the record \<open>bitmap_lib\<close>, and \<open>bitmap_lib_ok\<close> states what the package
  documents about them.  The text conversions read and write the blocks directly and are
  translated in full.  The main result is that reading back a printed bitmap restores every bit.
\<close>

section \<open>Bitmaps\<close>

type_synonym bitmap = "64 word list"

definition bit_at :: "bitmap \<Rightarrow> nat \<Rightarrow> bool" where
  "bit_at bm i = (i div 64 < length bm \<and> bit (bm ! (i div 64)) (i mod 64))"

record bitmap_lib =
  bmSet :: "32 word \<Rightarrow> bitmap \<Rightarrow> bitmap"
  bmRange :: "bitmap \<Rightarrow> 32 word list"

definition bitmap_lib_ok :: "bitmap_lib \<Rightarrow> bool" where
  "bitmap_lib_ok L \<longleftrightarrow>
     (\<forall>x bm i. bit_at (bmSet L x bm) i \<longleftrightarrow> i = unat x \<or> bit_at bm i) \<and>
     (\<forall>x bm. length bm \<le> 2 ^ 26 \<longrightarrow> length (bmSet L x bm) \<le> 2 ^ 26) \<and>
     (\<forall>bm. length bm \<le> 2 ^ 26 \<longrightarrow> unat ` set (bmRange L bm) = {i. bit_at bm i})"

definition bitmap_New :: "bitmap_lib \<Rightarrow> int list \<Rightarrow> bitmap" where
  "bitmap_New L idx = foldl (\<lambda>bm i. bmSet L (word_of_int i) bm) [] idx"

definition ToCPUSet :: "bitmap_lib \<Rightarrow> bitmap \<Rightarrow> int set" where
  "ToCPUSet L bm = set (map (\<lambda>idx. int (unat idx)) (bmRange L bm))"

section \<open>Hexadecimal text\<close>

definition hex_char :: "nat \<Rightarrow> char" where
  "hex_char d = (if d < 10 then char_of (48 + d) else char_of (87 + d))"

definition hex_val :: "char \<Rightarrow> nat option" where
  "hex_val c = (let n = of_char c in
     if 48 \<le> n \<and> n \<le> 57 then Some (n - 48)
     else if 97 \<le> n \<and> n \<le> 102 then Some (n - 87)
     else if 65 \<le> n \<and> n \<le> 70 then Some (n - 55)
     else None)"

text \<open>\<open>hex.DecodeString\<close> fails on an odd number of digits and on any other byte.\<close>

fun decode_hex :: "string \<Rightarrow> 8 word list option" where
  "decode_hex [] = Some []"
| "decode_hex [c] = None"
| "decode_hex (a # b # s) = (case hex_val a of None \<Rightarrow> None | Some x \<Rightarrow>
     (case hex_val b of None \<Rightarrow> None | Some y \<Rightarrow>
       map_option ((#) (of_nat (16 * x + y))) (decode_hex s)))"

text \<open>\<open>binary.LittleEndian.Uint64\<close> of eight bytes.\<close>

definition le_uint64 :: "8 word list \<Rightarrow> 64 word" where
  "le_uint64 bs = horner_sum ucast 256 bs"

function pad_block :: "8 word list \<Rightarrow> 8 word list" where
  "pad_block buffer = (if length buffer mod 8 \<noteq> 0 then pad_block (buffer @ [0]) else buffer)"
  by auto
termination
proof (relation "measure (\<lambda>b. (8 - length b mod 8) mod 8)", simp, goal_cases)
  case (1 b)
  then have "0 < length b mod 8" by simp
  moreover have "length b mod 8 < 8" by simp
  ultimately show ?case by (simp add: mod_Suc) linarith
qed

declare pad_block.simps [simp del]

function le_blocks :: "8 word list \<Rightarrow> bitmap" where
  "le_blocks [] = []"
| "le_blocks (b # bs) = le_uint64 (take 8 (b # bs)) # le_blocks (drop 8 (b # bs))"
  by pat_completeness auto
termination by (relation "measure length") auto

definition fromBytes :: "8 word list \<Rightarrow> bitmap" where
  "fromBytes buffer = le_blocks (pad_block buffer)"

definition NewFrom :: "string \<Rightarrow> string + bitmap" where
  "NewFrom s0 =
     (let s1 = (if has_prefix s0 ''0x'' then drop 2 s0 else s0);
          s = (if length s1 mod 2 \<noteq> 0 then CHR ''0'' # s1 else s1)
      in case decode_hex s of
           None \<Rightarrow> Inl ''hex''
         | Some b \<Rightarrow> if length b = 0 then Inr [] else Inr (fromBytes (rev b)))"

text \<open>The verb \<open>%016x\<close> and the printed bitmap.\<close>

definition word_hex :: "64 word \<Rightarrow> string" where
  "word_hex w = map (\<lambda>i. hex_char (unat (take_bit 4 (drop_bit (4 * i) w)))) (rev [0..<16])"

definition bitmap_String :: "bitmap \<Rightarrow> string" where
  "bitmap_String bm = ''0x'' @ dropWhile (\<lambda>c. c = CHR ''0'') (foldl (\<lambda>s b. word_hex b @ s) [] bm)"

section \<open>The number a bitmap stands for\<close>

definition bitmap_val :: "bitmap \<Rightarrow> nat" where
  "bitmap_val bm = horner_sum unat (2 ^ 64) bm"

definition bytes_val :: "8 word list \<Rightarrow> nat" where
  "bytes_val bs = horner_sum unat 256 bs"

definition hex_num :: "string \<Rightarrow> nat" where
  "hex_num s = foldl (\<lambda>a c. 16 * a + the (hex_val c)) 0 s"

lemma bitmap_val_simps [simp]:
  "bitmap_val [] = 0" "bitmap_val (w # ws) = unat w + 2 ^ 64 * bitmap_val ws"
  by (simp_all add: bitmap_val_def)

lemma bytes_val_simps [simp]:
  "bytes_val [] = 0" "bytes_val (w # ws) = unat w + 256 * bytes_val ws"
  by (simp_all add: bytes_val_def)

lemma bytes_val_append: "bytes_val (xs @ ys) = bytes_val xs + 256 ^ length xs * bytes_val ys"
  by (induction xs) (auto simp: algebra_simps)

lemma odd_shift: "odd ((a + 2 ^ 64 * b) div 2 ^ i) \<longleftrightarrow> (if i < 64 then odd (a div 2 ^ i) else odd (b div 2 ^ (i - 64)))"
  if "a < 2 ^ 64" for a b i :: nat
proof (cases "i < 64")
  case True
  then have "(2::nat) ^ 64 = 2 ^ (Suc (63 - i) + i)" by simp
  then have "a + 2 ^ 64 * b = a + (2 * 2 ^ (63 - i) * b) * 2 ^ i"
    unfolding power_add power_Suc by (simp only: mult.assoc mult.commute mult.left_commute)
  then have "(a + 2 ^ 64 * b) div 2 ^ i = 2 * 2 ^ (63 - i) * b + a div 2 ^ i"
    by (simp only: div_mult_self1 power_not_zero zero_neq_numeral not_False_eq_True refl simp_thms)
  then show ?thesis using True by simp
next
  case False
  then have "(2::nat) ^ i = 2 ^ (64 + (i - 64))" by simp
  then have i: "(2::nat) ^ i = 2 ^ 64 * 2 ^ (i - 64)" unfolding power_add .
  show ?thesis unfolding i div_mult2_eq using False that by simp
qed

lemma unat64: "unat (w :: 64 word) < 2 ^ 64"
proof -
  have "unat w < 2 ^ LENGTH(64)" by (rule unsigned_less)
  then show ?thesis by simp
qed

lemma unat8: "unat (w :: 8 word) < 256"
proof -
  have "unat w < 2 ^ LENGTH(8)" by (rule unsigned_less)
  then show ?thesis by simp
qed

lemma bit_at_val: "bit_at bm i \<longleftrightarrow> bit (bitmap_val bm) i"
proof (induction bm arbitrary: i)
  case (Cons w bm)
  have lt: "unat w < 2 ^ 64" using unat64 .
  have w: "bit w k \<longleftrightarrow> odd (unat w div 2 ^ k)" if "k < 64" for k
    using that by (simp add: bit_unsigned_iff flip: bit_iff_odd)
  have "bit_at (w # bm) i \<longleftrightarrow> (if i < 64 then bit w i else bit_at bm (i - 64))"
    by (auto simp: bit_at_def nth_Cons' div_if [of i 64] mod_if [of i 64] Suc_less_eq2
        split: if_splits)
  then show ?case
    unfolding bit_iff_odd bitmap_val_simps odd_shift [OF lt] using w Cons.IH by (simp add: bit_iff_odd)
qed (simp add: bit_at_def)


lemma bytes_val_bound: "bytes_val bs < 256 ^ length bs"
proof (induction bs)
  case (Cons b bs)
  then have "bytes_val bs + 1 \<le> 256 ^ length bs" by simp
  then have "256 * (bytes_val bs + 1) \<le> 256 * 256 ^ length bs" by (rule mult_le_mono2)
  then show ?case using unat8 [of b] by simp
qed simp

lemma le_uint64_of_nat: "le_uint64 bs = of_nat (bytes_val bs)"
  unfolding le_uint64_def by (induction bs) auto

lemma le_uint64_val: "length bs \<le> 8 \<Longrightarrow> unat (le_uint64 bs) = bytes_val bs"
proof -
  assume "length bs \<le> 8"
  then have "(256::nat) ^ length bs \<le> 256 ^ 8" by (rule power_increasing) simp
  then have "bytes_val bs < 2 ^ 64" using bytes_val_bound [of bs] by simp
  then show ?thesis
    by (simp add: le_uint64_of_nat unsigned_of_nat take_bit_nat_eq_self)
qed

lemma le_blocks_val: "8 dvd length bs \<Longrightarrow> bitmap_val (le_blocks bs) = bytes_val bs"
proof (induction bs rule: le_blocks.induct)
  case (2 b bs)
  let ?xs = "b # bs"
  have len: "length (take 8 ?xs) = 8" and dvd: "8 dvd length (drop 8 ?xs)"
    using 2(2) dvd_diff_nat [of 8 "length ?xs" 8] by (auto dest: dvd_imp_le)
  have "bytes_val ?xs = bytes_val (take 8 ?xs) + 256 ^ 8 * bytes_val (drop 8 ?xs)"
    using bytes_val_append [of "take 8 ?xs" "drop 8 ?xs"] len by (simp del: bytes_val_simps)
  then show ?case using 2(1) dvd len by (simp add: le_uint64_val del: bytes_val_simps)
qed simp

lemma pad_block_val: "bytes_val (pad_block bs) = bytes_val bs"
  by (induction bs rule: pad_block.induct)
    (subst pad_block.simps, auto simp: bytes_val_append)

lemma pad_block_length: "8 dvd length (pad_block bs)"
  by (induction bs rule: pad_block.induct) (subst pad_block.simps, auto)

lemma fromBytes_val: "bitmap_val (fromBytes bs) = bytes_val bs"
  by (simp add: fromBytes_def le_blocks_val pad_block_length pad_block_val)

lemma hex_num_foldl: "foldl (\<lambda>a c. 16 * a + the (hex_val c)) k s = k * 16 ^ length s + hex_num s"
  unfolding hex_num_def
proof (induction s arbitrary: k)
  case (Cons c s)
  show ?case using Cons.IH [of "16 * k + the (hex_val c)"] Cons.IH [of "the (hex_val c)"]
    by (simp add: algebra_simps)
qed simp

lemma hex_num_Nil [simp]: "hex_num [] = 0"
  by (simp add: hex_num_def)

lemma hex_num_Cons: "hex_num (c # s) = the (hex_val c) * 16 ^ length s + hex_num s"
  using hex_num_foldl [of "the (hex_val c)" s] by (simp add: hex_num_def)

lemma hex_num_append: "hex_num (s @ t) = hex_num s * 16 ^ length t + hex_num t"
  by (induction s) (auto simp: hex_num_Cons algebra_simps power_add)

lemma hex_val_bound: "hex_val c = Some x \<Longrightarrow> x < 16"
  by (auto simp: hex_val_def Let_def split: if_splits)

lemma decode_hex_Some:
  "even (length s) \<Longrightarrow> \<forall>c\<in>set s. hex_val c \<noteq> None \<Longrightarrow>
    \<exists>bs. decode_hex s = Some bs \<and> length s = 2 * length bs \<and> bytes_val (rev bs) = hex_num s"
proof (induction s rule: decode_hex.induct)
  case (3 a b s)
  then obtain x y where xy: "hex_val a = Some x" "hex_val b = Some y" by auto
  with "3.prems" obtain bs where bs: "decode_hex s = Some bs" "length s = 2 * length bs"
    "bytes_val (rev bs) = hex_num s" using "3.IH" [OF xy] by auto
  have "16 * x + y < 256" using hex_val_bound [OF xy(1)] hex_val_bound [OF xy(2)] by simp
  then have byte: "unat (of_nat (16 * x + y) :: 8 word) = 16 * x + y"
    by (simp add: unsigned_of_nat take_bit_nat_eq_self del: of_nat_add of_nat_mult)
  have "(256::nat) ^ length bs = 16 ^ length s"
    unfolding bs(2) power_mult by simp
  then show ?case using xy bs byte
    by (simp add: bytes_val_append hex_num_Cons algebra_simps)
qed auto

lemma hex_char_val: "d < 16 \<Longrightarrow> hex_val (hex_char d) = Some d"
  by (auto simp: hex_val_def hex_char_def Let_def take_bit_nat_eq_self)

lemma hex_num_digits:
  "hex_num (map (\<lambda>i. hex_char (n div 16 ^ i mod 16)) (rev [0..<k])) = n mod 16 ^ k"
proof (induction k)
  case (Suc k)
  have "n mod 16 ^ Suc k = 16 ^ k * (n div 16 ^ k mod 16) + n mod 16 ^ k"
    by (simp add: power_Suc mod_mult2_eq mult.commute [of 16])
  then show ?case using Suc by (simp add: hex_num_Cons hex_char_val)
qed simp

lemma nibble: "unat (take_bit 4 (drop_bit (4 * i) w)) = unat w div 16 ^ i mod 16" for w :: "64 word"
proof -
  have "unat (take_bit 4 (drop_bit (4 * i) w)) = take_bit 4 (drop_bit (4 * i) (unat w))"
    using unat64 [of w] by (simp add: unsigned_take_bit_eq unsigned_drop_bit_eq take_bit_nat_eq_self)
  then show ?thesis
    by (simp add: take_bit_eq_mod drop_bit_eq_div power_mult)
qed

lemma word_hex_num: "hex_num (word_hex w) = unat w"
proof -
  have "unat w mod 16 ^ 16 = unat w" using unat64 [of w] by simp
  then show ?thesis
    unfolding word_hex_def nibble by (simp only: hex_num_digits)
qed

lemma word_hex_length [simp]: "length (word_hex w) = 16"
  by (simp add: word_hex_def)

lemma word_hex_digits: "c \<in> set (word_hex w) \<Longrightarrow> hex_val c \<noteq> None"
  by (auto simp: word_hex_def nibble hex_char_val)

lemma blocks_hex:
  "hex_num (foldl (\<lambda>s b. word_hex b @ s) t bm) = hex_num t + 16 ^ length t * bitmap_val bm \<and>
   (set t \<subseteq> {c. hex_val c \<noteq> None} \<longrightarrow> set (foldl (\<lambda>s b. word_hex b @ s) t bm) \<subseteq> {c. hex_val c \<noteq> None})"
proof (induction bm arbitrary: t)
  case (Cons w bm)
  show ?case using Cons.IH [of "word_hex w @ t"] word_hex_digits [of _ w]
    by (auto simp: hex_num_append word_hex_num power_add algebra_simps)
qed simp

lemma strip_zeros: "hex_num (dropWhile (\<lambda>c. c = CHR ''0'') s) = hex_num s"
  by (induction s) (auto simp: hex_num_Cons hex_val_def)

lemma NewFrom_hex:
  assumes "\<forall>c\<in>set s. hex_val c \<noteq> None"
  shows "\<exists>bm. NewFrom (''0x'' @ s) = Inr bm \<and> bitmap_val bm = hex_num s"
proof -
  define s' where "s' = (if length s mod 2 \<noteq> 0 then CHR ''0'' # s else s)"
  have "even (length s')" "\<forall>c\<in>set s'. hex_val c \<noteq> None" "hex_num s' = hex_num s"
    using assms by (auto simp: s'_def hex_num_Cons hex_val_def split: if_splits)
  then obtain bs where "decode_hex s' = Some bs" "bytes_val (rev bs) = hex_num s"
    using decode_hex_Some [of s'] by auto
  moreover have "NewFrom (''0x'' @ s) = (case decode_hex s' of None \<Rightarrow> Inl ''hex''
      | Some b \<Rightarrow> if length b = 0 then Inr [] else Inr (fromBytes (rev b)))"
    by (simp add: NewFrom_def has_prefix_def Let_def s'_def)
  ultimately show ?thesis
    by (cases "bs = []") (auto simp: fromBytes_val)
qed

text \<open>
  C27. Reading back the text that \<open>bitmaputil.String\<close> prints succeeds and restores every bit of
  the bitmap; only trailing zero blocks may be dropped.
\<close>

theorem NewFrom_String:
  "\<exists>bm'. NewFrom (bitmap_String bm) = Inr bm' \<and> (\<forall>i. bit_at bm' i = bit_at bm i)"
proof -
  let ?s = "foldl (\<lambda>s b. word_hex b @ s) [] bm"
  have "\<forall>c\<in>set (dropWhile (\<lambda>c. c = CHR ''0'') ?s). hex_val c \<noteq> None"
    using blocks_hex [of "[]" bm] by (auto dest: set_dropWhileD)
  from NewFrom_hex [OF this] blocks_hex [of "[]" bm] show ?thesis
    unfolding bitmap_String_def bit_at_val strip_zeros by auto
qed

section \<open>Building and reading bitmaps\<close>

definition index32 :: "int \<Rightarrow> nat" where
  "index32 i = unat (word_of_int i :: 32 word)"

lemma index32_id: "0 \<le> i \<Longrightarrow> i < 2 ^ 32 \<Longrightarrow> index32 i = nat i"
  by (simp add: index32_def unat_eq_nat_uint unsigned_of_int take_bit_int_eq_self)

lemma bitmap_New_bits:
  assumes "bitmap_lib_ok L" shows "bit_at (bitmap_New L idx) i \<longleftrightarrow> i \<in> index32 ` set idx"
proof -
  have "bit_at (foldl (\<lambda>bm i. bmSet L (word_of_int i) bm) bm idx) i \<longleftrightarrow> bit_at bm i \<or> i \<in> index32 ` set idx" for bm
    using assms by (induction idx arbitrary: bm) (auto simp: bitmap_lib_ok_def index32_def)
  then show ?thesis by (simp add: bitmap_New_def bit_at_def)
qed

lemma bitmap_New_length: "bitmap_lib_ok L \<Longrightarrow> length (bitmap_New L idx) \<le> 2 ^ 26"
proof -
  assume "bitmap_lib_ok L"
  then have "length bm \<le> 2 ^ 26 \<Longrightarrow> length (foldl (\<lambda>bm i. bmSet L (word_of_int i) bm) bm idx) \<le> 2 ^ 26" for bm
    by (induction idx arbitrary: bm) (auto simp: bitmap_lib_ok_def)
  then show ?thesis by (simp add: bitmap_New_def)
qed

lemma range_bits:
  assumes "bitmap_lib_ok L" "length bm \<le> 2 ^ 26"
  shows "unat ` set (bmRange L bm) = {i. bit_at bm i}"
  using assms by (simp add: bitmap_lib_ok_def)

lemma ToCPUSet_New:
  assumes "bitmap_lib_ok L" shows "ToCPUSet L (bitmap_New L idx) = (\<lambda>i. int (index32 i)) ` set idx"
proof -
  have "ToCPUSet L (bitmap_New L idx) = int ` (unat ` set (bmRange L (bitmap_New L idx)))"
    by (simp add: ToCPUSet_def image_image del: int_nat_eq uint_nat)
  also have "\<dots> = int ` (index32 ` set idx)"
    using range_bits [OF assms bitmap_New_length [OF assms]] bitmap_New_bits [OF assms] by auto
  finally show ?thesis by (simp add: image_image)
qed

text \<open>
  A reference implementation of the two package operations, which shows that
  \<open>bitmap_lib_ok\<close> can hold.
\<close>

definition model_bits :: bitmap_lib where
  "model_bits = \<lparr>
     bmSet = (\<lambda>x bm. let b = unat x div 64; g = bm @ replicate (Suc b - length bm) 0
                    in g[b := set_bit (unat x mod 64) (g ! b)]),
     bmRange = (\<lambda>bm. map word_of_nat (filter (bit_at bm) [0..<64 * length bm]))\<rparr>"


lemma bit_at_grow: "bit_at (bm @ replicate k 0) i = bit_at bm i"
  by (auto simp: bit_at_def nth_append)

lemma bit_at_update:
  assumes "b < length bm" "k < 64"
  shows "bit_at (bm[b := set_bit k (bm ! b)]) i \<longleftrightarrow> i = 64 * b + k \<or> bit_at bm i"
proof (cases "i div 64 = b")
  case True
  then have "i = 64 * b + k \<longleftrightarrow> i mod 64 = k" using assms(2) by (metis mod_mult_div_eq add_left_cancel add.commute mult.commute)
  then show ?thesis using True assms by (auto simp: bit_at_def bit_set_bit_iff)
next
  case False
  then have "i \<noteq> 64 * b + k" using assms(2) by auto
  then show ?thesis using False by (auto simp: bit_at_def)
qed

lemma model_bits_ok: "bitmap_lib_ok model_bits"
  unfolding bitmap_lib_ok_def
proof (intro conjI allI impI)
  fix x :: "32 word" and bm :: bitmap and i
  let ?b = "unat x div 64" and ?g = "bm @ replicate (Suc (unat x div 64) - length bm) 0"
  have x: "unat x < 2 ^ 32" using unsigned_less [of x] by simp
  have "bit_at (bmSet model_bits x bm) i \<longleftrightarrow> i = 64 * ?b + unat x mod 64 \<or> bit_at ?g i"
    unfolding model_bits_def bitmap_lib.simps Let_def by (rule bit_at_update) auto
  then show "bit_at (bmSet model_bits x bm) i \<longleftrightarrow> i = unat x \<or> bit_at bm i"
    by (simp add: bit_at_grow)
  assume "length bm \<le> 2 ^ 26"
  then show "length (bmSet model_bits x bm) \<le> 2 ^ 26"
    using x by (simp add: model_bits_def Let_def)
next
  fix bm :: bitmap
  assume len: "length bm \<le> 2 ^ 26"
  have lt: "i < 64 * length bm" if "bit_at bm i" for i using that by (auto simp: bit_at_def)
  have "unat (word_of_nat i :: 32 word) = i" if "bit_at bm i" for i
    using lt [OF that] len by (simp add: unsigned_of_nat take_bit_nat_eq_self)
  then show "unat ` set (bmRange model_bits bm) = {i. bit_at bm i}"
    using lt by (auto simp: model_bits_def image_iff)
qed

end
