(* ===== verification/Cpu_Topology.thy ===== *)
theory Cpu_Topology
  imports Resource_Types Bitmap_Util
begin

text \<open>
  \<open>internal/nodeinfo/cpuinfo.go\<close> and \<open>cpumap.go\<close>: the CPUs that a DRA CPU driver publishes
  and the map between Slurm's abstract cores and the machine's CPUs.  The parameter \<open>parse\<close> is
  \<open>cpuset.Parse\<close>.  Errors carry a short tag instead of the formatted message.
\<close>

section \<open>CPU information\<close>

datatype core_type = CoreTypeUndefined | CoreTypeStandard | CoreTypePerformance | CoreTypeEfficiency

record CPUInfo =
  Name :: string
  CpuID :: int
  CoreID :: int
  SocketID :: int
  NUMANodeID :: "int option"
  SiblingCpuID :: cpuset
  CoreType :: core_type

definition DraDriverCpu :: string where "DraDriverCpu = ''dra.cpu''"
definition DraDriverCpu_SocketID :: string where "DraDriverCpu_SocketID = ''dra.cpu/socketID''"
definition DraDriverCpu_NUMANodeID :: string where "DraDriverCpu_NUMANodeID = ''dra.cpu/numaNodeID''"
definition DraDriverCpu_CPUIDs :: string where "DraDriverCpu_CPUIDs = ''dra.cpu/cpuIDs''"
definition DraDriverCpu_SMTLayout :: string where "DraDriverCpu_SMTLayout = ''dra.cpu/smtLayout''"
definition DraDriverCpu_SMTEnabled :: string where "DraDriverCpu_SMTEnabled = ''dra.cpu/smtEnabled''"
definition DraDriverCpu_Capacity :: string where "DraDriverCpu_Capacity = ''dra.cpu/cpu''"
definition maxTopologyCPUs :: int where "maxTopologyCPUs = 65535"

definition requiredCPUIntegerAttribute :: "device \<Rightarrow> string \<Rightarrow> string + int" where
  "requiredCPUIntegerAttribute d name =
     (case map_of (deviceAttributes d) name of
        None \<Rightarrow> Inl ''integer attribute''
      | Some a \<Rightarrow> (case IntValue a of
          None \<Rightarrow> Inl ''integer attribute''
        | Some v \<Rightarrow> if v < 0 \<or> v > max_int32 then Inl ''attribute range'' else Inr v))"

definition requiredCPUStringAttribute :: "device \<Rightarrow> string \<Rightarrow> string + string" where
  "requiredCPUStringAttribute d name =
     (case map_of (deviceAttributes d) name of
        None \<Rightarrow> Inl ''string attribute''
      | Some a \<Rightarrow> (case StringValue a of
          None \<Rightarrow> Inl ''string attribute''
        | Some v \<Rightarrow> if v = [] then Inl ''string attribute'' else Inr v))"

text \<open>
  \<open>parseCPUSet\<close> first adds up the range sizes, so that a huge range is rejected before it is
  expanded.  The running sum stays below \<open>2 ^ 32\<close>, so the 64-bit addition does not wrap.
\<close>

fun cpuset_size :: "int \<Rightarrow> string list \<Rightarrow> string + int" where
  "cpuset_size sz [] = Inr sz"
| "cpuset_size sz (part # parts) =
     (let (lo, hi, ranged) = (case cut_at CHR ''-'' part of
            None \<Rightarrow> (part, [], False) | Some (a, b) \<Rightarrow> (a, b, True))
      in case parse_int 32 lo of
           None \<Rightarrow> Inl ''range''
         | Some start \<Rightarrow>
             if start < 0 then Inl ''range''
             else (case (if ranged then parse_int 32 hi else Some start) of
                 None \<Rightarrow> Inl ''range''
               | Some stop \<Rightarrow>
                   if stop < start then Inl ''range''
                   else if sz + (stop - start + 1) > maxTopologyCPUs then Inl ''size''
                   else cpuset_size (sz + (stop - start + 1)) parts))"

definition parseCPUSet :: "(string \<Rightarrow> string + cpuset) \<Rightarrow> string \<Rightarrow> string + cpuset" where
  "parseCPUSet parse raw =
     rbind (cpuset_size 0 (split_on CHR '','' raw)) (\<lambda>sz.
     rbind (parse raw) (\<lambda>cpus.
       if cpus = {} \<or> int (card cpus) \<noteq> sz then Inl ''duplicate'' else Inr cpus))"

text \<open>
  \<open>decodeSMTLayout\<close>: the inner loop pairs the CPUs of one atom, the outer loop walks the atoms.
\<close>

fun smt_pairs :: "cpuset \<Rightarrow> bool \<Rightarrow> int \<Rightarrow> int list \<Rightarrow> (int, int) gomap \<Rightarrow> string + (int, int) gomap" where
  "smt_pairs cpus strided stride [] m = Inr m"
| "smt_pairs cpus strided stride (cpu # rest) m =
     (if map_of m cpu \<noteq> None then smt_pairs cpus strided stride rest m
      else if \<not> strided then smt_pairs cpus strided stride rest (AList.update cpu (- 1) m)
      else if cpu + stride > max_int32 \<or> cpu + stride \<notin> cpus then Inl ''no sibling''
      else if map_of m (cpu + stride) \<noteq> None then Inl ''multiple siblings''
      else smt_pairs cpus strided stride rest
             (AList.update (cpu + stride) cpu (AList.update cpu (cpu + stride) m)))"

fun smt_atoms :: "(string \<Rightarrow> string + cpuset) \<Rightarrow> string list \<Rightarrow> (int, int) gomap \<Rightarrow> string + (int, int) gomap" where
  "smt_atoms parse [] m = Inr m"
| "smt_atoms parse (atom # atoms) m =
     (let (cpuList, strideText, strided) = (case cut_at CHR ''>'' atom of
            None \<Rightarrow> (atom, [], False) | Some (a, b) \<Rightarrow> (a, b, True))
      in rbind (parseCPUSet parse cpuList) (\<lambda>cpus.
         if list_ex (\<lambda>cpu. map_of m cpu \<noteq> None) (cpuset_List cpus) then Inl ''duplicate CPU''
         else rbind (if strided then (case parse_int 32 strideText of
                  None \<Rightarrow> Inl ''stride'' | Some k \<Rightarrow> if k \<le> 0 then Inl ''stride'' else Inr k) else Inr 0) (\<lambda>stride.
         rbind (smt_pairs cpus strided stride (cpuset_List cpus) m) (\<lambda>m'.
         if int (length m') > maxTopologyCPUs then Inl ''SMT size'' else smt_atoms parse atoms m'))))"

definition decodeSMTLayout :: "(string \<Rightarrow> string + cpuset) \<Rightarrow> string \<Rightarrow> string + (int, int) gomap" where
  "decodeSMTLayout parse raw = smt_atoms parse (split_on CHR '';'' raw) []"

text \<open>
  \<open>NewCPUInfos\<close>: each device is checked and expanded into its CPUs; a core is named after its
  lowest allocatable CPU.
\<close>

definition core_of :: "cpuset \<Rightarrow> int \<Rightarrow> int \<Rightarrow> int" where
  "core_of cpus cpu sibling = (if sibling \<ge> 0 \<and> sibling \<in> cpus then min cpu sibling else cpu)"

definition cpu_info :: "device \<Rightarrow> int \<Rightarrow> int option \<Rightarrow> bool \<Rightarrow> cpuset \<Rightarrow> (int, int) gomap \<Rightarrow> int \<Rightarrow> string + CPUInfo" where
  "cpu_info d socket numaNode smt cpus siblings cpu =
     (case map_of siblings cpu of
        None \<Rightarrow> Inl ''missing from SMT map''
      | Some sibling \<Rightarrow>
          if \<not> smt \<and> sibling \<ge> 0 then Inl ''SMT disabled''
          else Inr \<lparr>Name = deviceName d, CpuID = cpu, CoreID = core_of cpus cpu sibling, SocketID = socket,
                 NUMANodeID = numaNode, SiblingCpuID = {}, CoreType = CoreTypeStandard\<rparr>)"

definition device_infos :: "(string \<Rightarrow> string + cpuset) \<Rightarrow> device \<Rightarrow> string + CPUInfo list" where
  "device_infos parse d =
     rbind (requiredCPUIntegerAttribute d DraDriverCpu_SocketID) (\<lambda>socket.
     rbind (if map_of (deviceAttributes d) DraDriverCpu_NUMANodeID = None then Inr None
            else rmap Some (requiredCPUIntegerAttribute d DraDriverCpu_NUMANodeID)) (\<lambda>numaNode.
     case Option.bind (map_of (deviceAttributes d) DraDriverCpu_SMTEnabled) BoolValue of
       None \<Rightarrow> Inl ''smtEnabled''
     | Some smt \<Rightarrow>
     rbind (requiredCPUStringAttribute d DraDriverCpu_CPUIDs) (\<lambda>rawCPUs.
     rbind (parseCPUSet parse rawCPUs) (\<lambda>cpus.
     case map_of (deviceCapacity d) DraDriverCpu_Capacity of
       None \<Rightarrow> Inl ''capacity''
     | Some capacity \<Rightarrow>
     if capacityNanos capacity \<noteq> int (card cpus) * nano \<or> hasRequestPolicy capacity then Inl ''capacity''
     else if \<not> deref False (allowMultipleAllocations d) then Inl ''multiple allocations''
     else rbind (requiredCPUStringAttribute d DraDriverCpu_SMTLayout) (\<lambda>rawSMT.
     rbind (decodeSMTLayout parse rawSMT) (\<lambda>siblings.
     collect (cpu_info d socket numaNode smt cpus siblings) (cpuset_List cpus)))))))"

definition NewCPUInfos :: "(string \<Rightarrow> string + cpuset) \<Rightarrow> resource_slice option \<Rightarrow> string + CPUInfo list" where
  "NewCPUInfos parse rSlice =
     (case rSlice of
        None \<Rightarrow> Inl ''nil slice''
      | Some s \<Rightarrow>
          if sliceDriver s \<noteq> DraDriverCpu then Inl ''driver''
          else if length (sliceDevices s) = 0 then Inl ''no devices''
          else rmap concat (collect (device_infos parse) (sliceDevices s)))"


section \<open>Parsed CPU sets\<close>

definition part_set :: "string \<Rightarrow> cpuset" where
  "part_set part = (case range_of part of None \<Rightarrow> {} | Some (a, b) \<Rightarrow> {a..b})"

lemma part_set_finite [simp]: "finite (part_set p)"
  by (simp add: part_set_def split: option.splits)

lemma part_set_le: "part_set p \<subseteq> {..max_int32}"
  using parse_int_range [of 32]
  by (force simp: part_set_def range_of_def max_int32_def split: option.splits prod.splits)

lemma cpuset_size_ok:
  assumes "cpuset_size sz parts = Inr n"
  shows "list_all (\<lambda>p. case range_of p of None \<Rightarrow> False | Some (a, b) \<Rightarrow> 0 \<le> a \<and> a \<le> b) parts \<and>
    n = sz + int (sum_list (map (\<lambda>p. card (part_set p)) parts)) \<and> (sz \<le> maxTopologyCPUs \<longrightarrow> n \<le> maxTopologyCPUs)"
  using assms
proof (induction parts arbitrary: sz)
  case (Cons part parts)
  obtain a b where r: "range_of part = Some (a, b)" "0 \<le> a" "a \<le> b"
    and rec: "cpuset_size (sz + (b - a + 1)) parts = Inr n"
    and sz: "\<not> sz + (b - a + 1) > maxTopologyCPUs"
    using Cons.prems by (auto simp: range_of_def Let_def split: option.splits if_splits prod.splits)
  show ?case using Cons.IH [OF rec] r sz by (simp add: part_set_def)
qed simp

lemma union_card_disjoint:
  assumes "card (\<Union> (set Ss)) = sum_list (map card Ss)" "\<forall>S\<in>set Ss. finite S"
  shows "i < j \<Longrightarrow> j < length Ss \<Longrightarrow> Ss ! i \<inter> Ss ! j = {}"
  using assms
proof (induction Ss arbitrary: i j)
  case (Cons S Ss)
  let ?U = "\<Union> (set Ss)"
  have fin: "finite S" "finite ?U" using Cons.prems by auto
  have "card ?U \<le> sum_list (map card Ss)"
    by (induction Ss) (auto intro: order_trans [OF card_Un_le])
  moreover have "card (S \<union> ?U) + card (S \<inter> ?U) = card S + card ?U"
    using card_Un_Int [OF fin] by simp
  moreover have "card (S \<union> ?U) = card S + sum_list (map card Ss)" using Cons.prems by simp
  ultimately have eq: "card ?U = sum_list (map card Ss)" and "card (S \<inter> ?U) = 0" by linarith+
  then have disj: "S \<inter> ?U = {}" using fin by (metis card_0_eq finite_Int)
  show ?case
  proof (cases i)
    case 0
    then have "Ss ! (j - 1) \<in> set Ss" using Cons.prems by (cases j) auto
    then have "Ss ! (j - 1) \<subseteq> ?U" by blast
    then have "S \<inter> Ss ! (j - 1) = {}" using disj by blast
    then show ?thesis using 0 Cons.prems(1) by (cases j) simp_all
  next
    case (Suc i')
    then show ?thesis using Cons.IH [of i' "j - 1"] Cons.prems eq by (cases j) auto
  qed
qed simp

lemma ranges_set_parts: "ranges_set raw = \<Union> (set (map part_set (split_on CHR '','' raw)))"
  by (auto simp: ranges_set_def part_set_def)

lemma parseCPUSet_Inr:
  assumes "cpuset_parse_ok parse" "parseCPUSet parse raw = Inr cpus"
  shows "ranges_ok raw" "cpus = ranges_set raw" "cpus \<noteq> {}" "finite cpus"
    "cpus \<subseteq> {0..max_int32}" "int (card cpus) \<le> maxTopologyCPUs"
    "card cpus = sum_list (map card (map part_set (split_on CHR '','' raw)))"
proof -
  obtain n where n: "cpuset_size 0 (split_on CHR '','' raw) = Inr n" and p: "parse raw = Inr cpus"
    and c: "cpus \<noteq> {}" "int (card cpus) = n"
    using assms(2) by (auto simp: parseCPUSet_def rbind_eq_Inr split: if_splits)
  note ok = cpuset_size_ok [OF n]
  show r: "ranges_ok raw" using ok by (simp add: ranges_ok_def)
  then show e: "cpus = ranges_set raw" using p assms(1) by (auto simp: cpuset_parse_ok_def)
  show "cpus \<noteq> {}" by (fact c)
  show "finite cpus" unfolding e ranges_set_parts by auto
  have "x \<ge> 0" if "x \<in> cpus" for x
    using that r unfolding e by (force simp: ranges_set_def ranges_ok_def list_all_iff split: option.splits)
  moreover have "x \<le> max_int32" if "x \<in> cpus" for x
    using that part_set_le unfolding e ranges_set_parts by fastforce
  ultimately show "cpus \<subseteq> {0..max_int32}" by auto
  show "int (card cpus) \<le> maxTopologyCPUs" using ok c by (simp add: maxTopologyCPUs_def)
  show "card cpus = sum_list (map card (map part_set (split_on CHR '','' raw)))"
    using ok c by (simp add: comp_def)
qed

text \<open>
  C28. A CPU list that \<open>parseCPUSet\<close> accepts names between 1 and 65535 CPUs, all with IDs that
  fit a 32-bit integer, and its comma-separated parts are pairwise disjoint.
\<close>

theorem parseCPUSet_bounds:
  assumes "cpuset_parse_ok parse" "parseCPUSet parse raw = Inr cpus"
  shows "cpus \<subseteq> {0..2147483647} \<and> 1 \<le> card cpus \<and> card cpus \<le> 65535 \<and>
    cpus = \<Union> (set (map part_set (split_on CHR '','' raw))) \<and>
    (\<forall>j < length (split_on CHR '','' raw). \<forall>i < j.
       part_set (split_on CHR '','' raw ! i) \<inter> part_set (split_on CHR '','' raw ! j) = {})"
proof -
  note P = parseCPUSet_Inr [OF assms]
  have "card (\<Union> (set (map part_set (split_on CHR '','' raw)))) =
      sum_list (map card (map part_set (split_on CHR '','' raw)))"
    using P(7) unfolding P(2) ranges_set_parts .
  from union_card_disjoint [OF this] have
    "part_set (split_on CHR '','' raw ! i) \<inter> part_set (split_on CHR '','' raw ! j) = {}"
    if "i < j" "j < length (split_on CHR '','' raw)" for i j
    using that by fastforce
  moreover have "1 \<le> card cpus" using P(3,4) by (simp add: Suc_le_eq card_gt_0_iff)
  ultimately show ?thesis using P(2,5,6) ranges_set_parts
    by (simp add: max_int32_def maxTopologyCPUs_def)
qed

section \<open>SMT siblings\<close>

text \<open>
  A decoded layout is a partial pairing: a CPU has no sibling (\<open>-1\<close>) or a different one, whose
  sibling it is in turn.
\<close>

definition smt_ok :: "(int, int) gomap \<Rightarrow> bool" where
  "smt_ok m \<longleftrightarrow> (\<forall>a b. map_of m a = Some b \<longrightarrow> 0 \<le> a \<and> (b = - 1 \<or> 0 \<le> b \<and> b \<noteq> a \<and> map_of m b = Some a))"

lemma smt_ok_single: "smt_ok m \<Longrightarrow> map_of m a = None \<Longrightarrow> 0 \<le> a \<Longrightarrow> smt_ok (AList.update a (- 1) m)"
  unfolding smt_ok_def gomap_lookup_update by (metis option.distinct(1) option.inject)

lemma smt_ok_pair:
  assumes "smt_ok m" "map_of m a = None" "map_of m b = None" "0 \<le> a" "0 \<le> b" "a \<noteq> b"
  shows "smt_ok (AList.update b a (AList.update a b m))"
  using assms unfolding smt_ok_def gomap_lookup_update by (metis option.distinct(1) option.inject)

lemma smt_pairs_ok:
  assumes "smt_pairs cpus strided stride cs m = Inr m'" "smt_ok m" "cpus \<subseteq> {0..}" "set cs \<subseteq> cpus"
    "strided \<longrightarrow> 0 < stride"
  shows "smt_ok m' \<and> dom (map_of m) \<union> set cs \<subseteq> dom (map_of m') \<and> dom (map_of m') \<subseteq> dom (map_of m) \<union> cpus"
  using assms
proof (induction cpus strided stride cs m rule: smt_pairs.induct)
  case (2 cpus strided stride cpu rest m)
  have "map_of m cpu \<noteq> None \<or> map_of m cpu = None \<and> \<not> strided \<or>
      map_of m cpu = None \<and> strided \<and> cpu + stride \<in> cpus \<and> \<not> cpu + stride > max_int32 \<and>
        map_of m (cpu + stride) = None"
    using "2.prems"(1) by (auto split: if_splits)
  note paths = this and cpu = "2.prems"(3,4)
  have pos: "0 \<le> cpu" and rest: "set rest \<subseteq> cpus" using cpu by auto
  note IHprems = "2.prems"(3) rest "2.prems"(5)
  from paths show ?case
  proof (elim disjE conjE)
    assume c: "map_of m cpu \<noteq> None"
    then have "smt_pairs cpus strided stride rest m = Inr m'" using "2.prems"(1) by simp
    from "2.IH"(1) [OF c this "2.prems"(2) IHprems] show ?thesis using c by auto
  next
    assume c: "map_of m cpu = None" "\<not> strided"
    have nn: "\<not> map_of m cpu \<noteq> None" using c(1) by simp
    have "smt_pairs cpus strided stride rest (AList.update cpu (- 1) m) = Inr m'"
      using "2.prems"(1) c by simp
    from "2.IH"(2) [OF nn c(2) this smt_ok_single [OF "2.prems"(2) c(1) pos] IHprems] cpu(2)
    show ?thesis unfolding dom_upd_alist by (simp add: insert_absorb)
  next
    assume c: "map_of m cpu = None" "strided" "cpu + stride \<in> cpus" "\<not> cpu + stride > max_int32"
        "map_of m (cpu + stride) = None"
    let ?m = "AList.update (cpu + stride) cpu (AList.update cpu (cpu + stride) m)"
    have run: "smt_pairs cpus strided stride rest ?m = Inr m'" using "2.prems"(1) c by simp
    have "smt_ok ?m" using "2.prems"(2,5) c pos by (intro smt_ok_pair) auto
    have nn: "\<not> map_of m cpu \<noteq> None" "\<not> \<not> strided"
      "\<not> (cpu + stride > max_int32 \<or> cpu + stride \<notin> cpus)" "\<not> map_of m (cpu + stride) \<noteq> None"
      using c by simp_all
    from "2.IH"(3) [OF nn run \<open>smt_ok ?m\<close> IHprems] c(3) cpu(2)
    show ?thesis unfolding dom_upd_alist by (simp add: insert_absorb)
  qed
qed auto

lemma smt_atoms_ok:
  assumes "cpuset_parse_ok parse" "smt_atoms parse atoms m = Inr m'" "smt_ok m"
  shows "smt_ok m'"
  using assms(2,3)
proof (induction atoms arbitrary: m)
  case (Cons atom atoms)
  obtain cpuList strideText strided where cut: "(case cut_at CHR ''>'' atom of
            None \<Rightarrow> (atom, [], False) | Some (a, b) \<Rightarrow> (a, b, True)) = (cpuList, strideText, strided)"
    by (cases "case cut_at CHR ''>'' atom of
            None \<Rightarrow> (atom, [], False) | Some (a, b) \<Rightarrow> (a, b, True)") auto
  let ?stride = "if strided then the (parse_int 32 strideText) else 0"
  have "\<exists>cpus m1. parseCPUSet parse cpuList = Inr cpus \<and> (strided \<longrightarrow> 0 < ?stride) \<and>
      smt_pairs cpus strided ?stride (cpuset_List cpus) m = Inr m1 \<and> smt_atoms parse atoms m1 = Inr m'"
    using Cons.prems(1) unfolding smt_atoms.simps cut Let_def prod.case rbind_eq_Inr
    by (elim exE conjE, simp only: rbind_eq_Inr split: if_split_asm option.split_asm)
      (auto split: if_split_asm option.split_asm)
  then obtain cpus m1 where p: "parseCPUSet parse cpuList = Inr cpus"
    and st: "strided \<longrightarrow> 0 < ?stride" and pr: "smt_pairs cpus strided ?stride (cpuset_List cpus) m = Inr m1"
    and rest: "smt_atoms parse atoms m1 = Inr m'" by blast
  note P = parseCPUSet_Inr [OF assms(1) p]
  have "cpus \<subseteq> {0..}" "set (cpuset_List cpus) \<subseteq> cpus" using P(4,5) by auto
  then have "smt_ok m1"
    using smt_pairs_ok [OF pr Cons.prems(2) _ _ st] by blast
  from Cons.IH [OF rest this] show ?case .
qed simp

lemma decodeSMTLayout_ok: "cpuset_parse_ok parse \<Longrightarrow> decodeSMTLayout parse raw = Inr m \<Longrightarrow> smt_ok m"
  unfolding decodeSMTLayout_def by (rule smt_atoms_ok) (auto simp: smt_ok_def)

lemma core_of_cases: "core_of cpus c s = c \<or> core_of cpus c s = s \<and> 0 \<le> s"
  by (simp add: core_of_def min_def)

lemma core_of_eq:
  assumes m: "smt_ok m" and cd: "c \<in> cpus" "d \<in> cpus"
    and s: "map_of m c = Some sc" "map_of m d = Some sd"
  shows "core_of cpus c sc = core_of cpus d sd \<longleftrightarrow> c = d \<or> sc = d"
proof -
  have pos: "0 \<le> c" "0 \<le> d" using m s by (auto simp: smt_ok_def)
  have inv: "map_of m b = Some a" if "map_of m a = Some b" "0 \<le> b" for a b
    using m [unfolded smt_ok_def, rule_format, OF that(1)] that(2) by simp
  have 1: "sc = d" if "0 \<le> sc" "sc = sd" "0 \<le> sd" "c \<noteq> d"
    using inv [OF s(1)] inv [OF s(2)] that by simp
  have 2: "sd = c \<longleftrightarrow> sc = d"
    using inv [OF s(1)] inv [OF s(2)] s pos by auto
  show ?thesis
  proof (cases "c = d")
    case True
    then have "sc = sd" using s by (metis option.inject)
    then show ?thesis using True by blast
  next
    case False
    have "sc = d" if eq: "core_of cpus c sc = core_of cpus d sd"
    proof -
      from core_of_cases [of cpus c sc] core_of_cases [of cpus d sd] show ?thesis
        using 1 2 eq False by (elim disjE conjE) simp_all
    qed
    moreover have "core_of cpus c sc = core_of cpus d sd" if "sc = d"
      using that 2 cd pos by (simp add: core_of_def min.commute)
    ultimately show ?thesis using False by blast
  qed
qed


section \<open>Expanded devices\<close>

lemma device_infos_Inr:
  assumes "device_infos parse d = Inr infos"
  obtains socket numaNode smt rawCPUs cpus rawSMT siblings where
    "requiredCPUIntegerAttribute d DraDriverCpu_SocketID = Inr socket"
    "requiredCPUStringAttribute d DraDriverCpu_CPUIDs = Inr rawCPUs" "parseCPUSet parse rawCPUs = Inr cpus"
    "requiredCPUStringAttribute d DraDriverCpu_SMTLayout = Inr rawSMT"
    "decodeSMTLayout parse rawSMT = Inr siblings"
    "collect (cpu_info d socket numaNode smt cpus siblings) (cpuset_List cpus) = Inr infos"
proof -
  from assms show thesis
    unfolding device_infos_def
    by (elim rbind_InrE if_InrE case_option_InrE) (rule that)
qed


lemma cpu_info_Inr:
  assumes "cpu_info d socket numaNode smt cpus siblings cpu = Inr x"
  shows "CpuID x = cpu \<and> SocketID x = socket \<and> NUMANodeID x = numaNode \<and> Name x = deviceName d \<and>
    CoreType x = CoreTypeStandard \<and>
    (\<exists>s. map_of siblings cpu = Some s \<and> CoreID x = core_of cpus cpu s)"
  using assms unfolding cpu_info_def by (elim result_elims) auto

lemma expand_Inr:
  assumes "collect (cpu_info d socket numaNode smt cpus siblings) cs = Inr infos"
  shows "map CpuID infos = cs \<and> (\<forall>x\<in>set infos. CpuID x \<in> set cs \<and> SocketID x = socket \<and> NUMANodeID x = numaNode \<and>
    Name x = deviceName d \<and> CoreType x = CoreTypeStandard \<and>
    (\<exists>s. map_of siblings (CpuID x) = Some s \<and> CoreID x = core_of cpus (CpuID x) s))"
  using assms
proof (induction cs arbitrary: infos)
  case (Cons c cs)
  then obtain x xs where x: "cpu_info d socket numaNode smt cpus siblings c = Inr x"
    and xs: "collect (cpu_info d socket numaNode smt cpus siblings) cs = Inr xs" and eq: "infos = x # xs"
    by (auto simp: rbind_eq_Inr rmap_eq_Inr)
  show ?case using cpu_info_Inr [OF x] Cons.IH [OF xs] by (auto simp: eq)
qed simp

text \<open>
  C29. A CPU device that \<open>NewCPUInfos\<close> accepts yields exactly its allocatable CPUs, once each.
  Two of them get the same core ID exactly when they are the same CPU or SMT siblings in the
  published layout, so a core never has more than two CPUs.
\<close>

theorem device_infos_cores:
  assumes "cpuset_parse_ok parse" "device_infos parse d = Inr infos"
  shows "\<exists>rawCPUs cpus rawSMT siblings.
    requiredCPUStringAttribute d DraDriverCpu_CPUIDs = Inr rawCPUs \<and> parseCPUSet parse rawCPUs = Inr cpus \<and>
    requiredCPUStringAttribute d DraDriverCpu_SMTLayout = Inr rawSMT \<and> decodeSMTLayout parse rawSMT = Inr siblings \<and>
    map CpuID infos = cpuset_List cpus \<and>
    (\<forall>x\<in>set infos. \<forall>y\<in>set infos. CoreID x = CoreID y \<longleftrightarrow>
       CpuID x = CpuID y \<or> map_of siblings (CpuID x) = Some (CpuID y)) \<and>
    (\<forall>x\<in>set infos. card (CpuID ` {y\<in>set infos. CoreID y = CoreID x}) \<le> 2)"
proof -
  obtain socket numaNode smt rawCPUs cpus rawSMT siblings where
    raw: "requiredCPUStringAttribute d DraDriverCpu_CPUIDs = Inr rawCPUs" "parseCPUSet parse rawCPUs = Inr cpus"
    "requiredCPUStringAttribute d DraDriverCpu_SMTLayout = Inr rawSMT" "decodeSMTLayout parse rawSMT = Inr siblings"
    and run: "collect (cpu_info d socket numaNode smt cpus siblings) (cpuset_List cpus) = Inr infos"
    by (rule device_infos_Inr [OF assms(2)])
  note E = expand_Inr [OF run]
  have fin: "finite cpus" using parseCPUSet_Inr(4) [OF assms(1) raw(2)] .
  have cores: "CoreID x = CoreID y \<longleftrightarrow> CpuID x = CpuID y \<or> map_of siblings (CpuID x) = Some (CpuID y)"
    if xy: "x \<in> set infos" "y \<in> set infos" for x y
  proof -
    obtain sx sy where s: "map_of siblings (CpuID x) = Some sx" "CoreID x = core_of cpus (CpuID x) sx"
      "map_of siblings (CpuID y) = Some sy" "CoreID y = core_of cpus (CpuID y) sy"
      using E xy by blast
    have "CpuID x \<in> cpus" "CpuID y \<in> cpus" using E xy fin by auto
    from core_of_eq [OF decodeSMTLayout_ok [OF assms(1) raw(4)] this s(1,3)] show ?thesis
      unfolding s(1) s(2) s(4) by simp
  qed
  have "card (CpuID ` {y\<in>set infos. CoreID y = CoreID x}) \<le> 2" if x: "x \<in> set infos" for x
  proof -
    have "CpuID ` {y\<in>set infos. CoreID y = CoreID x} \<subseteq> {CpuID x, the (map_of siblings (CpuID x))}"
      using cores [OF x] by force
    then have "card (CpuID ` {y\<in>set infos. CoreID y = CoreID x}) \<le> card {CpuID x, the (map_of siblings (CpuID x))}"
      by (intro card_mono) auto
    also have "\<dots> \<le> 2" by (simp add: card_insert_if)
    finally show ?thesis .
  qed
  then show ?thesis using raw E cores by blast
qed


section \<open>Sample device\<close>

definition int_attribute :: "int \<Rightarrow> device_attribute" where
  "int_attribute i = \<lparr>IntValue = Some i, BoolValue = None, StringValue = None, IntValues = []\<rparr>"

definition string_attribute :: "string \<Rightarrow> device_attribute" where
  "string_attribute v = \<lparr>IntValue = None, BoolValue = None, StringValue = Some v, IntValues = []\<rparr>"

definition sample_device :: "string \<Rightarrow> int \<Rightarrow> string \<Rightarrow> int \<Rightarrow> string \<Rightarrow> device" where
  "sample_device name socket cpus n layout = \<lparr>deviceName = name,
     deviceAttributes = [(''dra.cpu/socketID'', int_attribute socket),
       (''dra.cpu/smtEnabled'', \<lparr>IntValue = None, BoolValue = Some True, StringValue = None, IntValues = []\<rparr>),
       (''dra.cpu/cpuIDs'', string_attribute cpus), (''dra.cpu/smtLayout'', string_attribute layout)],
     deviceCapacity = [(''dra.cpu/cpu'', \<lparr>capacityNanos = n * 1000000000, hasRequestPolicy = False\<rparr>)],
     allowMultipleAllocations = Some True\<rparr>"

lemmas parse_evals = parseCPUSet_def model_parse_def ranges_ok_def ranges_set_def range_of_def
  parse_int_def parse_uint_def digits_val_def digit_val_def is_digit_def maxTopologyCPUs_def Let_def

lemma sample_parse: "parseCPUSet model_parse ''0-1,4'' = Inr {0, 1, 4}"
proof -
  have "{0..1} \<union> {4 :: int} = {0, 1, 4}" by auto
  then show ?thesis by (simp add: parse_evals)
qed

theorem parseCPUSet_bounds_witness:
  "parseCPUSet model_parse ''0-1,4'' = Inr {0, 1, 4} \<and> {0, 1, 4 :: int} \<subseteq> {0..2147483647} \<and>
    part_set (split_on CHR '','' ''0-1,4'' ! 0) \<inter> part_set (split_on CHR '','' ''0-1,4'' ! 1) = {}"
proof -
  note T = parseCPUSet_bounds [OF model_parse_ok sample_parse]
  have "length (split_on CHR '','' ''0-1,4'') = 2" by simp
  then have "part_set (split_on CHR '','' ''0-1,4'' ! 0) \<inter> part_set (split_on CHR '','' ''0-1,4'' ! 1) = {}"
    using T by (metis one_less_numeral_iff semiring_norm(76) zero_less_one)
  then show ?thesis using T sample_parse by blast
qed

lemma sample_cpus: "parseCPUSet model_parse ''0-1'' = Inr {0, 1}"
proof -
  have "{0..1} = {0, 1 :: int}" by auto
  then show ?thesis by (simp add: parse_evals)
qed

lemma sample_list: "cpuset_List {0, 1} = [0, 1]"
  by simp

lemma sample_layout: "decodeSMTLayout model_parse ''0-1>1'' = Inr [(0, 1), (1, 0)]"
  by (simp add: decodeSMTLayout_def sample_cpus Let_def parse_int_def parse_uint_def digits_val_def digit_val_def
      is_digit_def maxTopologyCPUs_def max_int32_def)

definition sample_thread :: "int \<Rightarrow> CPUInfo" where
  "sample_thread cpu = \<lparr>Name = ''s0'', CpuID = cpu, CoreID = 0, SocketID = 0, NUMANodeID = None,
     SiblingCpuID = {}, CoreType = CoreTypeStandard\<rparr>"

lemma sample_infos:
  "device_infos model_parse (sample_device ''s0'' 0 ''0-1'' 2 ''0-1>1'') = Inr [sample_thread 0, sample_thread 1]"
  by (simp add: sample_thread_def core_of_def device_infos_def sample_device_def int_attribute_def string_attribute_def sample_layout
      sample_cpus requiredCPUIntegerAttribute_def requiredCPUStringAttribute_def DraDriverCpu_SocketID_def
      DraDriverCpu_NUMANodeID_def DraDriverCpu_SMTEnabled_def DraDriverCpu_CPUIDs_def DraDriverCpu_Capacity_def
      DraDriverCpu_SMTLayout_def cpu_info_def nano_def max_int32_def)

theorem device_infos_cores_witness:
  "\<exists>infos. device_infos model_parse (sample_device ''s0'' 0 ''0-1'' 2 ''0-1>1'') = Inr infos \<and>
     map CpuID infos = [0, 1] \<and> card (CpuID ` {y\<in>set infos. CoreID y = CoreID (infos ! 0)}) \<le> 2"
proof -
  obtain infos where run: "device_infos model_parse (sample_device ''s0'' 0 ''0-1'' 2 ''0-1>1'') = Inr infos"
    and ids: "map CpuID infos = [0, 1]"
    using sample_infos by (auto simp: sample_thread_def)
  have "length infos = 2" using arg_cong [OF ids, of length] by simp
  then have mem: "infos ! 0 \<in> set infos" by simp
  from device_infos_cores [OF model_parse_ok run]
  have "card (CpuID ` {y\<in>set infos. CoreID y = CoreID (infos ! 0)}) \<le> 2"
    by (elim exE conjE) (erule bspec [OF _ mem])
  with run ids show ?thesis by (intro exI conjI)
qed

end
