(* ===== verification/Cpu_Map.thy ===== *)
theory Cpu_Map
  imports Cpu_Topology
begin

text \<open>
  \<open>internal/nodeinfo/cpumap.go\<close>: the map between Slurm's abstract cores and the machine's
  CPUs.  The source sorts the slice of CPU records in place and stores the sibling set in each
  record through its pointer; the model returns the sorted records next to the map.  The results
  are that the two directions of the map are inverse to each other and that the cores partition
  the CPUs they cover.
\<close>

section \<open>Definitions\<close>

record CPUMap =
  Pool :: string
  CPUInfoMap :: "(int, CPUInfo) gomap"
  AbstractToMachine :: "cpuset list"
  MachineToAbstract :: "(int, int) gomap"

definition empty_cpumap :: CPUMap where
  "empty_cpumap = \<lparr>Pool = [], CPUInfoMap = [], AbstractToMachine = [], MachineToAbstract = []\<rparr>"

definition GetOnesBitmap :: "bitmap_lib \<Rightarrow> CPUMap \<Rightarrow> bitmap" where
  "GetOnesBitmap L cpuMap = bitmap_New L (map int [0..<length (AbstractToMachine cpuMap)])"

definition ToAbstractCPUs :: "bitmap_lib \<Rightarrow> CPUMap \<Rightarrow> cpuset \<Rightarrow> bitmap" where
  "ToAbstractCPUs L cpuMap macCpuSet =
     bitmap_New L (List.map_filter (map_of (MachineToAbstract cpuMap)) (cpuset_List macCpuSet))"

definition ToMachineCPUs :: "bitmap_lib \<Rightarrow> CPUMap \<Rightarrow> bitmap \<Rightarrow> cpuset" where
  "ToMachineCPUs L cpuMap absBitmap =
     set (concat (map (\<lambda>idx. if unat idx \<ge> length (AbstractToMachine cpuMap) then []
        else cpuset_List (AbstractToMachine cpuMap ! unat idx)) (bmRange L absBitmap)))"

definition findCoreSiblings :: "CPUInfo list \<Rightarrow> CPUInfo \<Rightarrow> cpuset" where
  "findCoreSiblings cpuInfos sibling =
     set (map CpuID (filter (\<lambda>c. SocketID sibling = SocketID c \<and> CoreID sibling = CoreID c) cpuInfos))"

definition cpu_order :: "CPUInfo \<Rightarrow> int \<times> int \<times> int \<times> int" where
  "cpu_order c = (SocketID c, deref (- 1) (NUMANodeID c), CoreID c, CpuID c)"

text \<open>The body of the loop over the sorted records.\<close>

definition addCore :: "CPUInfo list \<Rightarrow> CPUInfo \<Rightarrow> (int, CPUInfo) gomap \<times> cpuset list \<Rightarrow> (int, CPUInfo) gomap \<times> cpuset list" where
  "addCore cpuInfos c st = (case st of (infoMap, a2m) \<Rightarrow>
     if CoreType c = CoreTypeEfficiency then (AList.update (CpuID c) c infoMap, a2m)
     else (let coreSiblings = findCoreSiblings cpuInfos c
           in (AList.update (CpuID c) (c\<lparr>SiblingCpuID := coreSiblings\<rparr>) infoMap,
               if coreSiblings \<in> set a2m then a2m else a2m @ [coreSiblings])))"

definition machineMap :: "cpuset list \<Rightarrow> (int, int) gomap" where
  "machineMap a2m = fold (\<lambda>(absIdx, coreSiblings) m.
     fold (\<lambda>macIdx m. AList.update macIdx (int absIdx) m) (cpuset_List coreSiblings) m) (enumerate 0 a2m) []"

definition NewCPUMap :: "string \<Rightarrow> CPUInfo list \<Rightarrow> CPUMap" where
  "NewCPUMap pool cpuInfos0 =
     (let cpuInfos = sort_key cpu_order cpuInfos0;
          (infoMap, a2m) = fold (addCore cpuInfos) cpuInfos ([], [])
      in \<lparr>Pool = pool, CPUInfoMap = infoMap, AbstractToMachine = a2m, MachineToAbstract = machineMap a2m\<rparr>)"

section \<open>The cores of a map\<close>

text \<open>
  \<open>core_list\<close> lists the sibling sets in the order in which the loop meets them, without
  repetitions.
\<close>

definition core_list :: "CPUInfo list \<Rightarrow> CPUInfo list \<Rightarrow> cpuset list" where
  "core_list all cs = map (findCoreSiblings all) (filter (\<lambda>c. CoreType c \<noteq> CoreTypeEfficiency) cs)"

lemma addCore_cores:
  "snd (fold (addCore all) cs (m, a2m)) = fold (\<lambda>s a. if s \<in> set a then a else a @ [s]) (core_list all cs) a2m"
  by (induction cs arbitrary: m a2m) (auto simp: addCore_def core_list_def Let_def)

lemma collect_new_set: "set (fold (\<lambda>s a. if s \<in> set a then a else a @ [s]) ss a) = set a \<union> set ss"
  by (induction ss arbitrary: a) auto

lemma collect_new_distinct:
  "distinct a \<Longrightarrow> distinct (fold (\<lambda>s a. if s \<in> set a then a else a @ [s]) ss a)"
  by (induction ss arbitrary: a) auto

lemma NewCPUMap_sel:
  "Pool (NewCPUMap pool infos) = pool"
  "CPUInfoMap (NewCPUMap pool infos) =
     fst (fold (addCore (sort_key cpu_order infos)) (sort_key cpu_order infos) ([], []))"
  "AbstractToMachine (NewCPUMap pool infos) =
     snd (fold (addCore (sort_key cpu_order infos)) (sort_key cpu_order infos) ([], []))"
  "MachineToAbstract (NewCPUMap pool infos) = machineMap (AbstractToMachine (NewCPUMap pool infos))"
  by (simp_all add: NewCPUMap_def Let_def split: prod.splits)

lemma NewCPUMap_cores:
  "set (AbstractToMachine (NewCPUMap pool infos)) =
     findCoreSiblings infos ` {c \<in> set infos. CoreType c \<noteq> CoreTypeEfficiency}"
  "distinct (AbstractToMachine (NewCPUMap pool infos))"
proof -
  have "findCoreSiblings (sort_key cpu_order infos) = findCoreSiblings infos"
    by (auto simp: findCoreSiblings_def fun_eq_iff)
  then show "set (AbstractToMachine (NewCPUMap pool infos)) =
     findCoreSiblings infos ` {c \<in> set infos. CoreType c \<noteq> CoreTypeEfficiency}"
    by (simp add: NewCPUMap_sel addCore_cores collect_new_set core_list_def)
  show "distinct (AbstractToMachine (NewCPUMap pool infos))"
    by (simp add: NewCPUMap_sel addCore_cores collect_new_distinct)
qed

text \<open>A partition into numbered cores: the contract that the two directions of the map rely on.\<close>

definition cores_ok :: "cpuset list \<Rightarrow> bool" where
  "cores_ok a2m \<longleftrightarrow> (\<forall>s\<in>set a2m. finite s \<and> s \<noteq> {}) \<and>
     (\<forall>i j c. i < length a2m \<longrightarrow> j < length a2m \<longrightarrow> c \<in> a2m ! i \<longrightarrow> c \<in> a2m ! j \<longrightarrow> i = j)"

lemma siblings_overlap:
  assumes "distinct (map CpuID infos)" "c \<in> findCoreSiblings infos x" "c \<in> findCoreSiblings infos y"
  shows "findCoreSiblings infos x = findCoreSiblings infos y"
proof -
  obtain a b where ab: "a \<in> set infos" "CpuID a = c" "SocketID x = SocketID a" "CoreID x = CoreID a"
    "b \<in> set infos" "CpuID b = c" "SocketID y = SocketID b" "CoreID y = CoreID b"
    using assms(2,3) by (auto simp: findCoreSiblings_def)
  have "a = b" using assms(1) ab by (auto simp: distinct_map inj_on_def)
  then show ?thesis using ab by (simp add: findCoreSiblings_def)
qed

lemma NewCPUMap_cores_ok:
  assumes "distinct (map CpuID infos)"
  shows "cores_ok (AbstractToMachine (NewCPUMap pool infos))"
  unfolding cores_ok_def
proof (intro conjI ballI allI impI)
  fix s assume "s \<in> set (AbstractToMachine (NewCPUMap pool infos))"
  then show "finite s" "s \<noteq> {}"
    unfolding NewCPUMap_cores by (auto simp: findCoreSiblings_def)
next
  let ?a = "AbstractToMachine (NewCPUMap pool infos)"
  fix i j c
  assume ij: "i < length ?a" "j < length ?a" "c \<in> ?a ! i" "c \<in> ?a ! j"
  have core: "\<exists>x. ?a ! k = findCoreSiblings infos x" if "k < length ?a" for k
    using nth_mem [OF that] unfolding NewCPUMap_cores by auto
  obtain x where x: "?a ! i = findCoreSiblings infos x" using core [OF ij(1)] ..
  obtain y where y: "?a ! j = findCoreSiblings infos y" using core [OF ij(2)] ..
  have "?a ! i = ?a ! j"
    unfolding x y by (rule siblings_overlap [OF assms ij(3) [unfolded x] ij(4) [unfolded y]])
  with NewCPUMap_cores(2) ij(1,2) show "i = j" by (simp add: nth_eq_iff_index_eq)
qed


lemma fold_update_const:
  "map_of (fold (\<lambda>k m. AList.update k v m) ks m) c = (if c \<in> set ks then Some v else map_of m c)"
  by (induction ks arbitrary: m) auto

lemma machineMap_enum:
  assumes "cores_ok a2m" "n \<le> length a2m"
  shows "map_of (fold (\<lambda>(absIdx, s) m. fold (\<lambda>k m. AList.update k (int absIdx) m) (cpuset_List s) m)
      (take n (enumerate 0 a2m)) []) c = Some i \<longleftrightarrow> 0 \<le> i \<and> nat i < n \<and> c \<in> a2m ! nat i"
  using assms(2)
proof (induction n arbitrary: i)
  case (Suc n)
  have fin: "finite (a2m ! n)" using assms(1) Suc.prems by (auto simp: cores_ok_def)
  have only: "k = n" if "k < Suc n" "c \<in> a2m ! k" "c \<in> a2m ! n" for k
    using assms(1) that Suc.prems unfolding cores_ok_def by (metis Suc_le_lessD less_le_trans)
  have step: "map_of (fold (\<lambda>(absIdx, s) m. fold (\<lambda>k m. AList.update k (int absIdx) m) (cpuset_List s) m)
      (take (Suc n) (enumerate 0 a2m)) []) c = (if c \<in> a2m ! n then Some (int n) else
    map_of (fold (\<lambda>(absIdx, s) m. fold (\<lambda>k m. AList.update k (int absIdx) m) (cpuset_List s) m)
      (take n (enumerate 0 a2m)) []) c)"
    using Suc.prems fin by (simp add: take_Suc_conv_app_nth nth_enumerate_eq fold_update_const)
  show ?case
  proof (cases "c \<in> a2m ! n")
    case True
    have "int n = i \<longleftrightarrow> 0 \<le> i \<and> nat i < Suc n \<and> c \<in> a2m ! nat i"
      using only [of "nat i"] True by auto
    then show ?thesis unfolding step using True by simp
  next
    case False
    have "nat i < n \<longleftrightarrow> nat i < Suc n" if "c \<in> a2m ! nat i" using that False by (auto simp: less_Suc_eq)
    then show ?thesis unfolding step using False Suc.IH [of i] Suc.prems by auto
  qed
qed simp

lemma machineMap_iff:
  assumes "cores_ok a2m"
  shows "map_of (machineMap a2m) c = Some i \<longleftrightarrow> 0 \<le> i \<and> nat i < length a2m \<and> c \<in> a2m ! nat i"
  using machineMap_enum [OF assms, of "length a2m" c i] by (simp add: machineMap_def)

section \<open>Translation of allocations\<close>

text \<open>
  \<open>cpumap_ok\<close>: the cores partition their CPUs, the reverse map is theirs, and core numbers fit
  the 32-bit indexes of a bitmap.
\<close>

definition cpumap_ok :: "CPUMap \<Rightarrow> bool" where
  "cpumap_ok cm \<longleftrightarrow> cores_ok (AbstractToMachine cm) \<and> length (AbstractToMachine cm) < 2 ^ 32 \<and>
     (\<forall>c i. map_of (MachineToAbstract cm) c = Some i \<longleftrightarrow>
        0 \<le> i \<and> nat i < length (AbstractToMachine cm) \<and> c \<in> AbstractToMachine cm ! nat i)"

lemma core_length: "length (fold (\<lambda>s a. if s \<in> set a then a else a @ [s]) ss a) \<le> length a + length ss"
proof (induction ss arbitrary: a)
  case (Cons s ss)
  show ?case using Cons.IH [of a] Cons.IH [of "a @ [s]"] by simp
qed simp

lemma NewCPUMap_length: "length (AbstractToMachine (NewCPUMap pool infos)) \<le> length infos"
proof -
  let ?s = "sort_key cpu_order infos"
  have "length (AbstractToMachine (NewCPUMap pool infos)) \<le> length (core_list ?s ?s)"
    using core_length [of "core_list ?s ?s" "[]"] by (simp add: NewCPUMap_sel addCore_cores)
  also have "\<dots> \<le> length infos"
    unfolding core_list_def length_map by (rule order_trans [OF length_filter_le]) simp
  finally show ?thesis .
qed

lemma NewCPUMap_ok:
  assumes "distinct (map CpuID infos)" "length infos < 2 ^ 32"
  shows "cpumap_ok (NewCPUMap pool infos)"
  unfolding cpumap_ok_def NewCPUMap_sel(4)
  using NewCPUMap_cores_ok [OF assms(1)] machineMap_iff [OF NewCPUMap_cores_ok [OF assms(1)]]
    NewCPUMap_length [of pool infos] assms(2) by (auto intro: le_less_trans)

lemma core_finite: "cpumap_ok cm \<Longrightarrow> i < length (AbstractToMachine cm) \<Longrightarrow> finite (AbstractToMachine cm ! i)"
  by (simp add: cpumap_ok_def cores_ok_def)

lemma core_unique:
  "cpumap_ok cm \<Longrightarrow> i < length (AbstractToMachine cm) \<Longrightarrow> j < length (AbstractToMachine cm) \<Longrightarrow>
    c \<in> AbstractToMachine cm ! i \<Longrightarrow> c \<in> AbstractToMachine cm ! j \<Longrightarrow> i = j"
  unfolding cpumap_ok_def cores_ok_def by blast

lemma ToMachineCPUs_bits:
  assumes "bitmap_lib_ok L" "cpumap_ok cm" "length bm \<le> 2 ^ 26"
  shows "ToMachineCPUs L cm bm =
    (\<Union>i \<in> {i. bit_at bm i \<and> i < length (AbstractToMachine cm)}. AbstractToMachine cm ! i)"
proof -
  have "ToMachineCPUs L cm bm = (\<Union>i \<in> unat ` set (bmRange L bm).
      if i \<ge> length (AbstractToMachine cm) then {} else AbstractToMachine cm ! i)"
    using core_finite [OF assms(2)] by (auto simp: ToMachineCPUs_def split: if_splits)
  then show ?thesis unfolding range_bits [OF assms(1,3)] by (auto split: if_splits)
qed

lemma ToAbstractCPUs_bits:
  assumes "bitmap_lib_ok L" "cpumap_ok cm" "finite S"
  shows "bit_at (ToAbstractCPUs L cm S) i \<longleftrightarrow>
    i < length (AbstractToMachine cm) \<and> AbstractToMachine cm ! i \<inter> S \<noteq> {}"
proof -
  let ?n = "length (AbstractToMachine cm)"
  have map_iff: "map_of (MachineToAbstract cm) c = Some k \<longleftrightarrow> 0 \<le> k \<and> nat k < ?n \<and> c \<in> AbstractToMachine cm ! nat k" for c k
    using assms(2) by (simp add: cpumap_ok_def)
  have "index32 k = nat k" if "0 \<le> k" "nat k < ?n" for k
    using that assms(2) by (intro index32_id) (auto simp: cpumap_ok_def)
  then have idx: "index32 k = nat k" if "map_of (MachineToAbstract cm) c = Some k" for c k
    using that map_iff by blast
  have "bit_at (ToAbstractCPUs L cm S) i \<longleftrightarrow> (\<exists>c\<in>S. \<exists>k. map_of (MachineToAbstract cm) c = Some k \<and> i = index32 k)"
    unfolding ToAbstractCPUs_def bitmap_New_bits [OF assms(1)]
    using assms(3) by (force simp: List.map_filter_def image_iff)
  also have "\<dots> \<longleftrightarrow> (\<exists>c\<in>S. \<exists>k. map_of (MachineToAbstract cm) c = Some k \<and> i = nat k)"
    using idx by metis
  also have "\<dots> \<longleftrightarrow> (\<exists>c\<in>S. i < ?n \<and> c \<in> AbstractToMachine cm ! i)"
    unfolding map_iff by (metis nat_int of_nat_0_le_iff)
  finally show ?thesis by blast
qed

text \<open>
  C16. For CPU records with distinct IDs, the abstract and the machine view of an allocation
  agree.  A CPU belongs to at most one abstract core, which the reverse map names.  Translating a
  set of CPUs to cores and back gives exactly the whole cores it touches, translating a core
  bitmap to CPUs and back gives the bitmap restricted to existing cores, and the bitmap of all
  cores gives every mapped CPU.
\<close>

theorem cpu_map_inverse:
  assumes "bitmap_lib_ok L" "distinct (map CpuID infos)" "length infos < 2 ^ 32"
    and cm: "cm = NewCPUMap pool infos" and S: "finite S" and bm: "length bm \<le> 2 ^ 26"
  shows "(\<forall>c i. map_of (MachineToAbstract cm) c = Some (int i) \<longleftrightarrow>
            i < length (AbstractToMachine cm) \<and> c \<in> AbstractToMachine cm ! i) \<and>
    ToMachineCPUs L cm (ToAbstractCPUs L cm S) = \<Union> {core \<in> set (AbstractToMachine cm). core \<inter> S \<noteq> {}} \<and>
    (\<forall>i. bit_at (ToAbstractCPUs L cm (ToMachineCPUs L cm bm)) i \<longleftrightarrow>
            bit_at bm i \<and> i < length (AbstractToMachine cm)) \<and>
    ToMachineCPUs L cm (GetOnesBitmap L cm) = \<Union> (set (AbstractToMachine cm))"
proof (intro conjI allI)
  let ?a = "AbstractToMachine cm"
  have ok: "cpumap_ok cm" unfolding cm by (rule NewCPUMap_ok [OF assms(2,3)])
  have mem: "s \<in> set ?a \<longleftrightarrow> (\<exists>i < length ?a. s = ?a ! i)" for s by (auto simp: in_set_conv_nth)
  show "map_of (MachineToAbstract cm) c = Some (int i) \<longleftrightarrow> i < length ?a \<and> c \<in> ?a ! i" for c i
    using ok by (simp add: cpumap_ok_def)
  have "length (ToAbstractCPUs L cm S) \<le> 2 ^ 26"
    unfolding ToAbstractCPUs_def by (rule bitmap_New_length [OF assms(1)])
  from ToMachineCPUs_bits [OF assms(1) ok this]
  show "ToMachineCPUs L cm (ToAbstractCPUs L cm S) = \<Union> {core \<in> set ?a. core \<inter> S \<noteq> {}}"
    unfolding ToAbstractCPUs_bits [OF assms(1) ok S] mem by auto
  have fin: "finite (ToMachineCPUs L cm bm)" by (simp add: ToMachineCPUs_def)
  show "bit_at (ToAbstractCPUs L cm (ToMachineCPUs L cm bm)) i \<longleftrightarrow> bit_at bm i \<and> i < length ?a" for i
  proof -
    have ne: "?a ! i \<noteq> {}" if "i < length ?a" using ok that by (simp add: cpumap_ok_def cores_ok_def)
    show ?thesis
      unfolding ToAbstractCPUs_bits [OF assms(1) ok fin] unfolding ToMachineCPUs_bits [OF assms(1) ok bm]
      using core_unique [OF ok] ne by blast
  qed
  have one: "bit_at (GetOnesBitmap L cm) i \<longleftrightarrow> i < length ?a" for i
  proof -
    have "index32 ` int ` {0..<length ?a} = nat ` int ` {0..<length ?a}"
      using ok by (intro image_cong refl index32_id) (auto simp: cpumap_ok_def)
    also have "\<dots> = {0..<length ?a}" by (simp add: image_image)
    finally show ?thesis by (simp add: GetOnesBitmap_def bitmap_New_bits [OF assms(1)] image_image)
  qed
  have "length (GetOnesBitmap L cm) \<le> 2 ^ 26"
    unfolding GetOnesBitmap_def by (rule bitmap_New_length [OF assms(1)])
  from ToMachineCPUs_bits [OF assms(1) ok this]
  show "ToMachineCPUs L cm (GetOnesBitmap L cm) = \<Union> (set ?a)"
    unfolding one by (force simp: set_conv_nth)
qed

definition sample_cpu :: "int \<Rightarrow> int \<Rightarrow> CPUInfo" where
  "sample_cpu cpu core = \<lparr>Name = ''s0'', CpuID = cpu, CoreID = core, SocketID = 0, NUMANodeID = None,
     SiblingCpuID = {}, CoreType = CoreTypeStandard\<rparr>"

lemma sample_cores:
  "AbstractToMachine (NewCPUMap ''p'' [sample_cpu 2 0, sample_cpu 0 0, sample_cpu 1 1]) = [{0, 2}, {1}]"
proof -
  have "sort_key cpu_order [sample_cpu 2 0, sample_cpu 0 0, sample_cpu 1 1] =
      [sample_cpu 0 0, sample_cpu 2 0, sample_cpu 1 1]"
    by (simp add: cpu_order_def sample_cpu_def)
  then show ?thesis
    by (auto simp: NewCPUMap_sel addCore_def findCoreSiblings_def sample_cpu_def Let_def)
qed

theorem cpu_map_inverse_witness:
  "ToMachineCPUs model_bits (NewCPUMap ''p'' [sample_cpu 2 0, sample_cpu 0 0, sample_cpu 1 1])
     (ToAbstractCPUs model_bits (NewCPUMap ''p'' [sample_cpu 2 0, sample_cpu 0 0, sample_cpu 1 1]) {0}) = {0, 2}"
proof -
  have "distinct (map CpuID [sample_cpu 2 0, sample_cpu 0 0, sample_cpu 1 1])"
    "length [sample_cpu 2 0, sample_cpu 0 0, sample_cpu 1 1] < 2 ^ 32"
    by (simp_all add: sample_cpu_def)
  note T = cpu_map_inverse [OF model_bits_ok this refl, of "{0}" "[]" "''p''"]
  have "\<Union> {core \<in> set [{0, 2}, {1 :: int}]. core \<inter> {0} \<noteq> {}} = {0, 2}" by auto
  then show ?thesis using T unfolding sample_cores by simp
qed

end
