(* ===== verification/Node_Info.thy ===== *)
theory Node_Info
  imports Cpu_Map
begin

text \<open>
  \<open>internal/nodeinfo/nodeinfo.go\<close> and the geometry of \<open>fingerprint.go\<close>: the CPU topology of a
  node, built from the newest complete CPU resource pool.  A \<open>*NodeInfo\<close> that may be nil is an
  option.  Go visits maps in an unspecified order; the loops over maps here only look for an
  error or fill independent keys, so the model visits them in insertion order.  Where the source
  would dereference a nil pointer or index an empty slice, the model returns the error
  \<open>''panic''\<close>, and the main theorem shows that this does not happen.
\<close>

section \<open>Device groups\<close>

record cpuDeviceGroup =
  socket :: int
  numaNode :: int

record NodeInfo =
  CpuMap :: CPUMap
  CPUDevices :: "(string, device) gomap"

definition deviceGroup :: "CPUInfo \<Rightarrow> cpuDeviceGroup" where
  "deviceGroup c = \<lparr>socket = SocketID c, numaNode = deref (- 1) (NUMANodeID c)\<rparr>"

definition cpuDeviceGroupOf :: "device \<Rightarrow> string + cpuDeviceGroup" where
  "cpuDeviceGroupOf d =
     (case Option.bind (map_of (deviceAttributes d) DraDriverCpu_SocketID) IntValue of
        None \<Rightarrow> Inl ''panic''
      | Some s \<Rightarrow> Inr \<lparr>socket = s,
          numaNode = deref (- 1) (Option.bind (map_of (deviceAttributes d) DraDriverCpu_NUMANodeID) IntValue)\<rparr>)"

definition numaGroups :: "cpuDeviceGroup list \<Rightarrow> cpuDeviceGroup list" where
  "numaGroups groups = filter (\<lambda>g. \<not> numaNode g < 0) groups"

fun numaSockets :: "cpuDeviceGroup list \<Rightarrow> (int, int) gomap \<Rightarrow> string + unit" where
  "numaSockets [] byNUMA = Inr ()"
| "numaSockets (g # gs) byNUMA =
     (case map_of byNUMA (numaNode g) of
        Some s \<Rightarrow> if s \<noteq> socket g then Inl ''NUMA node spans sockets''
                  else numaSockets gs (AList.update (numaNode g) (socket g) byNUMA)
      | None \<Rightarrow> numaSockets gs (AList.update (numaNode g) (socket g) byNUMA))"

definition validateCPUDeviceGroups :: "(cpuDeviceGroup, string) gomap \<Rightarrow> string + unit" where
  "validateCPUDeviceGroups groups =
     rbind (numaSockets (numaGroups (map fst groups)) []) (\<lambda>_.
       if length (numaGroups (map fst groups)) \<noteq> 0 \<and> length (numaGroups (map fst groups)) \<noteq> length groups
       then Inl ''mixed grouping'' else Inr ())"

text \<open>\<open>validateCPUCoreTopology\<close>: core types agree within a core, thread counts across cores.\<close>

type_synonym cpuCoreID = "int \<times> int"

fun coreThreads :: "CPUInfo list \<Rightarrow> (cpuCoreID, core_type) gomap \<Rightarrow> (cpuCoreID, int) gomap \<Rightarrow> string + (cpuCoreID, int) gomap" where
  "coreThreads [] coreTypes threads = Inr threads"
| "coreThreads (c # cs) coreTypes threads =
     (let core = (SocketID c, CoreID c) in
      if map_of coreTypes core \<noteq> None \<and> map_of coreTypes core \<noteq> Some (CoreType c) then Inl ''core types''
      else coreThreads cs (AList.update core (CoreType c) coreTypes)
             (if CoreType c \<noteq> CoreTypeEfficiency then AList.update core (get_or 0 threads core + 1) threads
              else threads))"

fun uniform :: "int \<Rightarrow> int list \<Rightarrow> string + int" where
  "uniform want [] = Inr want"
| "uniform want (n # ns) =
     (if want = 0 then uniform n ns else if n \<noteq> want then Inl ''non-uniform'' else uniform want ns)"

definition validateCPUCoreTopology :: "CPUInfo list \<Rightarrow> string + unit" where
  "validateCPUCoreTopology cpuInfos =
     rbind (coreThreads cpuInfos [] []) (\<lambda>threads.
     rbind (uniform 0 (map snd threads)) (\<lambda>wantThreads.
       if wantThreads = 0 then Inl ''no compatible CPUs'' else Inr ()))"

section \<open>Pool selection\<close>

record cpuPoolSnapshot =
  generation :: int
  resourceSliceCount :: int
  snapSlices :: "resource_slice list"

definition addCPUSlice :: "string \<Rightarrow> resource_slice \<Rightarrow> (string, cpuPoolSnapshot) gomap \<Rightarrow> string + (string, cpuPoolSnapshot) gomap" where
  "addCPUSlice nodeName rs m =
     (if sliceDriver rs = DraDriverCpu \<and> sliceNodeName rs = None \<and>
         (hasNodeSelector rs \<or> deref False (sliceAllNodes rs) \<or> deref False (perDeviceNodeSelection rs))
      then Inl ''node-local''
      else if sliceDriver rs \<noteq> DraDriverCpu \<or> deref [] (sliceNodeName rs) \<noteq> nodeName then Inr m
      else (let pool = slicePool rs;
                fresh = \<lparr>generation = poolGeneration pool, resourceSliceCount = poolSliceCount pool, snapSlices = [rs]\<rparr>
            in if poolName pool = [] \<or> poolGeneration pool < 0 \<or> poolSliceCount pool \<le> 0 then Inl ''pool''
               else if deref False (perDeviceNodeSelection rs) then Inl ''per-device''
               else (case map_of m (poolName pool) of
                   None \<Rightarrow> Inr (AList.update (poolName pool) fresh m)
                 | Some snapshot \<Rightarrow>
                     if poolGeneration pool > generation snapshot then Inr (AList.update (poolName pool) fresh m)
                     else if poolGeneration pool < generation snapshot then Inr m
                     else if poolSliceCount pool \<noteq> resourceSliceCount snapshot then Inl ''slice count''
                     else Inr (AList.update (poolName pool)
                            (snapshot\<lparr>snapSlices := snapSlices snapshot @ [rs]\<rparr>) m))))"

fun addCPUSlices :: "string \<Rightarrow> resource_slice list \<Rightarrow> (string, cpuPoolSnapshot) gomap \<Rightarrow> string + (string, cpuPoolSnapshot) gomap" where
  "addCPUSlices nodeName [] m = Inr m"
| "addCPUSlices nodeName (rs # rss) m = rbind (addCPUSlice nodeName rs m) (addCPUSlices nodeName rss)"

definition selectCPUResourcePool :: "string \<Rightarrow> resource_slice list \<Rightarrow> string + string \<times> resource_slice list" where
  "selectCPUResourcePool nodeName resourceSlices =
     rbind (addCPUSlices nodeName resourceSlices []) (\<lambda>snapshotsByPool.
       case snapshotsByPool of
         [] \<Rightarrow> Inr ([], [])
       | (pool, snapshot) # others \<Rightarrow>
           if others \<noteq> [] then Inl ''multiple pools''
           else if int (length (snapSlices snapshot)) \<noteq> resourceSliceCount snapshot then Inl ''incomplete''
           else Inr (pool, sort_key sliceName (snapSlices snapshot)))"

section \<open>Geometry\<close>

fun geometryCores :: "CPUMap \<Rightarrow> cpuset list \<Rightarrow> int \<Rightarrow> (cpuDeviceGroup, int) gomap \<Rightarrow> string + int \<times> (cpuDeviceGroup, int) gomap" where
  "geometryCores cm [] threadsPerCore cores = Inr (threadsPerCore, cores)"
| "geometryCores cm (cpus # rest) threadsPerCore cores =
     (let t = (if threadsPerCore = 0 then int (card cpus) else threadsPerCore) in
      if int (card cpus) \<noteq> t then Inl ''non-uniform threads''
      else (case cpuset_List cpus of
          [] \<Rightarrow> Inl ''panic''
        | cpu # _ \<Rightarrow> (case map_of (CPUInfoMap cm) cpu of
              None \<Rightarrow> Inl ''panic''
            | Some c \<Rightarrow> geometryCores cm rest t
                (AList.update (deviceGroup c) (get_or 0 cores (deviceGroup c) + 1) cores))))"

definition Geometry :: "NodeInfo option \<Rightarrow> string + int \<times> int \<times> int" where
  "Geometry n0 = (case n0 of
     None \<Rightarrow> Inr (0, 0, 0)
   | Some n \<Rightarrow>
       if length (AbstractToMachine (CpuMap n)) = 0 then Inr (0, 0, 0)
       else rbind (geometryCores (CpuMap n) (AbstractToMachine (CpuMap n)) 0 []) (\<lambda>(threadsPerCore, cores).
         rbind (uniform 0 (map snd cores)) (\<lambda>coresPerSocket.
         rbind (collect (cpuDeviceGroupOf \<circ> snd) (CPUDevices n)) (\<lambda>deviceSockets.
           if length cores \<noteq> length (remdups deviceSockets) then Inl ''device mismatch''
           else Inr (int (length cores), coresPerSocket, threadsPerCore)))))"

section \<open>Building the topology\<close>

record topology_acc =
  accDevices :: "(string, device) gomap"
  deviceSlices :: "(string, string) gomap"
  cpuIDSlices :: "(int, string) gomap"
  accGroups :: "(cpuDeviceGroup, string) gomap"
  accInfos :: "CPUInfo list"

fun addDevices :: "string \<Rightarrow> device list \<Rightarrow> topology_acc \<Rightarrow> string + topology_acc" where
  "addDevices src [] acc = Inr acc"
| "addDevices src (d # ds) acc =
     (if map_of (deviceSlices acc) (deviceName d) \<noteq> None then Inl ''duplicate device''
      else rbind (cpuDeviceGroupOf d) (\<lambda>group.
        if map_of (accGroups acc) group \<noteq> None then Inl ''duplicate group''
        else addDevices src ds (acc\<lparr>accGroups := AList.update group (deviceName d) (accGroups acc),
          accDevices := AList.update (deviceName d) d (accDevices acc),
          deviceSlices := AList.update (deviceName d) src (deviceSlices acc)\<rparr>)))"

fun addCPUIDs :: "string \<Rightarrow> CPUInfo list \<Rightarrow> (int, string) gomap \<Rightarrow> string + (int, string) gomap" where
  "addCPUIDs src [] m = Inr m"
| "addCPUIDs src (c # cs) m =
     (if map_of m (CpuID c) \<noteq> None then Inl ''duplicate CPU ID''
      else addCPUIDs src cs (AList.update (CpuID c) src m))"

fun addSlices :: "(string \<Rightarrow> string + cpuset) \<Rightarrow> resource_slice list \<Rightarrow> topology_acc \<Rightarrow> string + topology_acc" where
  "addSlices parse [] acc = Inr acc"
| "addSlices parse (rs # rss) acc =
     rbind (NewCPUInfos parse (Some rs)) (\<lambda>infos.
     rbind (addDevices (sliceName rs) (sliceDevices rs) acc) (\<lambda>acc1.
     rbind (addCPUIDs (sliceName rs) infos (cpuIDSlices acc1)) (\<lambda>ids.
       addSlices parse rss (acc1\<lparr>cpuIDSlices := ids, accInfos := accInfos acc1 @ infos\<rparr>))))"

definition empty_acc :: topology_acc where
  "empty_acc = \<lparr>accDevices = [], deviceSlices = [], cpuIDSlices = [], accGroups = [], accInfos = []\<rparr>"

text \<open>The last check: no CPU of a device has its SMT sibling in another device.\<close>

definition siblingsLocal :: "(string \<Rightarrow> string + cpuset) \<Rightarrow> CPUMap \<Rightarrow> CPUInfo list \<Rightarrow> string \<times> device \<Rightarrow> string + unit" where
  "siblingsLocal parse cm cpuInfos nd = (case nd of (_, d) \<Rightarrow>
     (case Option.bind (map_of (deviceAttributes d) DraDriverCpu_SMTLayout) StringValue of
        None \<Rightarrow> Inl ''panic''
      | Some raw \<Rightarrow> rbind (decodeSMTLayout parse raw) (\<lambda>siblings.
          if list_ex (\<lambda>c. Name c = deviceName d \<and>
               (case map_of (CPUInfoMap cm) (get_or 0 siblings (CpuID c)) of
                  None \<Rightarrow> False | Some other \<Rightarrow> Name other \<noteq> deviceName d)) cpuInfos
          then Inl ''remote sibling'' else Inr ())))"

definition NewNodeInfoFromResourceSlices :: "(string \<Rightarrow> string + cpuset) \<Rightarrow> string \<Rightarrow> resource_slice list \<Rightarrow> string + NodeInfo" where
  "NewNodeInfoFromResourceSlices parse nodeName resourceSlices =
     rbind (selectCPUResourcePool nodeName resourceSlices) (\<lambda>(pool, cpuSlices).
     rbind (addSlices parse cpuSlices empty_acc) (\<lambda>acc.
       let cpuInfos = accInfos acc in
       if length cpuInfos = 0 then Inr \<lparr>CpuMap = empty_cpumap, CPUDevices = accDevices acc\<rparr>
       else
         rbind (validateCPUDeviceGroups (accGroups acc)) (\<lambda>_.
         rbind (validateCPUCoreTopology cpuInfos) (\<lambda>_.
         let n = \<lparr>CpuMap = NewCPUMap pool cpuInfos, CPUDevices = accDevices acc\<rparr> in
         rbind (Geometry (Some n)) (\<lambda>_.
         rbind (collect (siblingsLocal parse (CpuMap n) cpuInfos) (CPUDevices n)) (\<lambda>_.
           Inr n))))))"

text \<open>Device order and the cores of each NUMA node.\<close>

definition sortedCPUDeviceNames :: "NodeInfo \<Rightarrow> string list" where
  "sortedCPUDeviceNames n = sort_key (\<lambda>name.
     case cpuDeviceGroupOf (the (map_of (CPUDevices n) name)) of
       Inl _ \<Rightarrow> (0, 0, name) | Inr g \<Rightarrow> (socket g, numaNode g, name)) (map fst (CPUDevices n))"

definition addCoreOf :: "CPUMap \<Rightarrow> int \<Rightarrow> int list \<Rightarrow> int list" where
  "addCoreOf cm cpu cores = (case map_of (MachineToAbstract cm) cpu of
     None \<Rightarrow> cores | Some core \<Rightarrow> if core \<in> set cores then cores else cores @ [core])"

fun numaCoresLoop :: "(string \<Rightarrow> string + cpuset) \<Rightarrow> CPUMap \<Rightarrow> device list \<Rightarrow> (int, int list) gomap \<Rightarrow> (int, int list) gomap" where
  "numaCoresLoop parse cm [] cores = cores"
| "numaCoresLoop parse cm (d # ds) cores =
     (case cpuDeviceGroupOf d of
        Inl _ \<Rightarrow> []
      | Inr g \<Rightarrow>
          (case parseCPUSet parse (deref [] (Option.bind (map_of (deviceAttributes d) DraDriverCpu_CPUIDs) StringValue)) of
             Inl _ \<Rightarrow> []
           | Inr cpus \<Rightarrow> numaCoresLoop parse cm ds
               (AList.update (numaNode g) (sort (fold (addCoreOf cm) (cpuset_List cpus) (get_or [] cores (numaNode g)))) cores)))"

definition NUMACores :: "(string \<Rightarrow> string + cpuset) \<Rightarrow> NodeInfo option \<Rightarrow> (int, int list) gomap" where
  "NUMACores parse n0 = (case n0 of
     None \<Rightarrow> []
   | Some n \<Rightarrow>
       if list_ex (\<lambda>d. case cpuDeviceGroupOf d of Inl _ \<Rightarrow> True | Inr g \<Rightarrow> numaNode g < 0) (map snd (CPUDevices n))
       then [] else numaCoresLoop parse (CpuMap n) (map snd (CPUDevices n)) [])"

section \<open>Accepted CPUs\<close>

lemma NewCPUInfos_Inr:
  assumes "cpuset_parse_ok parse" "NewCPUInfos parse (Some rs) = Inr infos" "x \<in> set infos"
  shows "CpuID x \<in> {0..max_int32}" "CoreType x = CoreTypeStandard"
proof -
  obtain iss where iss: "list_all2 (\<lambda>d is. device_infos parse d = Inr is) (sliceDevices rs) iss" "infos = concat iss"
    using assms(2) unfolding NewCPUInfos_def option.case by (elim result_elims) (auto simp: collect_eq_Inr)
  obtain "is" where x: "is \<in> set iss" "x \<in> set is" using assms(3) iss(2) by auto
  obtain k where "k < length iss" "iss ! k = is" using x(1) by (auto simp: in_set_conv_nth)
  then have "device_infos parse (sliceDevices rs ! k) = Inr is" using iss(1) by (auto simp: list_all2_conv_all_nth)
  then obtain socket numaNode smt cpus siblings rawCPUs where p: "parseCPUSet parse rawCPUs = Inr cpus"
    and run: "collect (cpu_info (sliceDevices rs ! k) socket numaNode smt cpus siblings) (cpuset_List cpus) = Inr is"
    by (rule device_infos_Inr)
  note P = parseCPUSet_Inr [OF assms(1) p]
  have "CpuID x \<in> cpus" "CoreType x = CoreTypeStandard"
    using expand_Inr [OF run] x(2) P(4) by auto
  then show "CpuID x \<in> {0..max_int32}" "CoreType x = CoreTypeStandard" using P(5) by auto
qed

lemma addCPUIDs_Inr:
  assumes "addCPUIDs src cs m = Inr m'"
  shows "distinct (map CpuID cs) \<and> CpuID ` set cs \<inter> dom (map_of m) = {} \<and>
    dom (map_of m') = dom (map_of m) \<union> CpuID ` set cs"
  using assms
proof (induction cs arbitrary: m)
  case (Cons c cs)
  then have fresh: "map_of m (CpuID c) = None" and run: "addCPUIDs src cs (AList.update (CpuID c) src m) = Inr m'"
    by (auto split: if_splits)
  show ?case using Cons.IH [OF run] fresh unfolding dom_upd_alist by auto
qed simp

lemma addDevices_infos: "addDevices src ds acc = Inr acc' \<Longrightarrow>
    accInfos acc' = accInfos acc \<and> cpuIDSlices acc' = cpuIDSlices acc"
proof (induction ds arbitrary: acc)
  case (Cons d ds)
  from Cons.prems show ?case
    by (auto simp: rbind_eq_Inr split: if_splits dest!: Cons.IH)
qed simp

definition acc_ok :: "topology_acc \<Rightarrow> bool" where
  "acc_ok acc \<longleftrightarrow> distinct (map CpuID (accInfos acc)) \<and>
     dom (map_of (cpuIDSlices acc)) = CpuID ` set (accInfos acc) \<and>
     (\<forall>x\<in>set (accInfos acc). CpuID x \<in> {0..max_int32} \<and> CoreType x = CoreTypeStandard)"

lemma addSlices_ok:
  assumes "cpuset_parse_ok parse" "addSlices parse rss acc = Inr acc'" "acc_ok acc"
  shows "acc_ok acc'"
  using assms(2,3)
proof (induction rss arbitrary: acc)
  case (Cons rs rss)
  from Cons.prems(1) obtain infos acc1 ids where i: "NewCPUInfos parse (Some rs) = Inr infos"
    and d: "addDevices (sliceName rs) (sliceDevices rs) acc = Inr acc1"
    and c: "addCPUIDs (sliceName rs) infos (cpuIDSlices acc1) = Inr ids"
    and rest: "addSlices parse rss (acc1\<lparr>cpuIDSlices := ids, accInfos := accInfos acc1 @ infos\<rparr>) = Inr acc'"
    unfolding addSlices.simps by (elim result_elims)
  have "acc_ok (acc1\<lparr>cpuIDSlices := ids, accInfos := accInfos acc1 @ infos\<rparr>)"
    using Cons.prems(2) addDevices_infos [OF d] addCPUIDs_Inr [OF c] NewCPUInfos_Inr [OF assms(1) i]
    unfolding acc_ok_def by auto
  then show ?case by (rule Cons.IH [OF rest])
qed simp

lemma acc_ok_length: "acc_ok acc \<Longrightarrow> length (accInfos acc) < 2 ^ 32"
proof -
  assume ok: "acc_ok acc"
  have "length (accInfos acc) = card (CpuID ` set (accInfos acc))"
    using ok distinct_card [of "map CpuID (accInfos acc)"] by (simp add: acc_ok_def)
  also have "\<dots> \<le> card {0..max_int32}"
    using ok by (intro card_mono) (auto simp: acc_ok_def)
  also have "\<dots> < 2 ^ 32" by (simp add: max_int32_def)
  finally show ?thesis .
qed

section \<open>Counting cores\<close>

lemma sum_update:
  "gomap_ok m \<Longrightarrow> sum_list (map snd (AList.update k (get_or 0 m k + v) m)) = sum_list (map snd m) + (v :: int)"
  by (induction m) (auto simp: gomap_ok_def get_or_def)

lemma update_values: "set (map snd (AList.update k v m)) \<subseteq> insert v (set (map snd m))"
  by (induction m) auto

lemma get_or_nonneg: "(\<forall>v\<in>set (map snd m). 0 < v) \<Longrightarrow> 0 \<le> get_or (0::int) m k"
  by (auto simp: get_or_def dest!: map_of_SomeD split: option.splits)

lemma geometryCores_Inr:
  assumes "geometryCores cm cs t m = Inr (t', m')" "gomap_ok m" "\<forall>v\<in>set (map snd m). 0 < v"
  shows "(\<forall>c\<in>set cs. int (card c) = t') \<and> (t \<noteq> 0 \<longrightarrow> t' = t) \<and> gomap_ok m' \<and> (\<forall>v\<in>set (map snd m'). 0 < v) \<and>
    sum_list (map snd m') = sum_list (map snd m) + int (length cs)"
  using assms
proof (induction cs arbitrary: t m)
  case (Cons cpus cs)
  define t1 where "t1 = (if t = 0 then int (card cpus) else t)"
  obtain cpu rest c where l: "cpuset_List cpus = cpu # rest" and i: "map_of (CPUInfoMap cm) cpu = Some c"
    and t1: "int (card cpus) = t1"
    and run: "geometryCores cm cs t1 (AList.update (deviceGroup c) (get_or 0 m (deviceGroup c) + 1) m) = Inr (t', m')"
    using Cons.prems(1) unfolding geometryCores.simps Let_def t1_def [symmetric]
    by (auto split: if_splits list.splits option.splits)
  let ?m = "AList.update (deviceGroup c) (get_or 0 m (deviceGroup c) + 1) m"
  have "length (cpuset_List cpus) = card cpus" by simp
  then have pos: "0 < t1" unfolding l t1 [symmetric] by simp
  have vals: "\<forall>v\<in>set (map snd ?m). 0 < v"
  proof
    fix v assume "v \<in> set (map snd ?m)"
    then have "v = get_or 0 m (deviceGroup c) + 1 \<or> v \<in> set (map snd m)"
      using update_values [of "deviceGroup c" "get_or 0 m (deviceGroup c) + 1" m] by blast
    then show "0 < v" using get_or_nonneg [OF Cons.prems(3)] Cons.prems(3) by (metis zle_add1_eq_le zless_add1_eq)
  qed
  note IH = Cons.IH [OF run gomap_ok_update [OF Cons.prems(2)] vals]
  have t': "t' = t1" using IH pos by simp
  have "int (card cpus) = t'" "t \<noteq> 0 \<longrightarrow> t' = t" using t1 t1_def unfolding t' by (simp_all split: if_splits)
  moreover have "sum_list (map snd m') = sum_list (map snd m) + int (length (cpus # cs))"
    using IH sum_update [OF Cons.prems(2), of "deviceGroup c" 1] by (simp del: map_map)
  ultimately show ?case using IH by auto
qed simp

lemma geometryCores_defined:
  assumes "\<forall>c\<in>set cs. finite c \<and> c \<noteq> {} \<and> c \<subseteq> dom (map_of (CPUInfoMap cm))"
  shows "geometryCores cm cs t m \<noteq> Inl ''panic''"
  using assms
proof (induction cs arbitrary: t m)
  case (Cons cpus cs)
  then obtain cpu rest where l: "cpuset_List cpus = cpu # rest"
    by (cases "cpuset_List cpus") auto
  then have "cpu \<in> cpus" using Cons.prems by (metis list.set_intros(1) set_sorted_list_of_set)
  then show ?case using Cons l by (auto simp: Let_def split: option.splits)
qed simp

lemma uniform_Inr: "uniform w ns = Inr c \<Longrightarrow> \<forall>n\<in>set ns. 0 < n \<Longrightarrow> 0 \<le> w \<Longrightarrow>
    (\<forall>n\<in>set ns. n = c) \<and> (w \<noteq> 0 \<longrightarrow> c = w)"
  by (induction w ns rule: uniform.induct) (auto split: if_splits)

lemma uniform_sum: "uniform 0 ns = Inr c \<Longrightarrow> \<forall>n\<in>set ns. 0 < n \<Longrightarrow> sum_list ns = int (length ns) * c"
proof -
  assume "uniform 0 ns = Inr c" "\<forall>n\<in>set ns. 0 < n"
  then have "\<forall>n\<in>set ns. n = c" using uniform_Inr [of 0 ns c] by auto
  then show ?thesis by (induction ns) (auto simp: algebra_simps)
qed

lemma addCore_infos: "dom (map_of (fst (fold (addCore all) cs (m, a2m)))) = dom (map_of m) \<union> CpuID ` set cs"
proof (induction cs arbitrary: m a2m)
  case (Cons c cs)
  obtain m1 a1 where st: "addCore all c (m, a2m) = (m1, a1)" by (cases "addCore all c (m, a2m)")
  then have "dom (map_of m1) = insert (CpuID c) (dom (map_of m))"
    unfolding addCore_def by (auto simp: Let_def dom_upd_alist split: if_splits)
  then show ?case using Cons.IH [of m1 a1] st by auto
qed simp

lemma NewCPUMap_infos: "dom (map_of (CPUInfoMap (NewCPUMap pool infos))) = CpuID ` set infos"
  by (simp add: NewCPUMap_sel addCore_infos)

lemma NewCPUMap_covers:
  assumes "\<forall>x\<in>set infos. CoreType x \<noteq> CoreTypeEfficiency"
  shows "\<Union> (set (AbstractToMachine (NewCPUMap pool infos))) = CpuID ` set infos"
proof -
  have "\<Union> (findCoreSiblings infos ` set infos) = CpuID ` set infos"
    unfolding findCoreSiblings_def by fastforce
  moreover have "{c \<in> set infos. CoreType c \<noteq> CoreTypeEfficiency} = set infos" using assms by auto
  ultimately show ?thesis unfolding NewCPUMap_cores by simp
qed

lemma cores_card:
  assumes "cores_ok cs" "distinct cs" "\<forall>c\<in>set cs. int (card c) = t"
  shows "int (card (\<Union> (set cs))) = int (length cs) * t"
proof -
  have "pairwise disjnt (set cs)"
    using assms(1,2) unfolding cores_ok_def pairwise_def disjnt_def
    by (smt (verit) disjoint_iff in_set_conv_nth)
  then have "card (\<Union> (set cs)) = sum card (set cs)"
    using assms(1) by (intro card_Union_disjoint) (auto simp: cores_ok_def)
  then have "int (card (\<Union> (set cs))) = (\<Sum>c\<in>set cs. int (card c))" by simp
  also have "\<dots> = (\<Sum>c\<in>set cs. t)" using assms(3) by (intro sum.cong) auto
  also have "\<dots> = int (length cs) * t" using distinct_card [OF assms(2)] by simp
  finally show ?thesis .
qed

lemma Geometry_Inr:
  assumes "Geometry (Some n) = Inr (s, c, t)" "AbstractToMachine (CpuMap n) \<noteq> []"
  shows "s * c = int (length (AbstractToMachine (CpuMap n)))"
    "\<forall>core\<in>set (AbstractToMachine (CpuMap n)). int (card core) = t"
proof -
  let ?a = "AbstractToMachine (CpuMap n)"
  obtain m where run: "geometryCores (CpuMap n) ?a 0 [] = Inr (t, m)" and u: "uniform 0 (map snd m) = Inr c"
    and s: "s = int (length m)"
    using assms unfolding Geometry_def option.case by (auto simp: rbind_eq_Inr split: prod.splits if_splits)
  note G = geometryCores_Inr [OF run, unfolded gomap_ok_def, simplified]
  show "\<forall>core\<in>set ?a. int (card core) = t" using G by simp
  have "sum_list (map snd m) = int (length (map snd m)) * c"
    using G by (intro uniform_sum [OF u]) auto
  then show "s * c = int (length ?a)" using G s by simp
qed

lemma NewNodeInfo_Inr:
  assumes "NewNodeInfoFromResourceSlices parse nodeName rss = Inr n"
  obtains pool cpuSlices acc where "selectCPUResourcePool nodeName rss = Inr (pool, cpuSlices)"
    "addSlices parse cpuSlices empty_acc = Inr acc" "CPUDevices n = accDevices acc"
    "accInfos acc = [] \<longrightarrow> CpuMap n = empty_cpumap"
    "accInfos acc \<noteq> [] \<longrightarrow> CpuMap n = NewCPUMap pool (accInfos acc) \<and> is_ok (Geometry (Some n))"
proof -
  obtain ps where ps: "selectCPUResourcePool nodeName rss = Inr ps"
    and rest: "(case ps of (pool, cpuSlices) \<Rightarrow> rbind (addSlices parse cpuSlices empty_acc) (\<lambda>acc.
       let cpuInfos = accInfos acc in
       if length cpuInfos = 0 then Inr \<lparr>CpuMap = empty_cpumap, CPUDevices = accDevices acc\<rparr>
       else
         rbind (validateCPUDeviceGroups (accGroups acc)) (\<lambda>_.
         rbind (validateCPUCoreTopology cpuInfos) (\<lambda>_.
         let n = \<lparr>CpuMap = NewCPUMap pool cpuInfos, CPUDevices = accDevices acc\<rparr> in
         rbind (Geometry (Some n)) (\<lambda>_.
         rbind (collect (siblingsLocal parse (CpuMap n) cpuInfos) (CPUDevices n)) (\<lambda>_.
           Inr n)))))) = Inr n"
    using assms unfolding NewNodeInfoFromResourceSlices_def by (rule rbind_InrE)
  obtain pool cpuSlices where p: "ps = (pool, cpuSlices)" by (cases ps)
  from rest obtain acc where acc: "addSlices parse cpuSlices empty_acc = Inr acc"
    and tail: "(if accInfos acc = [] then Inr \<lparr>CpuMap = empty_cpumap, CPUDevices = accDevices acc\<rparr>
       else
         rbind (validateCPUDeviceGroups (accGroups acc)) (\<lambda>_.
         rbind (validateCPUCoreTopology (accInfos acc)) (\<lambda>_.
         let n = \<lparr>CpuMap = NewCPUMap pool (accInfos acc), CPUDevices = accDevices acc\<rparr> in
         rbind (Geometry (Some n)) (\<lambda>_.
         rbind (collect (siblingsLocal parse (CpuMap n) (accInfos acc)) (CPUDevices n)) (\<lambda>_.
           Inr n))))) = Inr n"
    unfolding p prod.case Let_def by (elim rbind_InrE) auto
  show thesis
  proof (cases "accInfos acc = []")
    case True
    then show thesis using that [of pool cpuSlices acc] ps p acc tail by auto
  next
    case False
    then have "n = \<lparr>CpuMap = NewCPUMap pool (accInfos acc), CPUDevices = accDevices acc\<rparr>" "is_ok (Geometry (Some n))"
      using tail by (auto simp: Let_def rbind_eq_Inr)
    then show thesis using that [of pool cpuSlices acc] ps p acc False by auto
  qed
qed

lemma empty_acc_ok: "acc_ok empty_acc"
  by (simp add: acc_ok_def empty_acc_def)

text \<open>
  C15. When the CPU topology of a node is accepted, the core map is a partition of the allocatable
  CPUs whose two directions agree, and the geometry reported to Slurm is exact: sockets times cores
  per socket is the number of abstract cores, every core has the reported number of threads, and
  the product of the three is the number of allocatable CPUs.
\<close>

theorem node_topology:
  assumes "cpuset_parse_ok parse" "NewNodeInfoFromResourceSlices parse nodeName rss = Inr n"
  shows "cpumap_ok (CpuMap n) \<and> \<Union> (set (AbstractToMachine (CpuMap n))) = dom (map_of (CPUInfoMap (CpuMap n))) \<and>
    (\<exists>s c t. Geometry (Some n) = Inr (s, c, t) \<and> s * c = int (length (AbstractToMachine (CpuMap n))) \<and>
       (\<forall>core\<in>set (AbstractToMachine (CpuMap n)). int (card core) = t) \<and>
       s * c * t = int (card (\<Union> (set (AbstractToMachine (CpuMap n))))))"
proof -
  obtain pool cpuSlices acc where run: "addSlices parse cpuSlices empty_acc = Inr acc"
    and nil: "accInfos acc = [] \<longrightarrow> CpuMap n = empty_cpumap"
    and some: "accInfos acc \<noteq> [] \<longrightarrow> CpuMap n = NewCPUMap pool (accInfos acc) \<and> is_ok (Geometry (Some n))"
    by (rule NewNodeInfo_Inr [OF assms(2)])
  show ?thesis
  proof (cases "accInfos acc = []")
    case True
    then show ?thesis using nil by (simp add: empty_cpumap_def cpumap_ok_def cores_ok_def Geometry_def)
  next
    case False
    let ?a = "AbstractToMachine (CpuMap n)"
    have ok: "acc_ok acc" using addSlices_ok [OF assms(1) run empty_acc_ok] .
    note cm = some [rule_format, OF False, THEN conjunct1]
    have dist: "distinct (map CpuID (accInfos acc))" and std: "\<forall>x\<in>set (accInfos acc). CoreType x \<noteq> CoreTypeEfficiency"
      using ok by (auto simp: acc_ok_def)
    have cover: "\<Union> (set ?a) = CpuID ` set (accInfos acc)" unfolding cm by (rule NewCPUMap_covers [OF std])
    then have ne: "?a \<noteq> []" using False by auto
    have cpumap: "cpumap_ok (CpuMap n)" unfolding cm by (rule NewCPUMap_ok [OF dist acc_ok_length [OF ok]])
    obtain s c t where G: "Geometry (Some n) = Inr (s, c, t)"
      using some [rule_format, OF False] by (cases "Geometry (Some n)") auto
    note GI = Geometry_Inr [OF G ne]
    have "distinct ?a" unfolding cm by (rule NewCPUMap_cores)
    with cores_card [OF _ this GI(2)] cpumap have "s * c * t = int (card (\<Union> (set ?a)))"
      unfolding GI(1) by (simp add: cpumap_ok_def)
    then show ?thesis using cpumap G GI cover NewCPUMap_infos [of pool "accInfos acc"] cm by auto
  qed
qed

section \<open>Sample node\<close>

definition sample_slice :: resource_slice where
  "sample_slice = \<lparr>sliceName = ''rs'', sliceDriver = ''dra.cpu'', sliceNodeName = Some ''n'', hasNodeSelector = False,
     sliceAllNodes = None, perDeviceNodeSelection = None,
     slicePool = \<lparr>poolName = ''p'', poolGeneration = 1, poolSliceCount = 1\<rparr>,
     sliceDevices = [sample_device ''s0'' 0 ''0-1'' 2 ''0-1>1'']\<rparr>"

lemma sample_pool: "selectCPUResourcePool ''n'' [sample_slice] = Inr (''p'', [sample_slice])"
  by (simp add: selectCPUResourcePool_def addCPUSlice_def sample_slice_def DraDriverCpu_def Let_def)

lemma sample_group: "cpuDeviceGroupOf (sample_device ''s0'' 0 ''0-1'' 2 ''0-1>1'') = Inr \<lparr>socket = 0, numaNode = - 1\<rparr>"
  by (simp add: cpuDeviceGroupOf_def sample_device_def DraDriverCpu_SocketID_def DraDriverCpu_NUMANodeID_def int_attribute_def)

lemma sample_acc: "addSlices model_parse [sample_slice] empty_acc = Inr
    \<lparr>accDevices = [(''s0'', sample_device ''s0'' 0 ''0-1'' 2 ''0-1>1'')], deviceSlices = [(''s0'', ''rs'')],
     cpuIDSlices = [(0, ''rs''), (1, ''rs'')], accGroups = [(\<lparr>socket = 0, numaNode = - 1\<rparr>, ''s0'')],
     accInfos = [sample_thread 0, sample_thread 1]\<rparr>"
proof -
  have name: "deviceName (sample_device ''s0'' 0 ''0-1'' 2 ''0-1>1'') = ''s0''" by (simp add: sample_device_def)
  show ?thesis
    by (simp add: NewCPUInfos_def sample_slice_def DraDriverCpu_def sample_infos sample_group name empty_acc_def)
      (simp add: sample_thread_def)
qed

lemma sample_map: "NewCPUMap ''p'' [sample_thread 0, sample_thread 1] = \<lparr>Pool = ''p'',
    CPUInfoMap = [(0, (sample_thread 0)\<lparr>SiblingCpuID := {0, 1}\<rparr>), (1, (sample_thread 1)\<lparr>SiblingCpuID := {0, 1}\<rparr>)],
    AbstractToMachine = [{0, 1}], MachineToAbstract = [(0, 0), (1, 0)]\<rparr>"
  by (simp add: NewCPUMap_def cpu_order_def sample_thread_def addCore_def findCoreSiblings_def machineMap_def Let_def)

lemma sample_node:
  "NewNodeInfoFromResourceSlices model_parse ''n'' [sample_slice] = Inr \<lparr>CpuMap = NewCPUMap ''p'' [sample_thread 0, sample_thread 1],
     CPUDevices = [(''s0'', sample_device ''s0'' 0 ''0-1'' 2 ''0-1>1'')]\<rparr>"
proof -
  have layout: "Option.bind (map_of (deviceAttributes (sample_device ''s0'' 0 ''0-1'' 2 ''0-1>1'')) DraDriverCpu_SMTLayout) StringValue
      = Some ''0-1>1''"
    by (simp add: sample_device_def DraDriverCpu_SMTLayout_def string_attribute_def)
  have name: "deviceName (sample_device ''s0'' 0 ''0-1'' 2 ''0-1>1'') = ''s0''" by (simp add: sample_device_def)
  have g: "Geometry (Some \<lparr>CpuMap = NewCPUMap ''p'' [sample_thread 0, sample_thread 1],
     CPUDevices = [(''s0'', sample_device ''s0'' 0 ''0-1'' 2 ''0-1>1'')]\<rparr>) = Inr (1, 1, 2)"
    unfolding sample_map by (simp add: Geometry_def sample_group deviceGroup_def get_or_def sample_thread_def)
  have l: "siblingsLocal model_parse (NewCPUMap ''p'' [sample_thread 0, sample_thread 1]) [sample_thread 0, sample_thread 1]
      (''s0'', sample_device ''s0'' 0 ''0-1'' 2 ''0-1>1'') = Inr ()"
    by (simp add: siblingsLocal_def layout sample_layout name sample_map get_or_def) (simp add: sample_thread_def)
  have v: "validateCPUCoreTopology [sample_thread 0, sample_thread 1] = Inr ()"
    by (simp add: validateCPUCoreTopology_def sample_thread_def get_or_def)
  show ?thesis
    by (simp add: NewNodeInfoFromResourceSlices_def sample_pool sample_acc Let_def v g l
        validateCPUDeviceGroups_def numaGroups_def del: addSlices.simps)
qed

theorem node_topology_witness:
  "\<exists>n s c t. NewNodeInfoFromResourceSlices model_parse ''n'' [sample_slice] = Inr n \<and> cpumap_ok (CpuMap n) \<and>
     Geometry (Some n) = Inr (s, c, t) \<and> s * c * t = int (card (\<Union> (set (AbstractToMachine (CpuMap n)))))"
  using node_topology [OF model_parse_ok sample_node] sample_node by blast

section \<open>Pool selection\<close>

definition eligible :: "string \<Rightarrow> resource_slice \<Rightarrow> bool" where
  "eligible nodeName rs \<longleftrightarrow> sliceDriver rs = DraDriverCpu \<and> deref [] (sliceNodeName rs) = nodeName"

definition pool_inv :: "string \<Rightarrow> string \<Rightarrow> resource_slice list \<Rightarrow> cpuPoolSnapshot option \<Rightarrow> bool" where
  "pool_inv N p seen_slices so = (case so of
     None \<Rightarrow> (\<forall>rs\<in>set seen_slices. eligible N rs \<longrightarrow> poolName (slicePool rs) \<noteq> p)
   | Some s \<Rightarrow> snapSlices s = filter (\<lambda>rs. eligible N rs \<and> poolName (slicePool rs) = p \<and>
         poolGeneration (slicePool rs) = generation s) seen_slices \<and> snapSlices s \<noteq> [] \<and>
       (\<forall>rs\<in>set seen_slices. eligible N rs \<and> poolName (slicePool rs) = p \<longrightarrow> poolGeneration (slicePool rs) \<le> generation s) \<and>
       (\<forall>rs\<in>set (snapSlices s). poolSliceCount (slicePool rs) = resourceSliceCount s))"

lemma pool_inv_skip: "pool_inv N p ss so \<Longrightarrow> \<not> (eligible N rs \<and> poolName (slicePool rs) = p) \<Longrightarrow> pool_inv N p (ss @ [rs]) so"
  by (auto simp: pool_inv_def split: option.splits)

lemma pool_inv_fresh:
  assumes "pool_inv N p ss so" "eligible N rs" "poolName (slicePool rs) = p"
    "case so of None \<Rightarrow> True | Some s \<Rightarrow> generation s < poolGeneration (slicePool rs)"
  shows "pool_inv N p (ss @ [rs]) (Some \<lparr>generation = poolGeneration (slicePool rs),
     resourceSliceCount = poolSliceCount (slicePool rs), snapSlices = [rs]\<rparr>)"
proof -
  have "poolGeneration (slicePool x) < poolGeneration (slicePool rs)"
    if "x \<in> set ss" "eligible N x" "poolName (slicePool x) = p" for x
    using assms that by (auto simp: pool_inv_def split: option.splits)
  then have "filter (\<lambda>x. eligible N x \<and> poolName (slicePool x) = p \<and>
      poolGeneration (slicePool x) = poolGeneration (slicePool rs)) ss = []" "\<forall>x\<in>set ss. eligible N x \<and>
      poolName (slicePool x) = p \<longrightarrow> poolGeneration (slicePool x) \<le> poolGeneration (slicePool rs)"
    by (fastforce simp: filter_empty_conv)+
  then show ?thesis using assms(2,3) by (simp add: pool_inv_def)
qed

lemma pool_inv_older:
  assumes "pool_inv N p ss (Some s)" "poolGeneration (slicePool rs) < generation s"
  shows "pool_inv N p (ss @ [rs]) (Some s)"
  using assms by (auto simp: pool_inv_def)

lemma pool_inv_same:
  assumes "pool_inv N p ss (Some s)" "eligible N rs" "poolName (slicePool rs) = p"
    "poolGeneration (slicePool rs) = generation s" "poolSliceCount (slicePool rs) = resourceSliceCount s"
  shows "pool_inv N p (ss @ [rs]) (Some (s\<lparr>snapSlices := snapSlices s @ [rs]\<rparr>))"
  using assms by (auto simp: pool_inv_def)

lemma addCPUSlice_inv:
  assumes "addCPUSlice N rs m = Inr m'" "gomap_ok m" "\<And>p. pool_inv N p ss (map_of m p)"
  shows "gomap_ok m' \<and> (\<forall>p. pool_inv N p (ss @ [rs]) (map_of m' p))"
proof (cases "eligible N rs")
  case False
  then have "m' = m" using assms(1) by (auto simp: addCPUSlice_def eligible_def split: if_splits)
  then show ?thesis using assms False by (auto intro: pool_inv_skip)
next
  case True
  let ?q = "poolName (slicePool rs)"
  have other: "pool_inv N p (ss @ [rs]) (map_of m p)" if "p \<noteq> ?q" for p
    using assms(3) that by (intro pool_inv_skip) auto
  note run = assms(1) [unfolded addCPUSlice_def Let_def]
  have "pool_inv N ?q (ss @ [rs]) (map_of m' ?q) \<and> gomap_ok m' \<and> (\<forall>p. p \<noteq> ?q \<longrightarrow> map_of m' p = map_of m p)"
  proof (cases "map_of m ?q")
    case None
    then have m': "m' = AList.update ?q \<lparr>generation = poolGeneration (slicePool rs),
        resourceSliceCount = poolSliceCount (slicePool rs), snapSlices = [rs]\<rparr> m"
      using run True by (auto simp: eligible_def split: if_splits)
    show ?thesis using pool_inv_fresh [OF assms(3) [of ?q] True refl] None assms(2) unfolding m' by simp
  next
    case (Some s)
    consider (newer) "generation s < poolGeneration (slicePool rs)"
        "m' = AList.update ?q \<lparr>generation = poolGeneration (slicePool rs),
        resourceSliceCount = poolSliceCount (slicePool rs), snapSlices = [rs]\<rparr> m"
      | (older) "poolGeneration (slicePool rs) < generation s" "m' = m"
      | (same) "poolGeneration (slicePool rs) = generation s" "poolSliceCount (slicePool rs) = resourceSliceCount s"
          "m' = AList.update ?q (s\<lparr>snapSlices := snapSlices s @ [rs]\<rparr>) m"
      using run True Some by (auto simp: eligible_def split: if_splits)
    then show ?thesis
    proof cases
      case newer
      then show ?thesis using pool_inv_fresh [OF assms(3) [of ?q] True refl] Some assms(2) by simp
    next
      case older
      then show ?thesis using pool_inv_older [of N ?q ss s rs] assms(2,3) Some by (metis (no_types))
    next
      case same
      then show ?thesis using pool_inv_same [of N ?q ss s rs] assms(2) assms(3) [of ?q] Some True by simp
    qed
  qed
  then show ?thesis using other by metis
qed

lemma addCPUSlices_inv:
  assumes "addCPUSlices N rss m = Inr m'" "gomap_ok m" "\<And>p. pool_inv N p ss (map_of m p)"
  shows "gomap_ok m' \<and> (\<forall>p. pool_inv N p (ss @ rss) (map_of m' p))"
  using assms
proof (induction rss arbitrary: m ss)
  case (Cons rs rss)
  from Cons.prems(1) obtain m1 where one: "addCPUSlice N rs m = Inr m1" and rest: "addCPUSlices N rss m1 = Inr m'"
    unfolding addCPUSlices.simps by (elim result_elims)
  note I = addCPUSlice_inv [OF one Cons.prems(2,3)]
  from Cons.IH [OF rest, of "ss @ [rs]"] I show ?case by simp
qed simp

text \<open>
  C30. The selected CPU pool is the only one that any CPU slice of the node belongs to, and the
  returned slices are exactly those of its newest generation, each once and ordered by name.
  Their number is the slice count that every one of them declares, so a generation that is only
  partly published is never used.
\<close>

theorem selectCPUResourcePool_newest:
  assumes "selectCPUResourcePool N rss = Inr (pool, ss)" "ss \<noteq> []"
  shows "\<exists>gen. mset ss = mset (filter (\<lambda>rs. eligible N rs \<and> poolGeneration (slicePool rs) = gen) rss) \<and>
    (\<forall>rs\<in>set rss. eligible N rs \<longrightarrow> poolName (slicePool rs) = pool \<and> poolGeneration (slicePool rs) \<le> gen) \<and>
    (\<forall>rs\<in>set ss. poolSliceCount (slicePool rs) = int (length ss)) \<and> sorted (map sliceName ss)"
proof -
  obtain s where run: "addCPUSlices N rss [] = Inr [(pool, s)]"
    and len: "int (length (snapSlices s)) = resourceSliceCount s" and ss: "ss = sort_key sliceName (snapSlices s)"
    using assms unfolding selectCPUResourcePool_def
    by (elim result_elims) (auto split: list.splits if_splits prod.splits)
  have "\<And>p. pool_inv N p [] (map_of [] p)" by (simp add: pool_inv_def)
  from addCPUSlices_inv [OF run _ this] have inv: "pool_inv N p rss (map_of [(pool, s)] p)" for p
    by (simp add: gomap_ok_def)
  have P: "snapSlices s = filter (\<lambda>rs. eligible N rs \<and> poolName (slicePool rs) = pool \<and>
      poolGeneration (slicePool rs) = generation s) rss"
    "\<forall>rs\<in>set rss. eligible N rs \<and> poolName (slicePool rs) = pool \<longrightarrow> poolGeneration (slicePool rs) \<le> generation s"
    "\<forall>rs\<in>set (snapSlices s). poolSliceCount (slicePool rs) = resourceSliceCount s"
    using inv [of pool] by (auto simp: pool_inv_def)
  have pool: "poolName (slicePool rs) = pool" if "rs \<in> set rss" "eligible N rs" for rs
    using inv [of "poolName (slicePool rs)"] that by (auto simp: pool_inv_def split: if_splits)
  have "snapSlices s = filter (\<lambda>rs. eligible N rs \<and> poolGeneration (slicePool rs) = generation s) rss"
    unfolding P(1) using pool by (intro filter_cong) auto
  then show ?thesis using P(2,3) pool len ss by (intro exI [of _ "generation s"]) auto
qed

theorem selectCPUResourcePool_newest_witness:
  "\<exists>gen. mset [sample_slice] = mset (filter (\<lambda>rs. eligible ''n'' rs \<and> poolGeneration (slicePool rs) = gen) [sample_slice])"
  using selectCPUResourcePool_newest [OF sample_pool list.distinct(2)] by blast

section \<open>No nil dereference\<close>

abbreviation quiet :: "string + 'a \<Rightarrow> bool" where
  "quiet \<equiv> never ''panic''"

lemma cpuset_size_quiet: "quiet (cpuset_size sz parts)"
  by (induction sz parts rule: cpuset_size.induct) (auto simp: Let_def split: option.splits prod.splits)

lemma parseCPUSet_quiet: "\<forall>raw. quiet (parse raw) \<Longrightarrow> quiet (parseCPUSet parse raw)"
  unfolding parseCPUSet_def by (intro never_intros cpuset_size_quiet) simp_all

lemma smt_pairs_quiet: "quiet (smt_pairs cpus strided stride cs m)"
  by (induction cpus strided stride cs m rule: smt_pairs.induct) auto

lemma smt_atoms_quiet: "\<forall>raw. quiet (parse raw) \<Longrightarrow> quiet (smt_atoms parse atoms m)"
proof (induction atoms arbitrary: m)
  case (Cons a atoms)
  show ?case
    unfolding smt_atoms.simps Let_def using Cons
    by (auto intro!: never_intros parseCPUSet_quiet smt_pairs_quiet split: prod.splits)
qed simp

lemma decodeSMTLayout_quiet: "\<forall>raw. quiet (parse raw) \<Longrightarrow> quiet (decodeSMTLayout parse raw)"
  unfolding decodeSMTLayout_def by (rule smt_atoms_quiet)

lemma integer_quiet: "quiet (requiredCPUIntegerAttribute d k)"
  unfolding requiredCPUIntegerAttribute_def by (intro never_intros) simp_all

lemma string_quiet: "quiet (requiredCPUStringAttribute d k)"
  unfolding requiredCPUStringAttribute_def by (intro never_intros) simp_all

lemma cpu_info_quiet: "quiet (cpu_info d sk nn smt cpus siblings cpu)"
  unfolding cpu_info_def by (intro never_intros) simp_all

lemma NewCPUInfos_quiet: "\<forall>raw. quiet (parse raw) \<Longrightarrow> quiet (NewCPUInfos parse rs)"
  unfolding NewCPUInfos_def device_infos_def
  by (intro never_intros integer_quiet string_quiet parseCPUSet_quiet decodeSMTLayout_quiet cpu_info_quiet) simp_all

text \<open>A device that \<open>NewCPUInfos\<close> accepted has the attributes that are dereferenced later.\<close>

definition accepted :: "device \<Rightarrow> bool" where
  "accepted d \<longleftrightarrow> is_ok (cpuDeviceGroupOf d) \<and>
     Option.bind (map_of (deviceAttributes d) DraDriverCpu_SMTLayout) StringValue \<noteq> None"

lemma device_infos_accepted: "device_infos parse d = Inr infos \<Longrightarrow> accepted d"
proof -
  assume "device_infos parse d = Inr infos"
  then obtain socket rawSMT where "requiredCPUIntegerAttribute d DraDriverCpu_SocketID = Inr socket"
    "requiredCPUStringAttribute d DraDriverCpu_SMTLayout = Inr rawSMT"
    by (rule device_infos_Inr)
  then show ?thesis
    unfolding accepted_def cpuDeviceGroupOf_def requiredCPUIntegerAttribute_def requiredCPUStringAttribute_def
    by (elim result_elims) auto
qed

lemma NewCPUInfos_accepted: "NewCPUInfos parse (Some rs) = Inr infos \<Longrightarrow> \<forall>d\<in>set (sliceDevices rs). accepted d"
proof -
  assume "NewCPUInfos parse (Some rs) = Inr infos"
  then obtain iss where "list_all2 (\<lambda>d is. device_infos parse d = Inr is) (sliceDevices rs) iss"
    unfolding NewCPUInfos_def option.case by (elim result_elims) (auto simp: collect_eq_Inr)
  then have "device_infos parse (sliceDevices rs ! i) = Inr (iss ! i)" if "i < length (sliceDevices rs)" for i
    using that by (auto simp: list_all2_conv_all_nth)
  then show ?thesis by (metis device_infos_accepted in_set_conv_nth)
qed

lemma addDevices_quiet:
  assumes "\<forall>d\<in>set ds. accepted d" "\<forall>d\<in>snd ` set (accDevices acc). accepted d"
  shows "quiet (addDevices src ds acc) \<and>
    (\<forall>acc'. addDevices src ds acc = Inr acc' \<longrightarrow> (\<forall>d\<in>snd ` set (accDevices acc'). accepted d))"
  using assms
proof (induction ds arbitrary: acc)
  case (Cons d ds)
  obtain g where g: "cpuDeviceGroupOf d = Inr g"
    using Cons.prems(1) by (cases "cpuDeviceGroupOf d") (auto simp: accepted_def)
  let ?acc = "acc\<lparr>accGroups := AList.update g (deviceName d) (accGroups acc),
          accDevices := AList.update (deviceName d) d (accDevices acc),
          deviceSlices := AList.update (deviceName d) src (deviceSlices acc)\<rparr>"
  have "\<forall>x\<in>snd ` set (accDevices ?acc). accepted x"
  proof
    fix x assume "x \<in> snd ` set (accDevices ?acc)"
    then have "x = d \<or> x \<in> snd ` set (accDevices acc)"
      using update_values [of "deviceName d" d "accDevices acc"] by auto
    then show "accepted x" using Cons.prems by (metis list.set_intros(1))
  qed
  from Cons.IH [OF _ this] Cons.prems(1) g show ?case by simp
qed simp

lemma addCPUIDs_quiet: "quiet (addCPUIDs src cs m)"
  by (induction src cs m rule: addCPUIDs.induct) auto

lemma addSlices_quiet:
  assumes "\<forall>raw. quiet (parse raw)" "\<forall>d\<in>snd ` set (accDevices acc). accepted d"
  shows "quiet (addSlices parse rss acc) \<and>
    (\<forall>acc'. addSlices parse rss acc = Inr acc' \<longrightarrow> (\<forall>d\<in>snd ` set (accDevices acc'). accepted d))"
  using assms(2)
proof (induction rss arbitrary: acc)
  case (Cons rs rss)
  have "quiet (NewCPUInfos parse (Some rs))" by (rule NewCPUInfos_quiet [OF assms(1)])
  then show ?case
  proof (cases "NewCPUInfos parse (Some rs)")
    case (Inr infos)
    note A = addDevices_quiet [OF NewCPUInfos_accepted [OF Inr] Cons.prems, of "sliceName rs"]
    show ?thesis
    proof (cases "addDevices (sliceName rs) (sliceDevices rs) acc")
      case d: (Inr acc1)
      show ?thesis
      proof (cases "addCPUIDs (sliceName rs) infos (cpuIDSlices acc1)")
        case (Inl e)
        then show ?thesis using addCPUIDs_quiet [of "sliceName rs" infos "cpuIDSlices acc1"] Inr d \<open>NewCPUInfos parse (Some rs) = Inr infos\<close> by simp
      next
        case ids: (Inr ids)
        have "\<forall>d\<in>snd ` set (accDevices (acc1\<lparr>cpuIDSlices := ids, accInfos := accInfos acc1 @ infos\<rparr>)). accepted d"
          using A d by simp
        from Cons.IH [OF this] show ?thesis using Inr d ids by simp
      qed
    qed (use A Inr in simp)
  qed simp
qed simp

lemma groups_quiet: "quiet (validateCPUDeviceGroups groups)"
proof -
  have "quiet (numaSockets gs m)" for gs m
    by (induction gs m rule: numaSockets.induct) (auto split: option.splits)
  then show ?thesis unfolding validateCPUDeviceGroups_def by (intro never_intros) simp_all
qed

lemma uniform_quiet: "quiet (uniform w ns)"
  by (induction w ns rule: uniform.induct) auto

lemma topology_quiet: "quiet (validateCPUCoreTopology infos)"
proof -
  have "quiet (coreThreads cs ct th)" for cs ct th
    by (induction cs ct th rule: coreThreads.induct) (auto simp: Let_def)
  then show ?thesis unfolding validateCPUCoreTopology_def by (intro never_intros uniform_quiet) simp_all
qed

lemma select_quiet: "quiet (selectCPUResourcePool N rss)"
proof -
  have one: "quiet (addCPUSlice N rs m)" for rs m
    unfolding addCPUSlice_def Let_def by (intro never_intros) simp_all
  have "quiet (addCPUSlices N rss m)" for m
    by (induction rss arbitrary: m) (auto intro!: never_rbind one)
  then show ?thesis
    unfolding selectCPUResourcePool_def by (auto intro!: never_rbind split: list.splits prod.splits)
qed

lemma Geometry_quiet:
  assumes "\<forall>d\<in>snd ` set (CPUDevices n). accepted d"
    "\<forall>c\<in>set (AbstractToMachine (CpuMap n)). finite c \<and> c \<noteq> {} \<and> c \<subseteq> dom (map_of (CPUInfoMap (CpuMap n)))"
  shows "quiet (Geometry (Some n))"
proof -
  have cores: "quiet (geometryCores (CpuMap n) (AbstractToMachine (CpuMap n)) 0 [])"
    using geometryCores_defined [OF assms(2)] by (simp add: never_def)
  have groups: "quiet (collect (cpuDeviceGroupOf \<circ> snd) (CPUDevices n))"
  proof (rule never_collect)
    fix x assume "x \<in> set (CPUDevices n)"
    then have "accepted (snd x)" using assms(1) by blast
    then show "quiet ((cpuDeviceGroupOf \<circ> snd) x)"
      by (cases "cpuDeviceGroupOf (snd x)") (auto simp: accepted_def)
  qed
  show ?thesis
    unfolding Geometry_def option.case
    by (auto intro!: never_rbind never_if cores groups uniform_quiet split: prod.splits)
qed

text \<open>
  C31. Building the CPU topology never dereferences a nil pointer or indexes an empty slice: the
  attributes that later loops read through their pointers are present on every device that the
  first pass accepted, and every mapped CPU has its record.
\<close>

theorem NewNodeInfo_no_panic:
  assumes "cpuset_parse_ok parse" "\<forall>raw. never ''panic'' (parse raw)"
  shows "NewNodeInfoFromResourceSlices parse nodeName rss \<noteq> Inl ''panic''"
proof -
  have "quiet (NewNodeInfoFromResourceSlices parse nodeName rss)"
    unfolding NewNodeInfoFromResourceSlices_def
  proof (intro never_rbind select_quiet, clarify, intro never_rbind)
    fix pool cpuSlices
    have A: "quiet (addSlices parse cpuSlices empty_acc) \<and> (\<forall>acc'. addSlices parse cpuSlices empty_acc = Inr acc' \<longrightarrow>
        (\<forall>d\<in>snd ` set (accDevices acc'). accepted d))"
      by (rule addSlices_quiet [OF assms(2)]) (simp add: empty_acc_def)
    then show "quiet (addSlices parse cpuSlices empty_acc)" by simp
    fix acc assume run: "addSlices parse cpuSlices empty_acc = Inr acc"
    then have dev: "\<forall>d\<in>snd ` set (accDevices acc). accepted d" using A by blast
    have ok: "acc_ok acc" using addSlices_ok [OF assms(1) run empty_acc_ok] .
    let ?n = "\<lparr>CpuMap = NewCPUMap pool (accInfos acc), CPUDevices = accDevices acc\<rparr>"
    have "\<forall>c\<in>set (AbstractToMachine (CpuMap ?n)). finite c \<and> c \<noteq> {} \<and> c \<subseteq> dom (map_of (CPUInfoMap (CpuMap ?n)))"
      unfolding NodeInfo.simps NewCPUMap_infos NewCPUMap_cores by (auto simp: findCoreSiblings_def)
    with dev have G: "quiet (Geometry (Some ?n))" by (intro Geometry_quiet) simp_all
    have L: "quiet (siblingsLocal parse (CpuMap ?n) (accInfos acc) x)" if "x \<in> set (CPUDevices ?n)" for x
    proof -
      have "accepted (snd x)" using dev that by auto
      then show ?thesis
        unfolding siblingsLocal_def accepted_def
        by (auto intro!: never_rbind decodeSMTLayout_quiet [OF assms(2)] split: prod.splits option.splits)
    qed
    show "quiet (let cpuInfos = accInfos acc in
       if length cpuInfos = 0 then Inr \<lparr>CpuMap = empty_cpumap, CPUDevices = accDevices acc\<rparr>
       else
         rbind (validateCPUDeviceGroups (accGroups acc)) (\<lambda>_.
         rbind (validateCPUCoreTopology cpuInfos) (\<lambda>_.
         let n = \<lparr>CpuMap = NewCPUMap pool cpuInfos, CPUDevices = accDevices acc\<rparr> in
         rbind (Geometry (Some n)) (\<lambda>_.
         rbind (collect (siblingsLocal parse (CpuMap n) cpuInfos) (CPUDevices n)) (\<lambda>_.
           Inr n)))))"
      unfolding Let_def
      by (intro never_intros groups_quiet topology_quiet G L)
  qed
  then show ?thesis by (simp add: never_def)
qed

theorem NewNodeInfo_no_panic_witness:
  "NewNodeInfoFromResourceSlices model_parse ''n'' [sample_slice, sample_slice] \<noteq> Inl ''panic''"
  by (rule NewNodeInfo_no_panic [OF model_parse_ok]) (simp add: model_parse_def)

end
