(* ===== verification/Dra_Gres.thy ===== *)
theory Dra_Gres
  imports Resource_Types
begin

text \<open>
  \<open>internal/dra/profile.go\<close> and \<open>gres.go\<close>: device profiles, the Slurm GRES inventory of a node
  and its record in the node's \<open>Extra\<close> field.  The parameter \<open>isLabel\<close> is the verdict of the
  Kubernetes validation \<open>IsDNS1123Label\<close>, \<open>show\<close> is \<open>CPUSet.String\<close>, and \<open>json_codec\<close> holds
  \<open>json.Marshal\<close> and \<open>json.Unmarshal\<close> on the wire record; \<open>json_codec_ok\<close> states that on ASCII
  text decoding inverts encoding, with the keys of an object in sorted order.  The results are
  the round trip of device paths and of the applied inventory, and the index each device gets.
\<close>

section \<open>Profiles\<close>

datatype backend = CoreBitmapBackend | IndexedGRESBackend string | OtherBackend

record DeviceProfile =
  profName :: string
  profDriver :: string
  profSelector :: string
  profBackend :: "backend option"

record DeviceIdentity =
  idDriver :: string
  idPool :: string
  idDevice :: string

datatype dra_err = OverlappingDeviceProfiles DeviceIdentity string string | DraErr string

definition NewBackend :: "string \<Rightarrow> string \<Rightarrow> dra_err + backend" where
  "NewBackend typeName gresName =
     (if typeName = ''core-bitmap'' then Inr CoreBitmapBackend
      else if typeName = ''indexed-gres'' then Inr (IndexedGRESBackend gresName)
      else Inl (DraErr ''backend type''))"

definition UsesCoreBitmap :: "DeviceProfile \<Rightarrow> bool" where
  "UsesCoreBitmap p = (profBackend p = Some CoreBitmapBackend)"

definition UsesIndexedGRES :: "DeviceProfile \<Rightarrow> bool" where
  "UsesIndexedGRES p = (case profBackend p of Some (IndexedGRESBackend _) \<Rightarrow> True | _ \<Rightarrow> False)"

section \<open>GRES names\<close>

definition AppliedInventoryExtraPrefix :: string where "AppliedInventoryExtraPrefix = ''slurm-bridge.dra-gres-map=''"
definition appliedInventoryVersion :: int where "appliedInventoryVersion = 1"
definition devicePathPrefix :: string where "devicePathPrefix = ''/dra/''"

text \<open>A DNS label has at most 63 bytes and a claim at most 32 device requests.\<close>

definition indexedGRESNameMaxLength :: nat where
  "indexedGRESNameMaxLength = 63 - 1 - length (show_nat 32)"

record GRES =
  gresName :: string
  gresType :: string

definition GRES_String :: "GRES \<Rightarrow> string" where
  "GRES_String g = gresName g @ '':'' @ gresType g"

definition is_alnum :: "char \<Rightarrow> bool" where
  "is_alnum c = (let n = (of_char c :: nat) in
     48 \<le> n \<and> n \<le> 57 \<or> 65 \<le> n \<and> n \<le> 90 \<or> 97 \<le> n \<and> n \<le> 122)"

text \<open>The pattern \<open>^[A-Za-z0-9]([A-Za-z0-9_.-]*[A-Za-z0-9])?$\<close>.\<close>

definition deviceProfileNamePattern :: "string \<Rightarrow> bool" where
  "deviceProfileNamePattern s = (s \<noteq> [] \<and> is_alnum (hd s) \<and> is_alnum (last s) \<and>
     list_all (\<lambda>c. is_alnum c \<or> c \<in> set ''_.-'') s)"

definition profile_GRES :: "(string \<Rightarrow> bool) \<Rightarrow> DeviceProfile \<Rightarrow> dra_err + GRES" where
  "profile_GRES isLabel p = (case profBackend p of
     Some (IndexedGRESBackend name) \<Rightarrow>
       if name = [] then Inl (DraErr ''empty GRES name'')
       else if length name > indexedGRESNameMaxLength then Inl (DraErr ''GRES name length'')
       else if \<not> isLabel name then Inl (DraErr ''GRES name'')
       else if profName p = [] then Inl (DraErr ''empty profile name'')
       else if \<not> deviceProfileNamePattern (profName p) then Inl (DraErr ''GRES type'')
       else Inr \<lparr>gresName = name, gresType = profName p\<rparr>
   | _ \<Rightarrow> Inl (DraErr ''unsupported backend''))"

section \<open>Device paths\<close>

definition encodeDevicePath :: "DeviceIdentity \<Rightarrow> dra_err + string" where
  "encodeDevicePath d =
     (if idDriver d = [] \<or> idPool d = [] \<or> idDevice d = [] then Inl (DraErr ''identity'')
      else Inr (devicePathPrefix @ idDriver d @ ''/'' @ idPool d @ ''/'' @ idDevice d))"

text \<open>\<open>strings.LastIndexByte\<close>: the text before and after the last occurrence.\<close>

definition cut_last :: "char \<Rightarrow> string \<Rightarrow> (string \<times> string) option" where
  "cut_last c s = (case cut_at c (rev s) of None \<Rightarrow> None | Some (a, b) \<Rightarrow> Some (rev b, rev a))"

definition decodeDevicePath :: "string \<Rightarrow> dra_err + DeviceIdentity" where
  "decodeDevicePath path = (case cut_prefix path devicePathPrefix of
     None \<Rightarrow> Inl (DraErr ''path prefix'')
   | Some identity \<Rightarrow> (case cut_at CHR ''/'' identity of
       None \<Rightarrow> Inl (DraErr ''path'')
     | Some (driver, poolAndDevice) \<Rightarrow> (case cut_last CHR ''/'' poolAndDevice of
         None \<Rightarrow> Inl (DraErr ''path'')
       | Some (pool, dev) \<Rightarrow>
           if driver = [] \<or> pool = [] \<or> dev = [] then Inl (DraErr ''path'')
           else Inr \<lparr>idDriver = driver, idPool = pool, idDevice = dev\<rparr>)))"

section \<open>Inventories\<close>

record GRESInventory =
  invGRES :: GRES
  invDevices :: "DeviceIdentity list"
  invNUMANodes :: "(DeviceIdentity, int list) gomap"
  invCores :: "(DeviceIdentity, int list) gomap"

definition bindCores :: "(int, int list) gomap \<Rightarrow> (DeviceIdentity, int list) gomap \<Rightarrow> DeviceIdentity \<Rightarrow> (DeviceIdentity, int list) gomap \<Rightarrow> (DeviceIdentity, int list) gomap" where
  "bindCores numaCores numaNodes dev cores =
     (let cs = remdups_adj (sort (concat (map (get_or [] numaCores) (get_or [] numaNodes dev)))) in
      if cs = [] then cores
      else if last cs - hd cs \<noteq> int (length cs) - 1 then cores
      else AList.update dev cs cores)"

definition WithNUMACores :: "(int, int list) gomap \<Rightarrow> GRESInventory \<Rightarrow> GRESInventory" where
  "WithNUMACores numaCores g =
     g\<lparr>invCores := fold (bindCores numaCores (invNUMANodes g)) (invDevices g) []\<rparr>"

definition deviceCores :: "(cpuset \<Rightarrow> string) \<Rightarrow> GRESInventory \<Rightarrow> nat \<Rightarrow> string" where
  "deviceCores show g i = (let cores = get_or [] (invCores g) (invDevices g ! i) in
     if cores = [] then [] else show (set cores))"

definition appliedInventoryEntry :: "GRESInventory \<Rightarrow> dra_err + string \<times> string list" where
  "appliedInventoryEntry g =
     (if gresType (invGRES g) = [] then Inl (DraErr ''empty profile name'')
      else rmap (Pair (gresType (invGRES g))) (collect encodeDevicePath (invDevices g)))"

definition SlurmConfig :: "(cpuset \<Rightarrow> string) \<Rightarrow> GRESInventory \<Rightarrow> dra_err + string \<times> string" where
  "SlurmConfig show g = rbind (appliedInventoryEntry g) (\<lambda>(profileName, devices).
     if gresName (invGRES g) = [] then Inl (DraErr ''empty GRES name'')
     else if length devices = 0 then Inl (DraErr ''no devices'')
     else Inr (GRES_String (invGRES g) @ '':'' @ show_nat (length devices),
       join_with ''+'' (map (\<lambda>(i, dev).
         ''count=1,name='' @ gresName (invGRES g) @ '',type='' @ profileName @ '',file='' @ dev @
         (if deviceCores show g i \<noteq> [] then '',cpus='' @ deviceCores show g i else [])) (enumerate 0 devices))))"

section \<open>The applied inventory\<close>

record AppliedProfileInventory =
  FirstIndex :: int
  AppliedDevices :: "DeviceIdentity list"

type_synonym AppliedInventory = "(string, AppliedProfileInventory) gomap"

fun selectDevices :: "AppliedProfileInventory \<Rightarrow> int list \<Rightarrow> int list \<Rightarrow> dra_err + DeviceIdentity list" where
  "selectDevices p [] seen_idx = Inr []"
| "selectDevices p (index # rest) seen_idx =
     (let localIndex = index - FirstIndex p in
      if localIndex < 0 \<or> localIndex \<ge> int (length (AppliedDevices p)) then Inl (DraErr ''index range'')
      else if index \<in> set seen_idx then Inl (DraErr ''repeated index'')
      else rmap ((#) (AppliedDevices p ! nat localIndex)) (selectDevices p rest (index # seen_idx)))"

definition applied_Devices :: "AppliedInventory \<Rightarrow> string \<Rightarrow> int list \<Rightarrow> dra_err + DeviceIdentity list" where
  "applied_Devices a profileName indexes = (case map_of a profileName of
     None \<Rightarrow> Inl (DraErr ''unknown profile'')
   | Some p \<Rightarrow> selectDevices p indexes [])"

record appliedProfileInventoryWire =
  wireFirstIndex :: int
  wireDevices :: "string list"
  wireCores :: "string list"

record appliedInventoryWire =
  wireVersion :: int
  wireProfiles :: "(string, appliedProfileInventoryWire) gomap option"
  wireFingerprint :: string

record json_codec =
  marshal :: "appliedInventoryWire \<Rightarrow> string"
  unmarshal :: "string \<Rightarrow> dra_err + appliedInventoryWire"

definition profileEntry :: "(cpuset \<Rightarrow> string) \<Rightarrow> GRESInventory \<Rightarrow> int \<Rightarrow> string list \<Rightarrow> appliedProfileInventoryWire" where
  "profileEntry show g firstIndex devices = \<lparr>wireFirstIndex = firstIndex, wireDevices = devices,
     wireCores = (if length (invCores g) > 0 then map (deviceCores show g) [0..<length devices] else [])\<rparr>"

fun encodeProfiles :: "(cpuset \<Rightarrow> string) \<Rightarrow> GRESInventory list \<Rightarrow> (string, appliedProfileInventoryWire) gomap \<Rightarrow>
    (string, int) gomap \<Rightarrow> dra_err + (string, appliedProfileInventoryWire) gomap" where
  "encodeProfiles show [] profiles nextIndexes = Inr profiles"
| "encodeProfiles show (g # gs) profiles nextIndexes =
     rbind (appliedInventoryEntry g) (\<lambda>(profileName, devices).
       if map_of profiles profileName \<noteq> None then Inl (DraErr ''duplicate profile'')
       else (let firstIndex = get_or 0 nextIndexes (gresName (invGRES g)) in
         encodeProfiles show gs
           (AList.update profileName (profileEntry show g firstIndex devices) profiles)
           (AList.update (gresName (invGRES g)) (firstIndex + int (length devices)) nextIndexes)))"

definition EncodeAppliedInventory :: "json_codec \<Rightarrow> (cpuset \<Rightarrow> string) \<Rightarrow> GRESInventory list \<Rightarrow> dra_err + string" where
  "EncodeAppliedInventory J show inventory =
     rmap (\<lambda>profiles. AppliedInventoryExtraPrefix @ marshal J
       \<lparr>wireVersion = appliedInventoryVersion, wireProfiles = Some profiles, wireFingerprint = []\<rparr>)
     (encodeProfiles show inventory [] [])"

definition decodeProfile :: "string \<times> appliedProfileInventoryWire \<Rightarrow> dra_err + string \<times> AppliedProfileInventory" where
  "decodeProfile np = (case np of (profileName, profile) \<Rightarrow>
     if profileName = [] then Inl (DraErr ''empty profile name'')
     else if wireFirstIndex profile < 0 then Inl (DraErr ''negative index'')
     else rmap (\<lambda>devices. (profileName, \<lparr>FirstIndex = wireFirstIndex profile, AppliedDevices = devices\<rparr>))
       (collect decodeDevicePath (wireDevices profile)))"

definition DecodeAppliedInventory :: "json_codec \<Rightarrow> string \<Rightarrow> dra_err + AppliedInventory" where
  "DecodeAppliedInventory J extra = (case cut_prefix extra AppliedInventoryExtraPrefix of
     None \<Rightarrow> Inl (DraErr ''no DRA GRES map'')
   | Some text \<Rightarrow> rbind (unmarshal J text) (\<lambda>wire.
       if wireVersion wire \<noteq> appliedInventoryVersion then Inl (DraErr ''version'')
       else (case wireProfiles wire of
           None \<Rightarrow> Inl (DraErr ''no profiles'')
         | Some profiles \<Rightarrow> collect decodeProfile profiles)))"

definition trim_prefix :: "string \<Rightarrow> string \<Rightarrow> string" where
  "trim_prefix s p = (case cut_prefix s p of None \<Rightarrow> s | Some r \<Rightarrow> r)"

definition WithAppliedCPUFingerprint :: "json_codec \<Rightarrow> (cpuset \<Rightarrow> string) \<Rightarrow> string \<Rightarrow> string \<Rightarrow> dra_err + string" where
  "WithAppliedCPUFingerprint J show extra0 fingerprint =
     rbind (if extra0 = [] then EncodeAppliedInventory J show [] else Inr extra0) (\<lambda>extra.
     rbind (DecodeAppliedInventory J extra) (\<lambda>_.
     rbind (unmarshal J (trim_prefix extra AppliedInventoryExtraPrefix)) (\<lambda>wire.
       Inr (AppliedInventoryExtraPrefix @ marshal J (wire\<lparr>wireFingerprint := fingerprint\<rparr>)))))"

definition AppliedCPUFingerprint :: "json_codec \<Rightarrow> string \<Rightarrow> dra_err + string" where
  "AppliedCPUFingerprint J extra =
     rbind (DecodeAppliedInventory J extra) (\<lambda>_.
     rmap wireFingerprint (unmarshal J (trim_prefix extra AppliedInventoryExtraPrefix)))"

section \<open>Device paths round-trip\<close>

definition valid_id :: "DeviceIdentity \<Rightarrow> bool" where
  "valid_id d \<longleftrightarrow> idDriver d \<noteq> [] \<and> CHR ''/'' \<notin> set (idDriver d) \<and> idPool d \<noteq> [] \<and>
     idDevice d \<noteq> [] \<and> CHR ''/'' \<notin> set (idDevice d)"

definition path_of :: "DeviceIdentity \<Rightarrow> string" where
  "path_of d = devicePathPrefix @ idDriver d @ ''/'' @ idPool d @ ''/'' @ idDevice d"

lemma encode_path: "valid_id d \<Longrightarrow> encodeDevicePath d = Inr (path_of d)"
  by (simp add: encodeDevicePath_def valid_id_def path_of_def)

lemma cut_last_append: "c \<notin> set b \<Longrightarrow> cut_last c (a @ c # b) = Some (a, b)"
proof -
  assume "c \<notin> set b"
  then have "cut_at c (rev b @ c # rev a) = Some (rev b, rev a)" by (simp add: cut_at_Some)
  then show ?thesis by (simp add: cut_last_def)
qed

lemma decode_path: "valid_id d \<Longrightarrow> decodeDevicePath (path_of d) = Inr d"
proof -
  assume v: "valid_id d"
  have 1: "cut_prefix (path_of d) devicePathPrefix = Some (idDriver d @ ''/'' @ idPool d @ ''/'' @ idDevice d)"
    by (simp add: cut_prefix_Some path_of_def)
  have 2: "cut_at CHR ''/'' (idDriver d @ ''/'' @ idPool d @ ''/'' @ idDevice d) = Some (idDriver d, idPool d @ ''/'' @ idDevice d)"
    using v by (simp add: cut_at_Some valid_id_def)
  have 3: "cut_last CHR ''/'' (idPool d @ ''/'' @ idDevice d) = Some (idPool d, idDevice d)"
    using cut_last_append [of "CHR ''/''" "idDevice d" "idPool d"] v by (simp add: valid_id_def)
  show ?thesis using v unfolding decodeDevicePath_def 1 option.case 2 prod.case 3 by (simp add: valid_id_def)
qed

interpretation device_path: codec path_of "\<lambda>s. case decodeDevicePath s of Inl _ \<Rightarrow> None | Inr d \<Rightarrow> Some d" valid_id
  by unfold_locales (simp add: decode_path)

section \<open>Index assignment\<close>

text \<open>
  Slurm numbers the devices of one GRES name across all types with that name.  \<open>name_devices\<close>
  lists them in this order; \<open>offset\<close> is where an inventory starts.
\<close>

abbreviation inv_name :: "GRESInventory \<Rightarrow> string" where "inv_name g \<equiv> gresName (invGRES g)"
abbreviation inv_type :: "GRESInventory \<Rightarrow> string" where "inv_type g \<equiv> gresType (invGRES g)"

definition name_devices :: "string \<Rightarrow> GRESInventory list \<Rightarrow> DeviceIdentity list" where
  "name_devices name gs = concat (map invDevices (filter (\<lambda>h. inv_name h = name) gs))"

definition offset :: "GRESInventory list \<Rightarrow> nat \<Rightarrow> nat" where
  "offset gs k = length (name_devices (inv_name (gs ! k)) (take k gs))"

lemma name_devices_nth:
  assumes "k < length gs" "j < length (invDevices (gs ! k))"
  shows "name_devices (inv_name (gs ! k)) gs ! (offset gs k + j) = invDevices (gs ! k) ! j"
proof -
  let ?n = "inv_name (gs ! k)"
  have "name_devices ?n gs = name_devices ?n (take k gs @ gs ! k # drop (Suc k) gs)"
    by (rule arg_cong [OF id_take_nth_drop [OF assms(1)]])
  also have "\<dots> = name_devices ?n (take k gs) @ invDevices (gs ! k) @ name_devices ?n (drop (Suc k) gs)"
    by (simp add: name_devices_def)
  finally have "name_devices ?n gs ! (offset gs k + j) =
      (name_devices ?n (take k gs) @ invDevices (gs ! k) @ name_devices ?n (drop (Suc k) gs)) ! (offset gs k + j)"
    by (rule arg_cong)
  then show ?thesis using assms(2) by (simp add: offset_def nth_append)
qed

lemma appliedInventoryEntry_Inr:
  assumes "appliedInventoryEntry g = Inr (n, devices)"
  shows "n = inv_type g" "n \<noteq> []" "collect encodeDevicePath (invDevices g) = Inr devices" "length devices = length (invDevices g)"
  using assms unfolding appliedInventoryEntry_def by (auto simp: rmap_eq_Inr dest: collect_length split: if_splits)

lemma encodeProfiles_step:
  assumes "encodeProfiles show (g # gs) ps nx = Inr ps'"
  obtains devices where "appliedInventoryEntry g = Inr (inv_type g, devices)" "map_of ps (inv_type g) = None"
    "encodeProfiles show gs (AList.update (inv_type g) (profileEntry show g (get_or 0 nx (inv_name g)) devices) ps)
       (AList.update (inv_name g) (get_or 0 nx (inv_name g) + int (length (invDevices g))) nx) = Inr ps'"
proof -
  obtain n devices where e: "appliedInventoryEntry g = Inr (n, devices)"
    and r: "(if map_of ps n \<noteq> None then Inl (DraErr ''duplicate profile'')
       else (let firstIndex = get_or 0 nx (inv_name g) in
         encodeProfiles show gs (AList.update n (profileEntry show g firstIndex devices) ps)
           (AList.update (inv_name g) (firstIndex + int (length devices)) nx))) = Inr ps'"
    using assms unfolding encodeProfiles.simps by (elim rbind_InrE) (auto split: prod.splits)
  note E = appliedInventoryEntry_Inr [OF e]
  show thesis
    using that [of devices] e r E by (auto simp: Let_def split: if_splits)
qed

lemma encodeProfiles_keeps:
  assumes "encodeProfiles show gs ps nx = Inr ps'"
  shows "(\<forall>t v. map_of ps t = Some v \<longrightarrow> map_of ps' t = Some v) \<and>
    dom (map_of ps') = dom (map_of ps) \<union> inv_type ` set gs \<and> (gomap_ok ps \<longrightarrow> gomap_ok ps')"
  using assms
proof (induction gs arbitrary: ps nx)
  case (Cons g gs)
  from Cons.prems obtain devices where new: "map_of ps (inv_type g) = None" and run:
    "encodeProfiles show gs (AList.update (inv_type g) (profileEntry show g (get_or 0 nx (inv_name g)) devices) ps)
       (AList.update (inv_name g) (get_or 0 nx (inv_name g) + int (length (invDevices g))) nx) = Inr ps'"
    by (rule encodeProfiles_step)
  let ?ps = "AList.update (inv_type g) (profileEntry show g (get_or 0 nx (inv_name g)) devices) ps"
  note IH = Cons.IH [OF run]
  have "map_of ps' t = Some v" if "map_of ps t = Some v" for t v
  proof -
    have "map_of ?ps t = Some v" using that new by auto
    then show ?thesis using IH by blast
  qed
  moreover have "dom (map_of ps') = dom (map_of ps) \<union> inv_type ` set (g # gs)"
    using IH unfolding dom_upd_alist by auto
  ultimately show ?case using IH by simp
qed simp

lemma encodeProfiles_entry:
  assumes "encodeProfiles show gs ps nx = Inr ps'" "k < length gs"
  shows "\<exists>devices. appliedInventoryEntry (gs ! k) = Inr (inv_type (gs ! k), devices) \<and>
    map_of ps' (inv_type (gs ! k)) =
      Some (profileEntry show (gs ! k) (get_or 0 nx (inv_name (gs ! k)) + int (offset gs k)) devices)"
  using assms
proof (induction gs arbitrary: ps nx k)
  case (Cons g gs)
  from Cons.prems(1) obtain devices where e: "appliedInventoryEntry g = Inr (inv_type g, devices)"
    and run: "encodeProfiles show gs (AList.update (inv_type g) (profileEntry show g (get_or 0 nx (inv_name g)) devices) ps)
       (AList.update (inv_name g) (get_or 0 nx (inv_name g) + int (length (invDevices g))) nx) = Inr ps'"
    by (rule encodeProfiles_step)
  show ?case
  proof (cases k)
    case 0
    then show ?thesis using encodeProfiles_keeps [OF run] e by (auto simp: offset_def name_devices_def)
  next
    case (Suc j)
    have "offset (g # gs) (Suc j) = (if inv_name g = inv_name (gs ! j) then length (invDevices g) else 0) + offset gs j"
      by (simp add: offset_def name_devices_def)
    then show ?thesis using Cons.IH [OF run, of j] Cons.prems(2) Suc by (auto simp: add.assoc split: if_splits)
  qed
qed simp

section \<open>The applied inventory round-trips\<close>

definition ascii :: "string \<Rightarrow> bool" where
  "ascii s = list_all (\<lambda>c. (of_char c :: nat) < 128) s"

definition wire_ascii :: "appliedInventoryWire \<Rightarrow> bool" where
  "wire_ascii w \<longleftrightarrow> ascii (wireFingerprint w) \<and> (\<forall>(n, p)\<in>set (deref [] (wireProfiles w)).
     ascii n \<and> list_all ascii (wireDevices p) \<and> list_all ascii (wireCores p))"

definition canon :: "appliedInventoryWire \<Rightarrow> appliedInventoryWire" where
  "canon w = w\<lparr>wireProfiles := map_option (sort_key fst) (wireProfiles w)\<rparr>"

definition json_codec_ok :: "json_codec \<Rightarrow> bool" where
  "json_codec_ok J \<longleftrightarrow> (\<forall>w. wire_ascii w \<and> gomap_ok (deref [] (wireProfiles w)) \<longrightarrow>
     unmarshal J (marshal J w) = Inr (canon w))"

lemma ascii_append [simp]: "ascii (s @ t) \<longleftrightarrow> ascii s \<and> ascii t"
  by (simp add: ascii_def)

lemma ascii_Nil [simp]: "ascii []"
  by (simp add: ascii_def)

lemma map_of_sort: "gomap_ok m \<Longrightarrow> map_of (sort_key fst m) = map_of m"
proof -
  assume "gomap_ok m"
  then have d: "distinct (map fst m)" by (simp add: gomap_ok_def)
  have "distinct (map fst (sort_key fst m))"
    using d by (metis mset_eq_imp_distinct_iff mset_map mset_sort)
  then show ?thesis using d by (simp add: map_of_inject_set)
qed

lemma gomap_ok_sort: "gomap_ok m \<Longrightarrow> gomap_ok (sort_key fst m)"
  unfolding gomap_ok_def by (metis mset_eq_imp_distinct_iff mset_map mset_sort)

text \<open>Inventories as the registry produces them: valid identities and ASCII names.\<close>

definition inventory_ok :: "GRESInventory \<Rightarrow> bool" where
  "inventory_ok g \<longleftrightarrow> ascii (inv_type g) \<and>
     (\<forall>d\<in>set (invDevices g). valid_id d \<and> ascii (idDriver d) \<and> ascii (idPool d) \<and> ascii (idDevice d))"

definition applied_of :: "appliedProfileInventoryWire \<Rightarrow> AppliedProfileInventory" where
  "applied_of p = \<lparr>FirstIndex = wireFirstIndex p, AppliedDevices = map (\<lambda>s. projr (decodeDevicePath s)) (wireDevices p)\<rparr>"

lemma path_ascii: "ascii (idDriver d) \<Longrightarrow> ascii (idPool d) \<Longrightarrow> ascii (idDevice d) \<Longrightarrow> ascii (path_of d)"
  by (simp add: path_of_def devicePathPrefix_def) (simp add: ascii_def)

lemma entry_paths:
  assumes "inventory_ok g" "appliedInventoryEntry g = Inr (n, devices)"
  shows "devices = map path_of (invDevices g)"
proof -
  have "collect encodeDevicePath (invDevices g) = Inr (map path_of (invDevices g))"
    using assms(1) by (intro collect_Inr_map) (simp add: inventory_ok_def encode_path)
  then show ?thesis using appliedInventoryEntry_Inr(3) [OF assms(2)] by simp
qed

lemma entry_ascii:
  assumes "inventory_ok g" "\<forall>s. ascii (show s)"
  shows "list_all ascii (wireDevices (profileEntry show g i (map path_of (invDevices g))))"
    "list_all ascii (wireCores (profileEntry show g i (map path_of (invDevices g))))"
  using assms by (auto simp: profileEntry_def list_all_iff inventory_ok_def path_ascii deviceCores_def Let_def)

lemma decode_entry:
  assumes "inventory_ok g" "n \<noteq> []" "0 \<le> i"
  shows "decodeProfile (n, profileEntry show g i (map path_of (invDevices g))) =
    Inr (n, \<lparr>FirstIndex = i, AppliedDevices = invDevices g\<rparr>)"
proof -
  have "collect decodeDevicePath (map path_of (invDevices g)) =
      Inr (map (\<lambda>s. projr (decodeDevicePath s)) (map path_of (invDevices g)))"
    using assms(1) by (intro collect_Inr_map) (auto simp: inventory_ok_def decode_path)
  also have "map (\<lambda>s. projr (decodeDevicePath s)) (map path_of (invDevices g)) = invDevices g"
    using assms(1) by (auto simp: inventory_ok_def decode_path intro: map_idI)
  finally show ?thesis using assms(2,3) by (simp add: decodeProfile_def profileEntry_def)
qed

text \<open>The entries that encoding produces, one per inventory.\<close>

lemma encoded_entries:
  assumes "encodeProfiles show gs [] [] = Inr ps" "\<forall>g\<in>set gs. inventory_ok g" "(n, p) \<in> set ps"
  obtains k where "k < length gs" "n = inv_type (gs ! k)" "n \<noteq> []"
    "p = profileEntry show (gs ! k) (int (offset gs k)) (map path_of (invDevices (gs ! k)))"
proof -
  note K = encodeProfiles_keeps [OF assms(1)]
  have ok: "gomap_ok ps" using K by (simp add: gomap_ok_def)
  have np: "map_of ps n = Some p" using ok assms(3) by (simp add: gomap_ok_def)
  then have "n \<in> inv_type ` set gs" using K by auto
  then obtain k where k: "k < length gs" "n = inv_type (gs ! k)" by (auto simp: in_set_conv_nth)
  obtain devices where d: "appliedInventoryEntry (gs ! k) = Inr (inv_type (gs ! k), devices)"
    "map_of ps (inv_type (gs ! k)) = Some (profileEntry show (gs ! k) (int (offset gs k)) devices)"
    using encodeProfiles_entry [OF assms(1) k(1)] by (auto simp: get_or_def)
  have ok_k: "inventory_ok (gs ! k)" using assms(2) k(1) by simp
  show thesis
  proof (rule that [OF k])
    show "n \<noteq> []" unfolding k(2) by (rule appliedInventoryEntry_Inr(2) [OF d(1)])
    show "p = profileEntry show (gs ! k) (int (offset gs k)) (map path_of (invDevices (gs ! k)))"
      using np [unfolded k(2)] d(2) unfolding entry_paths [OF ok_k d(1)] by (metis option.inject)
  qed
qed

lemma decode_profiles:
  assumes "encodeProfiles show gs [] [] = Inr ps" "\<forall>g\<in>set gs. inventory_ok g"
  shows "\<exists>a. collect decodeProfile (sort_key fst ps) = Inr a \<and> (\<forall>k < length gs.
    map_of a (inv_type (gs ! k)) = Some \<lparr>FirstIndex = int (offset gs k), AppliedDevices = invDevices (gs ! k)\<rparr>)"
proof -
  define f where "f = (\<lambda>(n :: string, p). (n, applied_of p))"
  have ok: "gomap_ok ps" using encodeProfiles_keeps [OF assms(1)] by (simp add: gomap_ok_def)
  have one: "decodeProfile x = Inr (f x)" if x: "x \<in> set ps" for x
  proof -
    obtain n p where np: "x = (n, p)" by (cases x)
    from x encoded_entries [OF assms, of n p] np obtain k where k: "k < length gs" "n \<noteq> []"
      "p = profileEntry show (gs ! k) (int (offset gs k)) (map path_of (invDevices (gs ! k)))" by blast
    have g: "inventory_ok (gs ! k)" using assms(2) k(1) by simp
    have "map (\<lambda>s. projr (decodeDevicePath s)) (map path_of (invDevices (gs ! k))) = invDevices (gs ! k)"
      using g by (auto simp: inventory_ok_def decode_path intro: map_idI)
    then show ?thesis using decode_entry [OF g k(2), of "int (offset gs k)" "show"] k(3) np
      by (simp add: f_def applied_of_def profileEntry_def)
  qed
  then have run: "collect decodeProfile (sort_key fst ps) = Inr (map f (sort_key fst ps))"
    by (intro collect_Inr_map) simp
  have look: "map_of (map f (sort_key fst ps)) t = map_option applied_of (map_of ps t)" for t
    unfolding f_def map_of_map by (simp add: map_of_sort [OF ok])
  have "map_of (map f (sort_key fst ps)) (inv_type (gs ! k)) =
      Some \<lparr>FirstIndex = int (offset gs k), AppliedDevices = invDevices (gs ! k)\<rparr>" if k: "k < length gs" for k
  proof -
    obtain devices where d: "appliedInventoryEntry (gs ! k) = Inr (inv_type (gs ! k), devices)"
      "map_of ps (inv_type (gs ! k)) = Some (profileEntry show (gs ! k) (int (offset gs k)) devices)"
      using encodeProfiles_entry [OF assms(1) k] by (auto simp: get_or_def)
    have g: "inventory_ok (gs ! k)" using assms(2) k by simp
    have "map (\<lambda>s. projr (decodeDevicePath s)) (map path_of (invDevices (gs ! k))) = invDevices (gs ! k)"
      using g by (auto simp: inventory_ok_def decode_path intro: map_idI)
    then show ?thesis using d(2) entry_paths [OF g d(1)] by (simp add: look applied_of_def profileEntry_def)
  qed
  then show ?thesis using run by blast
qed

lemma selectDevices_all:
  assumes "distinct idx" "set idx \<inter> set seen_idx = {}"
    "\<forall>i\<in>set idx. FirstIndex p \<le> i \<and> i < FirstIndex p + int (length (AppliedDevices p))"
  shows "selectDevices p idx seen_idx = Inr (map (\<lambda>i. AppliedDevices p ! nat (i - FirstIndex p)) idx)"
  using assms
proof (induction idx arbitrary: seen_idx)
  case (Cons i idx)
  have "selectDevices p idx (i # seen_idx) = Inr (map (\<lambda>i. AppliedDevices p ! nat (i - FirstIndex p)) idx)"
    using Cons.prems by (intro Cons.IH) auto
  then show ?case using Cons.prems by (simp add: Let_def)
qed simp

lemma selectDevices_Inr:
  assumes "selectDevices p idx seen_idx = Inr ds"
  shows "distinct idx \<and> set idx \<inter> set seen_idx = {} \<and>
    (\<forall>i\<in>set idx. FirstIndex p \<le> i \<and> i < FirstIndex p + int (length (AppliedDevices p)))"
  using assms
proof (induction idx arbitrary: seen_idx ds)
  case (Cons i idx)
  from Cons.prems obtain ds' where "selectDevices p idx (i # seen_idx) = Inr ds'" "FirstIndex p \<le> i"
    "i < FirstIndex p + int (length (AppliedDevices p))" "i \<notin> set seen_idx"
    by (auto simp: Let_def rmap_eq_Inr split: if_splits)
  then show ?case using Cons.IH [of "i # seen_idx" ds'] by auto
qed simp

lemma encoded_wire:
  assumes "json_codec_ok J" "\<forall>s. ascii (show s)" "\<forall>g\<in>set gs. inventory_ok g" "ascii fp"
    "encodeProfiles show gs [] [] = Inr ps"
  shows "gomap_ok ps" "unmarshal J (marshal J \<lparr>wireVersion = appliedInventoryVersion, wireProfiles = Some ps, wireFingerprint = fp\<rparr>) =
      Inr \<lparr>wireVersion = appliedInventoryVersion, wireProfiles = Some (sort_key fst ps), wireFingerprint = fp\<rparr>"
    "unmarshal J (marshal J \<lparr>wireVersion = appliedInventoryVersion, wireProfiles = Some (sort_key fst ps), wireFingerprint = fp\<rparr>) =
      Inr \<lparr>wireVersion = appliedInventoryVersion, wireProfiles = Some (sort_key fst ps), wireFingerprint = fp\<rparr>"
proof -
  show ok: "gomap_ok ps" using encodeProfiles_keeps [OF assms(5)] by (simp add: gomap_ok_def)
  have asc: "ascii n \<and> list_all ascii (wireDevices p) \<and> list_all ascii (wireCores p)" if "(n, p) \<in> set ps" for n p
  proof -
    from that obtain k where k: "k < length gs" "n = inv_type (gs ! k)"
      "p = profileEntry show (gs ! k) (int (offset gs k)) (map path_of (invDevices (gs ! k)))"
      by (rule encoded_entries [OF assms(5,3)])
    have g: "inventory_ok (gs ! k)" using assms(3) k(1) by simp
    then show ?thesis using entry_ascii [OF g assms(2)] unfolding k(2,3) by (simp add: inventory_ok_def)
  qed
  have trip: "unmarshal J (marshal J w) = Inr (canon w)"
    if "wire_ascii w" "gomap_ok (deref [] (wireProfiles w))" for w
    using assms(1) that by (simp add: json_codec_ok_def)
  have sorted2: "sort_key fst (sort_key fst ps) = sort_key fst ps"
    by (intro sort_key_id_if_sorted) simp
  show "unmarshal J (marshal J \<lparr>wireVersion = appliedInventoryVersion, wireProfiles = Some ps, wireFingerprint = fp\<rparr>) =
      Inr \<lparr>wireVersion = appliedInventoryVersion, wireProfiles = Some (sort_key fst ps), wireFingerprint = fp\<rparr>"
    using asc ok assms(4) by (subst trip) (auto simp: wire_ascii_def canon_def)
  show "unmarshal J (marshal J \<lparr>wireVersion = appliedInventoryVersion, wireProfiles = Some (sort_key fst ps), wireFingerprint = fp\<rparr>) =
      Inr \<lparr>wireVersion = appliedInventoryVersion, wireProfiles = Some (sort_key fst ps), wireFingerprint = fp\<rparr>"
    using asc gomap_ok_sort [OF ok] assms(4) sorted2 by (subst trip) (auto simp: wire_ascii_def canon_def)
qed

lemma decode_text: "DecodeAppliedInventory J (AppliedInventoryExtraPrefix @ text) = rbind (unmarshal J text) (\<lambda>wire.
    if wireVersion wire \<noteq> appliedInventoryVersion then Inl (DraErr ''version'')
    else (case wireProfiles wire of None \<Rightarrow> Inl (DraErr ''no profiles'') | Some profiles \<Rightarrow> collect decodeProfile profiles))"
  by (simp add: DecodeAppliedInventory_def cut_prefix_def)

lemma trim_text: "trim_prefix (AppliedInventoryExtraPrefix @ text) AppliedInventoryExtraPrefix = text"
  by (simp add: trim_prefix_def cut_prefix_def)

lemma EncodeAppliedInventory_Inr:
  assumes "EncodeAppliedInventory J show gs = Inr extra"
  obtains ps where "encodeProfiles show gs [] [] = Inr ps" "extra = AppliedInventoryExtraPrefix @ marshal J
       \<lparr>wireVersion = appliedInventoryVersion, wireProfiles = Some ps, wireFingerprint = []\<rparr>"
  using assms unfolding EncodeAppliedInventory_def by (elim rmap_InrE)

text \<open>
  C17. The applied inventory that is written to a Slurm node decodes again, and it answers GRES
  index queries the way Slurm numbers the devices: the devices of one GRES name are numbered
  consecutively across the types with that name, a query for a type accepts exactly lists of
  distinct indexes in that type's range, and each index yields the device with that number.
\<close>

theorem applied_inventory_indexes:
  assumes "json_codec_ok J" "\<forall>s. ascii (show s)" "\<forall>g\<in>set gs. inventory_ok g"
    "EncodeAppliedInventory J show gs = Inr extra"
  shows "\<exists>a. DecodeAppliedInventory J extra = Inr a \<and> (\<forall>k < length gs. \<forall>idx.
    (is_ok (applied_Devices a (inv_type (gs ! k)) idx) \<longleftrightarrow> distinct idx \<and> (\<forall>i\<in>set idx. int (offset gs k) \<le> i \<and>
       i < int (offset gs k + length (invDevices (gs ! k))))) \<and>
    (\<forall>ds. applied_Devices a (inv_type (gs ! k)) idx = Inr ds \<longrightarrow>
       ds = map (\<lambda>i. name_devices (inv_name (gs ! k)) gs ! nat i) idx))"
proof -
  obtain ps where ps: "encodeProfiles show gs [] [] = Inr ps" and extra: "extra = AppliedInventoryExtraPrefix @ marshal J
       \<lparr>wireVersion = appliedInventoryVersion, wireProfiles = Some ps, wireFingerprint = []\<rparr>"
    by (rule EncodeAppliedInventory_Inr [OF assms(4)])
  obtain a where a: "collect decodeProfile (sort_key fst ps) = Inr a" and look: "\<And>k. k < length gs \<Longrightarrow>
    map_of a (inv_type (gs ! k)) = Some \<lparr>FirstIndex = int (offset gs k), AppliedDevices = invDevices (gs ! k)\<rparr>"
    using decode_profiles [OF ps assms(3)] by blast
  have "DecodeAppliedInventory J extra = Inr a"
    unfolding extra decode_text encoded_wire(2) [OF assms(1-3) ascii_Nil ps] using a by simp
  moreover have "(is_ok (applied_Devices a (inv_type (gs ! k)) idx) \<longleftrightarrow> distinct idx \<and> (\<forall>i\<in>set idx. int (offset gs k) \<le> i \<and>
       i < int (offset gs k + length (invDevices (gs ! k))))) \<and>
    (\<forall>ds. applied_Devices a (inv_type (gs ! k)) idx = Inr ds \<longrightarrow>
       ds = map (\<lambda>i. name_devices (inv_name (gs ! k)) gs ! nat i) idx)" if k: "k < length gs" for k idx
  proof -
    let ?p = "\<lparr>FirstIndex = int (offset gs k), AppliedDevices = invDevices (gs ! k)\<rparr>"
    let ?in = "distinct idx \<and> (\<forall>i\<in>set idx. int (offset gs k) \<le> i \<and> i < int (offset gs k + length (invDevices (gs ! k))))"
    have run: "applied_Devices a (inv_type (gs ! k)) idx = selectDevices ?p idx []"
      by (simp add: applied_Devices_def look [OF k])
    have no: "\<not> is_ok (selectDevices ?p idx [])" if "\<not> ?in"
      using that selectDevices_Inr [of ?p idx "[]"] by (cases "selectDevices ?p idx []") auto
    have yes: "selectDevices ?p idx [] = Inr (map (\<lambda>i. name_devices (inv_name (gs ! k)) gs ! nat i) idx)" if i: ?in
    proof -
      have "selectDevices ?p idx [] = Inr (map (\<lambda>i. invDevices (gs ! k) ! nat (i - int (offset gs k))) idx)"
        using selectDevices_all [of idx "[]" ?p] i by simp
      also have "map (\<lambda>i. invDevices (gs ! k) ! nat (i - int (offset gs k))) idx =
          map (\<lambda>i. name_devices (inv_name (gs ! k)) gs ! nat i) idx"
      proof (rule map_cong [OF refl])
        fix x assume "x \<in> set idx"
        then have "int (offset gs k) \<le> x" "x < int (offset gs k + length (invDevices (gs ! k)))" using i by auto
        then have "nat (x - int (offset gs k)) < length (invDevices (gs ! k))"
          "offset gs k + nat (x - int (offset gs k)) = nat x" by auto
        then show "invDevices (gs ! k) ! nat (x - int (offset gs k)) = name_devices (inv_name (gs ! k)) gs ! nat x"
          using name_devices_nth [OF k] by metis
      qed
      finally show ?thesis .
    qed
    show ?thesis unfolding run using no yes by (cases ?in) auto
  qed
  ultimately show ?thesis by blast
qed

text \<open>
  C32. Adding a CPU fingerprint to an applied inventory, or to an empty \<open>Extra\<close> field, succeeds;
  the fingerprint is read back unchanged and the GRES inventory decodes as before.
\<close>

theorem applied_fingerprint_roundtrip:
  assumes "json_codec_ok J" "\<forall>s. ascii (show s)" "\<forall>g\<in>set gs. inventory_ok g" "ascii fingerprint"
    "EncodeAppliedInventory J show gs = Inr enc" "extra = enc \<or> extra = [] \<and> gs = []"
  shows "\<exists>extra'. WithAppliedCPUFingerprint J show extra fingerprint = Inr extra' \<and>
    AppliedCPUFingerprint J extra' = Inr fingerprint \<and> DecodeAppliedInventory J extra' = DecodeAppliedInventory J enc"
proof -
  obtain ps where ps: "encodeProfiles show gs [] [] = Inr ps" and enc: "enc = AppliedInventoryExtraPrefix @ marshal J
       \<lparr>wireVersion = appliedInventoryVersion, wireProfiles = Some ps, wireFingerprint = []\<rparr>"
    by (rule EncodeAppliedInventory_Inr [OF assms(5)])
  note W = encoded_wire [OF assms(1-3) _ ps]
  have start: "(if extra = [] then EncodeAppliedInventory J show [] else Inr extra) = Inr enc"
    using assms(5,6) enc by (auto simp: AppliedInventoryExtraPrefix_def)
  obtain a where a: "collect decodeProfile (sort_key fst ps) = Inr a"
    using decode_profiles [OF ps assms(3)] by blast
  have dec: "DecodeAppliedInventory J enc = Inr a"
    unfolding enc decode_text W(2) [OF ascii_Nil] using a by simp
  let ?w = "\<lparr>wireVersion = appliedInventoryVersion, wireProfiles = Some (sort_key fst ps), wireFingerprint = fingerprint\<rparr>"
  let ?extra = "AppliedInventoryExtraPrefix @ marshal J ?w"
  have w: "WithAppliedCPUFingerprint J show extra fingerprint = Inr ?extra"
    unfolding WithAppliedCPUFingerprint_def start by (simp add: dec) (simp add: enc trim_text W(2) [OF ascii_Nil])
  have dec': "DecodeAppliedInventory J ?extra = Inr a"
    unfolding decode_text W(3) [OF assms(4)] using a by simp
  have "AppliedCPUFingerprint J ?extra = Inr fingerprint"
    unfolding AppliedCPUFingerprint_def dec' trim_text W(3) [OF assms(4)] by simp
  then show ?thesis using w dec dec' by auto
qed

section \<open>A sample codec\<close>

text \<open>
  Length-prefixed strings, nested, give a codec for which \<open>json_codec_ok\<close> holds.
\<close>

definition netstring :: "string \<Rightarrow> string" where
  "netstring s = show_nat (length s) @ '':'' @ s"

function netstrings :: "string \<Rightarrow> string list" where
  "netstrings s = (case cut_at CHR '':'' s of None \<Rightarrow> []
     | Some (d, r) \<Rightarrow> take (digits_val d) r # netstrings (drop (digits_val d) r))"
  by auto
termination by (relation "measure length") (auto simp: cut_at_Some)

declare netstrings.simps [simp del]

lemma netstrings_concat: "netstrings (concat (map netstring xs)) = xs"
proof (induction xs)
  case (Cons x xs)
  have "CHR '':'' \<notin> set (show_nat (length x))" by (rule not_digit_show) (simp add: is_digit_def)
  then have "cut_at CHR '':'' (concat (map netstring (x # xs))) = Some (show_nat (length x), x @ concat (map netstring xs))"
    by (simp add: netstring_def cut_at_Some)
  then show ?case using Cons by (subst netstrings.simps) simp
qed (simp add: netstrings.simps)

definition plain_int :: "string \<Rightarrow> int" where
  "plain_int s = (if take 1 s = ''-'' then - int (digits_val (drop 1 s)) else int (digits_val s))"

lemma plain_show_int: "plain_int (show_int i) = i"
proof (cases "i < 0")
  case False
  have "hd (show_nat (nat i)) \<noteq> CHR ''-''" using is_digit_show_ends(1) [of "nat i"] by (auto simp: is_digit_def)
  then have "plain_int (show_nat (nat i)) = int (digits_val (show_nat (nat i)))"
    by (cases "show_nat (nat i)") (auto simp: plain_int_def)
  then show ?thesis using False by (simp add: show_int_def)
qed (simp add: show_int_def plain_int_def)

definition pack :: "string list \<Rightarrow> string" where
  "pack xs = concat (map netstring xs)"

lemma unpack [simp]: "netstrings (pack xs) = xs"
  by (simp add: pack_def netstrings_concat)

definition pack_profile :: "string \<times> appliedProfileInventoryWire \<Rightarrow> string" where
  "pack_profile np = (case np of (n, p) \<Rightarrow>
     pack [n, show_int (wireFirstIndex p), pack (wireDevices p), pack (wireCores p)])"

definition unpack_profile :: "string \<Rightarrow> string \<times> appliedProfileInventoryWire" where
  "unpack_profile s = (let xs = netstrings s in (xs ! 0, \<lparr>wireFirstIndex = plain_int (xs ! 1),
     wireDevices = netstrings (xs ! 2), wireCores = netstrings (xs ! 3)\<rparr>))"

lemma unpack_profile: "unpack_profile (pack_profile np) = np"
  by (cases np) (simp add: unpack_profile_def pack_profile_def plain_show_int numeral_3_eq_3 Let_def)

definition model_codec :: json_codec where
  "model_codec = \<lparr>
     marshal = (\<lambda>w. pack [show_int (wireVersion w), wireFingerprint w,
       (case wireProfiles w of None \<Rightarrow> [] | Some ps \<Rightarrow> ''p''),
       pack (map pack_profile (sort_key fst (deref [] (wireProfiles w))))]),
     unmarshal = (\<lambda>s. let xs = netstrings s in Inr \<lparr>wireVersion = plain_int (xs ! 0),
       wireProfiles = (if xs ! 2 = [] then None else Some (map unpack_profile (netstrings (xs ! 3)))),
       wireFingerprint = xs ! 1\<rparr>)\<rparr>"

lemma model_codec_ok: "json_codec_ok model_codec"
  unfolding json_codec_ok_def
proof (intro allI impI)
  fix w
  have "map (unpack_profile \<circ> pack_profile) ps = ps" for ps by (simp add: unpack_profile comp_def)
  then show "unmarshal model_codec (marshal model_codec w) = Inr (canon w)"
    by (cases "wireProfiles w")
      (simp_all add: model_codec_def canon_def plain_show_int numeral_2_eq_2 numeral_3_eq_3 Let_def)
qed

definition sample_id :: "string \<Rightarrow> DeviceIdentity" where
  "sample_id n = \<lparr>idDriver = ''gpu.example'', idPool = ''n'', idDevice = n\<rparr>"

definition sample_inventory :: "string \<Rightarrow> DeviceIdentity list \<Rightarrow> GRESInventory" where
  "sample_inventory t ds = \<lparr>invGRES = \<lparr>gresName = ''gpu'', gresType = t\<rparr>, invDevices = ds, invNUMANodes = [], invCores = []\<rparr>"

definition sample_gres :: "GRESInventory list" where
  "sample_gres = [sample_inventory ''a'' [sample_id ''g0'', sample_id ''g1''], sample_inventory ''b'' [sample_id ''g2'']]"

lemma sample_gres_ok: "\<forall>g\<in>set sample_gres. inventory_ok g"
  by (simp add: sample_gres_def sample_inventory_def sample_id_def inventory_ok_def valid_id_def ascii_def)

lemma sample_encode: "\<exists>extra. EncodeAppliedInventory model_codec (\<lambda>_. ''0'') sample_gres = Inr extra"
  by (simp add: EncodeAppliedInventory_def sample_gres_def sample_inventory_def sample_id_def appliedInventoryEntry_def
      encodeDevicePath_def Let_def)

theorem applied_inventory_indexes_witness:
  "\<exists>extra a. EncodeAppliedInventory model_codec (\<lambda>_. ''0'') sample_gres = Inr extra \<and>
     DecodeAppliedInventory model_codec extra = Inr a \<and> applied_Devices a ''b'' [2] = Inr [sample_id ''g2'']"
proof -
  obtain extra where e: "EncodeAppliedInventory model_codec (\<lambda>_. ''0'') sample_gres = Inr extra"
    using sample_encode by blast
  have k: "1 < length sample_gres" by (simp add: sample_gres_def)
  have "\<forall>s :: cpuset. ascii ((\<lambda>_. ''0'') s)" by (simp add: ascii_def)
  from applied_inventory_indexes [OF model_codec_ok this sample_gres_ok e] k
  obtain a where d: "DecodeAppliedInventory model_codec extra = Inr a"
    and ok: "is_ok (applied_Devices a (inv_type (sample_gres ! 1)) [2]) \<longleftrightarrow> distinct [2 :: int] \<and> (\<forall>i\<in>set [2]. int (offset sample_gres 1) \<le> i \<and>
       i < int (offset sample_gres 1 + length (invDevices (sample_gres ! 1))))"
    and val: "\<forall>ds. applied_Devices a (inv_type (sample_gres ! 1)) [2] = Inr ds \<longrightarrow>
       ds = map (\<lambda>i. name_devices (inv_name (sample_gres ! 1)) sample_gres ! nat i) [2]"
    by blast
  have "is_ok (applied_Devices a ''b'' [2])" and t: "inv_type (sample_gres ! 1) = ''b''"
    using ok by (simp_all add: sample_gres_def sample_inventory_def offset_def name_devices_def)
  then obtain ds where ds: "applied_Devices a ''b'' [2] = Inr ds" by (cases "applied_Devices a ''b'' [2]") auto
  have "ds = [sample_id ''g2'']"
    using val ds t by (simp add: sample_gres_def sample_inventory_def name_devices_def)
  then show ?thesis using e d ds by blast
qed

theorem applied_fingerprint_roundtrip_witness:
  "\<exists>extra'. WithAppliedCPUFingerprint model_codec (\<lambda>_. ''0'') [] ''v1:ab'' = Inr extra' \<and>
     AppliedCPUFingerprint model_codec extra' = Inr ''v1:ab''"
proof -
  have "\<exists>enc. EncodeAppliedInventory model_codec (\<lambda>_. ''0'') [] = Inr enc"
    by (simp add: EncodeAppliedInventory_def)
  then obtain enc where e: "EncodeAppliedInventory model_codec (\<lambda>_. ''0'') [] = Inr enc" by blast
  have "\<forall>s :: cpuset. ascii ((\<lambda>_. ''0'') s)" "ascii ''v1:ab''" by (simp_all add: ascii_def)
  from applied_fingerprint_roundtrip [OF model_codec_ok this(1) _ this(2) e, of "[]"] show ?thesis by auto
qed

end
