(* ===== verification/Dra_Registry.thy ===== *)
theory Dra_Registry
  imports Dra_Gres
begin

text \<open>
  \<open>internal/dra/registry.go\<close> and \<open>selector.go\<close>: the registry of device profiles.  The record
  \<open>cel_lib\<close> stands for the CEL packages: \<open>compileNew\<close> is the compiler in the environment for new
  expressions and returns the estimated cost, \<open>compileCached\<close> is the shared expression cache,
  \<open>parseExpr\<close> the parser, and \<open>deviceMatches\<close> the evaluation on a device; \<open>numaNodeAttribute\<close> is the
  attribute name that the DRA package gives to NUMA nodes.  The CEL syntax tree has the node kinds that \<open>selector.go\<close> inspects.  The result is that a registry accepts exactly the
  valid profile lists and that each of its lookups is exact.
\<close>

section \<open>The CEL packages\<close>

datatype cel_expr =
    CelIdent string
  | CelSelect cel_expr string
  | CelCall string "cel_expr list"
  | CelString string
  | CelLiteral
  | CelList "cel_expr list"
  | CelOther

record cel_device =
  celDriver :: string
  celAllowMultiple :: "bool option"
  celAttributes :: "(string, device_attribute) gomap"
  celCapacity :: "(string, device_capacity) gomap"

record cel_lib =
  compileNew :: "string \<Rightarrow> dra_err + nat"
  compileCached :: "string \<Rightarrow> dra_err + unit"
  parseExpr :: "string \<Rightarrow> dra_err + cel_expr"
  deviceMatches :: "string \<Rightarrow> cel_device \<Rightarrow> dra_err + bool"
  numaNodeAttribute :: string

section \<open>Driver constraints of a selector\<close>

definition stringLiteral :: "cel_expr \<Rightarrow> string option" where
  "stringLiteral e = (case e of CelString s \<Rightarrow> Some s | _ \<Rightarrow> None)"

definition isDeviceDriverReference :: "cel_expr \<Rightarrow> bool" where
  "isDeviceDriverReference e = (case e of
     CelSelect operand field \<Rightarrow> field = ''driver'' \<and> operand = CelIdent ''device''
   | _ \<Rightarrow> False)"

definition deviceDriverConstraint :: "cel_expr \<Rightarrow> string option" where
  "deviceDriverConstraint e = (case e of
     CelCall f args \<Rightarrow> (case args of
         [a, b] \<Rightarrow>
           if f = ''_==_'' then
             (if isDeviceDriverReference a then stringLiteral b
              else if isDeviceDriverReference b then stringLiteral a else None)
           else if f = ''@in'' then
             (if isDeviceDriverReference a
              then (case b of CelList elements \<Rightarrow> (case elements of [x] \<Rightarrow> stringLiteral x | _ \<Rightarrow> None) | _ \<Rightarrow> None)
              else None)
           else None
       | _ \<Rightarrow> None)
   | _ \<Rightarrow> None)"

definition checkDriver :: "DeviceProfile \<Rightarrow> cel_expr \<Rightarrow> dra_err + unit" where
  "checkDriver p e = (case deviceDriverConstraint e of
     Some driver \<Rightarrow> if driver \<noteq> profDriver p then Inl (DraErr ''driver constraint'') else Inr ()
   | None \<Rightarrow> Inr ())"

lemma collect_cong [fundef_cong]:
  "xs = ys \<Longrightarrow> (\<And>x. x \<in> set ys \<Longrightarrow> f x = g x) \<Longrightarrow> collect f xs = collect g ys"
  by (induction ys arbitrary: xs) auto

fun validateDeviceProfileDriverConstraint :: "DeviceProfile \<Rightarrow> cel_expr \<Rightarrow> dra_err + unit" where
  "validateDeviceProfileDriverConstraint p (CelCall f args) =
     (if f = ''_&&_'' then rmap (\<lambda>_. ()) (collect (validateDeviceProfileDriverConstraint p) args)
      else checkDriver p (CelCall f args))"
| "validateDeviceProfileDriverConstraint p e = checkDriver p e"

definition validateDeviceProfileSelector :: "cel_lib \<Rightarrow> DeviceProfile \<Rightarrow> dra_err + unit" where
  "validateDeviceProfileSelector L p =
     rbind (compileCached L (profSelector p)) (\<lambda>_.
     rbind (parseExpr L (profSelector p)) (validateDeviceProfileDriverConstraint p))"

section \<open>The registry\<close>

definition maxDeviceProfiles :: nat where "maxDeviceProfiles = 256"
definition DriverNameMaxLength :: nat where "DriverNameMaxLength = 63"
definition CELSelectorExpressionMaxLength :: nat where "CELSelectorExpressionMaxLength = 10240"
definition CELSelectorExpressionMaxCost :: nat where "CELSelectorExpressionMaxCost = 1000000"

record Registry =
  byName :: "(string, DeviceProfile) gomap"
  bySelector :: "(string, DeviceProfile) gomap"
  byDriver :: "(string, DeviceProfile list) gomap"
  byIndexedGRESType :: "(string, DeviceProfile) gomap"

text \<open>
  The validations of Kubernetes are the parameters \<open>isSubdomain\<close> and \<open>isLabel\<close>.  One turn of the
  loop takes the registry and the name of the core-bitmap profile seen so far.
\<close>

definition registerProfile :: "cel_lib \<Rightarrow> (string \<Rightarrow> bool) \<Rightarrow> (string \<Rightarrow> bool) \<Rightarrow> DeviceProfile \<Rightarrow> Registry \<times> string \<Rightarrow>
    dra_err + Registry \<times> string" where
  "registerProfile L isSubdomain isLabel p st = (case st of (R, coreBitmapProfile) \<Rightarrow>
     if profName p = [] then Inl (DraErr ''empty name'')
     else if \<not> deviceProfileNamePattern (profName p) then Inl (DraErr ''name pattern'')
     else if map_of (byName R) (profName p) \<noteq> None then Inl (DraErr ''duplicate name'')
     else if profDriver p = [] then Inl (DraErr ''empty driver'')
     else if length (profDriver p) > DriverNameMaxLength then Inl (DraErr ''driver length'')
     else if \<not> isSubdomain (profDriver p) then Inl (DraErr ''driver'')
     else if profSelector p = [] then Inl (DraErr ''empty selector'')
     else if length (profSelector p) > CELSelectorExpressionMaxLength then Inl (DraErr ''selector length'')
     else rbind (compileNew L (profSelector p)) (\<lambda>maxCost.
       if maxCost > CELSelectorExpressionMaxCost then Inl (DraErr ''selector cost'')
       else rbind (validateDeviceProfileSelector L p) (\<lambda>_.
         if map_of (bySelector R) (profSelector p) \<noteq> None then Inl (DraErr ''duplicate selector'')
         else rbind (case profBackend p of
             None \<Rightarrow> Inl (DraErr ''no backend'')
           | Some CoreBitmapBackend \<Rightarrow>
               if coreBitmapProfile \<noteq> [] then Inl (DraErr ''second core-bitmap profile'')
               else Inr (byIndexedGRESType R, profName p)
           | Some (IndexedGRESBackend _) \<Rightarrow>
               rmap (\<lambda>_. (AList.update (profName p) p (byIndexedGRESType R), coreBitmapProfile)) (profile_GRES isLabel p)
           | Some OtherBackend \<Rightarrow> Inl (DraErr ''unsupported backend''))
           (\<lambda>(indexed, core). Inr
             (\<lparr>byName = AList.update (profName p) p (byName R),
               bySelector = AList.update (profSelector p) p (bySelector R),
               byDriver = AList.update (profDriver p) (get_or [] (byDriver R) (profDriver p) @ [p]) (byDriver R),
               byIndexedGRESType = indexed\<rparr>, core)))))"

fun registerProfiles :: "cel_lib \<Rightarrow> (string \<Rightarrow> bool) \<Rightarrow> (string \<Rightarrow> bool) \<Rightarrow> DeviceProfile list \<Rightarrow> Registry \<times> string \<Rightarrow>
    dra_err + Registry \<times> string" where
  "registerProfiles L isSubdomain isLabel [] st = Inr st"
| "registerProfiles L isSubdomain isLabel (p # ps) st =
     rbind (registerProfile L isSubdomain isLabel p st) (registerProfiles L isSubdomain isLabel ps)"

definition empty_registry :: Registry where
  "empty_registry = \<lparr>byName = [], bySelector = [], byDriver = [], byIndexedGRESType = []\<rparr>"

definition NewRegistry :: "cel_lib \<Rightarrow> (string \<Rightarrow> bool) \<Rightarrow> (string \<Rightarrow> bool) \<Rightarrow> DeviceProfile list \<Rightarrow> dra_err + Registry" where
  "NewRegistry L isSubdomain isLabel profiles =
     (if length profiles > maxDeviceProfiles then Inl (DraErr ''too many profiles'')
      else rmap (\<lambda>(R, _). R\<lparr>byDriver := map (\<lambda>(d, ps). (d, sort_key profName ps)) (byDriver R)\<rparr>)
        (registerProfiles L isSubdomain isLabel profiles (empty_registry, [])))"

text \<open>Text between single and between double quotes.\<close>

definition squote :: "string \<Rightarrow> string" where "squote s = CHR 0x27 # s @ [CHR 0x27]"
definition dquote :: "string \<Rightarrow> string" where "dquote s = CHR 0x22 # s @ [CHR 0x22]"

definition default_cpu :: DeviceProfile where
  "default_cpu = \<lparr>profName = ''cpu'', profDriver = ''dra.cpu'',
     profSelector = ''device.driver == '' @ dquote ''dra.cpu'', profBackend = Some CoreBitmapBackend\<rparr>"

definition default_nvidiaGPU :: DeviceProfile where
  "default_nvidiaGPU = \<lparr>profName = ''gpu.nvidia.com'', profDriver = ''gpu.nvidia.com'',
     profSelector = ''device.driver == '' @ squote ''gpu.nvidia.com'' @ '' && device.attributes['' @
       squote ''gpu.nvidia.com'' @ ''].type == '' @ squote ''gpu'',
     profBackend = Some (IndexedGRESBackend ''gpu'')\<rparr>"

definition default_dranetRDMA :: DeviceProfile where
  "default_dranetRDMA = \<lparr>profName = ''dranet-rdma'', profDriver = ''dra.net'',
     profSelector = ''device.driver == '' @ squote ''dra.net'' @ '' && '' @
       ''has(device.attributes['' @ squote ''dra.net'' @ ''].pciAddress) && '' @
       ''has(device.attributes['' @ squote ''dra.net'' @ ''].rdma) && '' @
       ''device.attributes['' @ squote ''dra.net'' @ ''].rdma == true'',
     profBackend = Some (IndexedGRESBackend ''nic'')\<rparr>"

definition DefaultRegistry :: "cel_lib \<Rightarrow> (string \<Rightarrow> bool) \<Rightarrow> (string \<Rightarrow> bool) \<Rightarrow> dra_err + Registry" where
  "DefaultRegistry L isSubdomain isLabel = (case
     NewRegistry L isSubdomain isLabel [default_cpu, default_nvidiaGPU, default_dranetRDMA] of
       Inl _ \<Rightarrow> Inl (DraErr ''panic'')
     | Inr R \<Rightarrow> Inr R)"

section \<open>Lookups\<close>

definition LookupByName :: "Registry \<Rightarrow> string \<Rightarrow> DeviceProfile option" where
  "LookupByName R n = map_of (byName R) n"

definition LookupBySelector :: "Registry \<Rightarrow> string \<Rightarrow> DeviceProfile option" where
  "LookupBySelector R selector = map_of (bySelector R) selector"

definition zeroProfile :: DeviceProfile where
  "zeroProfile = \<lparr>profName = [], profDriver = [], profSelector = [], profBackend = None\<rparr>"

text \<open>The flag of the source's triple comes first, then the error or the profile.\<close>

definition MatchIndexedGRES :: "(string \<Rightarrow> bool) \<Rightarrow> Registry \<Rightarrow> GRES \<Rightarrow> bool \<times> (dra_err + DeviceProfile)" where
  "MatchIndexedGRES isLabel R gres = (case map_of (byIndexedGRESType R) (gresType gres) of
     None \<Rightarrow> (False, Inr zeroProfile)
   | Some profile \<Rightarrow> (True, rbind (profile_GRES isLabel profile) (\<lambda>expected.
       if gresName gres \<noteq> gresName expected then Inl (DraErr ''GRES name mismatch'') else Inr profile)))"

definition SupportsDriver :: "Registry \<Rightarrow> string \<Rightarrow> bool" where
  "SupportsDriver R driver = (map_of (byDriver R) driver \<noteq> None)"

definition profilesForDriver :: "Registry \<Rightarrow> string \<Rightarrow> DeviceProfile list" where
  "profilesForDriver R driver = get_or [] (byDriver R) driver"

text \<open>A selector of a device class is its CEL expression, if it has one.\<close>

record device_class =
  className :: string
  classSelectors :: "string option list"
  classHasConfig :: bool

definition MatchDeviceClass :: "Registry \<Rightarrow> device_class option \<Rightarrow> dra_err + DeviceProfile" where
  "MatchDeviceClass R deviceClass = (case deviceClass of
     None \<Rightarrow> Inl (DraErr ''nil class'')
   | Some c \<Rightarrow>
       if length (classSelectors c) \<noteq> 1 then Inl (DraErr ''selector count'')
       else (case hd (classSelectors c) of
           None \<Rightarrow> Inl (DraErr ''selector kind'')
         | Some expression \<Rightarrow> (case LookupBySelector R expression of
             None \<Rightarrow> Inl (DraErr ''unknown selector'')
           | Some profile \<Rightarrow> Inr profile)))"

section \<open>The driver check covers every conjunct\<close>

text \<open>The conjuncts of a selector: the leaves below nested conjunctions.\<close>

inductive conjunct :: "cel_expr \<Rightarrow> cel_expr \<Rightarrow> bool" where
  leaf: "(\<And>args. e \<noteq> CelCall ''_&&_'' args) \<Longrightarrow> conjunct e e"
| arg: "a \<in> set args \<Longrightarrow> conjunct a c \<Longrightarrow> conjunct (CelCall ''_&&_'' args) c"

inductive_cases conjunct_andE: "conjunct (CelCall ''_&&_'' args) c"
inductive_simps conjunct_simps: "conjunct e c"

lemma checkDriver_ok: "checkDriver p e = Inr () \<longleftrightarrow> (\<forall>d. deviceDriverConstraint e = Some d \<longrightarrow> d = profDriver p)"
  by (auto simp: checkDriver_def split: option.splits)

lemma conjunct_leaf: "(\<And>args. e \<noteq> CelCall ''_&&_'' args) \<Longrightarrow> conjunct e c \<longleftrightarrow> c = e"
  by (subst conjunct_simps) auto

lemma conjunct_and: "conjunct (CelCall ''_&&_'' args) c \<longleftrightarrow> (\<exists>a\<in>set args. conjunct a c)"
  by (subst conjunct_simps) auto

lemma collect_unit: "rmap (\<lambda>_. ()) (collect f xs) = Inr () \<longleftrightarrow> (\<forall>x\<in>set xs. f x = Inr ())"
proof (induction xs)
  case (Cons x xs)
  then show ?case by (cases "f x") (auto simp: rmap_def split: sum.splits)
qed simp

lemma driver_constraint_ok:
  "validateDeviceProfileDriverConstraint p e = Inr () \<longleftrightarrow>
     (\<forall>c d. conjunct e c \<longrightarrow> deviceDriverConstraint c = Some d \<longrightarrow> d = profDriver p)"
proof (induction p e rule: validateDeviceProfileDriverConstraint.induct)
  case (1 p f args)
  show ?case
  proof (cases "f = ''_&&_''")
    case True
    then show ?thesis using 1 by (simp add: collect_unit conjunct_and) blast
  next
    case False
    then show ?thesis by (simp add: checkDriver_ok conjunct_leaf)
  qed
qed (simp_all add: checkDriver_ok conjunct_leaf)

section \<open>What a registry accepts\<close>

definition profile_ok :: "cel_lib \<Rightarrow> (string \<Rightarrow> bool) \<Rightarrow> (string \<Rightarrow> bool) \<Rightarrow> DeviceProfile \<Rightarrow> bool" where
  "profile_ok L isSubdomain isLabel p \<longleftrightarrow>
     deviceProfileNamePattern (profName p) \<and>
     profDriver p \<noteq> [] \<and> length (profDriver p) \<le> DriverNameMaxLength \<and> isSubdomain (profDriver p) \<and>
     profSelector p \<noteq> [] \<and> length (profSelector p) \<le> CELSelectorExpressionMaxLength \<and>
     (\<exists>cost \<le> CELSelectorExpressionMaxCost. compileNew L (profSelector p) = Inr cost) \<and>
     validateDeviceProfileSelector L p = Inr () \<and>
     (UsesCoreBitmap p \<or> UsesIndexedGRES p \<and> is_ok (profile_GRES isLabel p))"

definition profiles_ok :: "cel_lib \<Rightarrow> (string \<Rightarrow> bool) \<Rightarrow> (string \<Rightarrow> bool) \<Rightarrow> DeviceProfile list \<Rightarrow> bool" where
  "profiles_ok L isSubdomain isLabel ps \<longleftrightarrow>
     (\<forall>p\<in>set ps. profile_ok L isSubdomain isLabel p) \<and> distinct (map profName ps) \<and>
     distinct (map profSelector ps) \<and> length (filter UsesCoreBitmap ps) \<le> 1"

definition indexed_by :: "('a \<Rightarrow> 'k) \<Rightarrow> 'a list \<Rightarrow> ('k, 'a) gomap" where
  "indexed_by f ps = map (\<lambda>p. (f p, p)) ps"

definition group_driver :: "DeviceProfile list \<Rightarrow> (string, DeviceProfile list) gomap" where
  "group_driver ps = fold (\<lambda>p m. AList.update (profDriver p) (get_or [] m (profDriver p) @ [p]) m) ps []"

definition registry_of :: "DeviceProfile list \<Rightarrow> Registry \<times> string" where
  "registry_of ps = (\<lparr>byName = indexed_by profName ps, bySelector = indexed_by profSelector ps,
     byDriver = group_driver ps, byIndexedGRESType = indexed_by profName (filter UsesIndexedGRES ps)\<rparr>,
     concat (map profName (filter UsesCoreBitmap ps)))"

lemma update_new: "map_of m k = None \<Longrightarrow> AList.update k v m = m @ [(k, v)]"
  by (induction m) (auto split: if_splits)

lemma indexed_by_None: "map_of (indexed_by f ps) k = None \<longleftrightarrow> k \<notin> f ` set ps"
  by (induction ps) (auto simp: indexed_by_def)

lemma indexed_by_snoc: "f p \<notin> f ` set ps \<Longrightarrow> AList.update (f p) p (indexed_by f ps) = indexed_by f (ps @ [p])"
  using indexed_by_None [of f ps "f p"] by (simp add: update_new) (simp add: indexed_by_def)

lemma indexed_by_find: "map_of (indexed_by f ps) k = find (\<lambda>p. f p = k) ps"
  by (induction ps) (auto simp: indexed_by_def)

lemma pattern_ne: "deviceProfileNamePattern s \<Longrightarrow> s \<noteq> []"
  by (simp add: deviceProfileNamePattern_def)

lemma core_names_Nil:
  "\<forall>p\<in>set ps. profName p \<noteq> [] \<Longrightarrow> concat (map profName (filter UsesCoreBitmap ps)) = [] \<longleftrightarrow> filter UsesCoreBitmap ps = []"
  by (induction ps) auto

lemma backend_kinds:
  "UsesCoreBitmap p \<longleftrightarrow> profBackend p = Some CoreBitmapBackend"
  "UsesIndexedGRES p \<longleftrightarrow> (\<exists>n. profBackend p = Some (IndexedGRESBackend n))"
  by (auto simp: UsesCoreBitmap_def UsesIndexedGRES_def split: option.splits backend.splits)

lemma registerProfile_accepts:
  assumes new: "profiles_ok L S Lb (ps @ [p])"
  shows "registerProfile L S Lb p (registry_of ps) = Inr (registry_of (ps @ [p]))"
proof -
  have p: "profile_ok L S Lb p" and all: "\<forall>p\<in>set ps. profName p \<noteq> []"
    and n: "profName p \<notin> profName ` set ps" and s: "profSelector p \<notin> profSelector ` set ps"
    using new pattern_ne by (auto simp: profiles_ok_def profile_ok_def)
  have n': "profName p \<notin> profName ` set (filter UsesIndexedGRES ps)" using n by auto
  have core: "UsesCoreBitmap p \<Longrightarrow> filter UsesCoreBitmap ps = []"
    using new by (simp add: profiles_ok_def)
  from p obtain cost where cost: "compileNew L (profSelector p) = Inr cost" "\<not> CELSelectorExpressionMaxCost < cost"
    by (auto simp: profile_ok_def)
  note facts = p [unfolded profile_ok_def] cost pattern_ne n s
  show ?thesis
  proof (cases "UsesCoreBitmap p")
    case True
    then show ?thesis using facts core [OF True] indexed_by_snoc [of profName p ps, OF n] indexed_by_snoc [of profSelector p ps, OF s]
      by (simp add: registerProfile_def registry_of_def indexed_by_None backend_kinds group_driver_def)
  next
    case False
    then obtain g nm where g: "profile_GRES Lb p = Inr g" "profBackend p = Some (IndexedGRESBackend nm)"
      using p by (auto simp: profile_ok_def backend_kinds is_ok_def split: sum.splits)
    then show ?thesis using facts False indexed_by_snoc [of profName p ps, OF n] indexed_by_snoc [of profSelector p ps, OF s]
      indexed_by_snoc [of profName p "filter UsesIndexedGRES ps", OF n']
      by (simp add: registerProfile_def registry_of_def indexed_by_None backend_kinds group_driver_def)
  qed
qed

lemma registerProfile_rejects:
  assumes before: "profiles_ok L S Lb ps" and ok: "registerProfile L S Lb p (registry_of ps) = Inr st"
  shows "profiles_ok L S Lb (ps @ [p])"
proof -
  have all: "\<forall>p\<in>set ps. profName p \<noteq> []" using before pattern_ne by (auto simp: profiles_ok_def profile_ok_def)
  have st: "registry_of ps = (fst (registry_of ps), snd (registry_of ps))" by simp
  have core: "snd (registry_of ps) = [] \<longleftrightarrow> filter UsesCoreBitmap ps = []"
    using core_names_Nil [OF all] by (simp add: registry_of_def)
  obtain cost where c: "profName p \<noteq> []" "deviceProfileNamePattern (profName p)"
    "map_of (byName (fst (registry_of ps))) (profName p) = None" "profDriver p \<noteq> []"
    "\<not> length (profDriver p) > DriverNameMaxLength" "S (profDriver p)" "profSelector p \<noteq> []"
    "\<not> length (profSelector p) > CELSelectorExpressionMaxLength" "compileNew L (profSelector p) = Inr cost"
    "\<not> cost > CELSelectorExpressionMaxCost" "validateDeviceProfileSelector L p = Inr ()"
    "map_of (bySelector (fst (registry_of ps))) (profSelector p) = None"
    and b: "\<exists>x. (case profBackend p of
             None \<Rightarrow> Inl (DraErr ''no backend'')
           | Some CoreBitmapBackend \<Rightarrow>
               if snd (registry_of ps) \<noteq> [] then Inl (DraErr ''second core-bitmap profile'')
               else Inr (byIndexedGRESType (fst (registry_of ps)), profName p)
           | Some (IndexedGRESBackend _) \<Rightarrow>
               rmap (\<lambda>_. (AList.update (profName p) p (byIndexedGRESType (fst (registry_of ps))), snd (registry_of ps)))
                 (profile_GRES Lb p)
           | Some OtherBackend \<Rightarrow> Inl (DraErr ''unsupported backend'')) = Inr x"
    using ok unfolding registerProfile_def by (subst (asm) st) (simp only: prod.case, elim result_elims, auto)
  have n: "profName p \<notin> profName ` set ps" and s: "profSelector p \<notin> profSelector ` set ps"
    using c(3,12) by (simp_all add: registry_of_def indexed_by_None)
  have k: "UsesCoreBitmap p \<and> filter UsesCoreBitmap ps = [] \<or> \<not> UsesCoreBitmap p \<and> UsesIndexedGRES p \<and> is_ok (profile_GRES Lb p)"
    using b core by (auto simp: backend_kinds rmap_eq_Inr split: option.splits backend.splits if_splits)
  have "profile_ok L S Lb p" using c k by (auto simp: profile_ok_def)
  then show ?thesis using before n s k by (auto simp: profiles_ok_def)
qed

lemma profiles_ok_prefix: "profiles_ok L S Lb (ps @ qs) \<Longrightarrow> profiles_ok L S Lb ps"
  by (auto simp: profiles_ok_def)

lemma registerProfiles_spec:
  "profiles_ok L S Lb ps \<Longrightarrow> (profiles_ok L S Lb (ps @ qs) \<longrightarrow>
       registerProfiles L S Lb qs (registry_of ps) = Inr (registry_of (ps @ qs)))
   \<and> is_ok (registerProfiles L S Lb qs (registry_of ps)) = profiles_ok L S Lb (ps @ qs)"
proof (induction qs arbitrary: ps)
  case (Cons q qs)
  show ?case
  proof (cases "profiles_ok L S Lb (ps @ [q])")
    case True
    then show ?thesis using Cons.IH [OF True] by (simp add: registerProfile_accepts)
  next
    case False
    then have no: "\<not> profiles_ok L S Lb (ps @ q # qs)" using profiles_ok_prefix [of L S Lb "ps @ [q]" qs] by auto
    have "\<not> is_ok (registerProfile L S Lb q (registry_of ps))"
      using registerProfile_rejects [OF Cons.prems] False by (auto simp: is_ok_def split: sum.splits)
    then show ?thesis using no by (cases "registerProfile L S Lb q (registry_of ps)") auto
  qed
qed simp

section \<open>Lookups are exact\<close>

lemma registry_of_Nil: "registry_of [] = (empty_registry, [])"
  by (simp add: registry_of_def empty_registry_def indexed_by_def group_driver_def)

lemma profiles_ok_Nil: "profiles_ok L S Lb []"
  by (simp add: profiles_ok_def)

lemma group_driver_get: "get_or [] (group_driver ps) d = filter (\<lambda>p. profDriver p = d) ps"
  by (induction ps rule: rev_induct) (auto simp: group_driver_def get_or_def)

lemma group_driver_dom: "map_of (group_driver ps) d \<noteq> None \<longleftrightarrow> d \<in> profDriver ` set ps"
  by (induction ps rule: rev_induct) (auto simp: group_driver_def)

lemma sorted_values: "map_of (map (\<lambda>(d, ps). (d, sort_key f ps)) m) k = map_option (sort_key f) (map_of m k)"
  by (induction m) auto

lemma NewRegistry_Inr:
  assumes "NewRegistry L S Lb ps = Inr R"
  shows "length ps \<le> maxDeviceProfiles" "profiles_ok L S Lb ps"
    "R = (fst (registry_of ps))\<lparr>byDriver := map (\<lambda>(d, ps). (d, sort_key profName ps)) (group_driver ps)\<rparr>"
proof -
  note spec = registerProfiles_spec [OF profiles_ok_Nil, of L S Lb ps, unfolded registry_of_Nil, simplified]
  from assms obtain st where l: "length ps \<le> maxDeviceProfiles" and r: "registerProfiles L S Lb ps (empty_registry, []) = Inr st"
    and R: "R = (case st of (R, _) \<Rightarrow> R\<lparr>byDriver := map (\<lambda>(d, ps). (d, sort_key profName ps)) (byDriver R)\<rparr>)"
    unfolding NewRegistry_def by (elim result_elims) simp
  from r spec have ok: "profiles_ok L S Lb ps" by simp
  with r spec have "st = registry_of ps" by simp
  then show "length ps \<le> maxDeviceProfiles" "profiles_ok L S Lb ps"
    "R = (fst (registry_of ps))\<lparr>byDriver := map (\<lambda>(d, ps). (d, sort_key profName ps)) (group_driver ps)\<rparr>"
    using l ok R by (simp_all add: registry_of_def)
qed

lemma NewRegistry_is_ok:
  "is_ok (NewRegistry L S Lb ps) \<longleftrightarrow> length ps \<le> maxDeviceProfiles \<and> profiles_ok L S Lb ps"
proof -
  note spec = registerProfiles_spec [OF profiles_ok_Nil, of L S Lb ps, unfolded registry_of_Nil, simplified]
  show ?thesis using spec
    by (cases "registerProfiles L S Lb ps (empty_registry, [])") (simp_all add: NewRegistry_def)
qed

lemma registry_profiles:
  assumes "NewRegistry L S Lb ps = Inr R"
  shows "profilesForDriver R d = sort_key profName (filter (\<lambda>p. profDriver p = d) ps)"
proof -
  have b: "byDriver R = map (\<lambda>(d, ps). (d, sort_key profName ps)) (group_driver ps)"
    by (simp add: NewRegistry_Inr(3) [OF assms])
  show ?thesis using group_driver_get [of ps d]
    by (auto simp: profilesForDriver_def b get_or_def sorted_values split: option.splits)
qed

lemma registry_names: "NewRegistry L S Lb ps = Inr R \<Longrightarrow> inj_on profName (set ps)"
  using NewRegistry_Inr(2) by (auto simp: profiles_ok_def distinct_map)

lemma find_filter: "find Q (filter P xs) = find (\<lambda>x. P x \<and> Q x) xs"
  by (induction xs) auto

lemma find_iff_distinct: "distinct (map f xs) \<Longrightarrow> find (\<lambda>x. f x = k) xs = Some x \<longleftrightarrow> x \<in> set xs \<and> f x = k"
  by (induction xs) auto

lemma profile_GRES_name: "profile_GRES Lb p = Inr g \<Longrightarrow> profBackend p = Some (IndexedGRESBackend (gresName g))"
  by (auto simp: profile_GRES_def split: option.splits backend.splits if_splits)

lemma MatchIndexedGRES_ok:
  assumes R: "byIndexedGRESType R = indexed_by profName (filter UsesIndexedGRES ps)" and ok: "profiles_ok L S Lb ps"
  shows "MatchIndexedGRES Lb R g = (case find (\<lambda>p. UsesIndexedGRES p \<and> profName p = gresType g) ps of
       None \<Rightarrow> (False, Inr zeroProfile)
     | Some p \<Rightarrow> (True, if profBackend p = Some (IndexedGRESBackend (gresName g)) then Inr p
                    else Inl (DraErr ''GRES name mismatch'')))"
proof (cases "find (\<lambda>p. UsesIndexedGRES p \<and> profName p = gresType g) ps")
  case None
  then show ?thesis by (simp add: MatchIndexedGRES_def R indexed_by_find find_filter)
next
  case (Some p)
  then have p: "p \<in> set ps" "UsesIndexedGRES p" by (auto simp: find_Some_iff)
  then have "is_ok (profile_GRES Lb p)"
    using ok by (auto simp: profiles_ok_def profile_ok_def backend_kinds)
  then obtain h where h: "profile_GRES Lb p = Inr h" by (auto simp: is_ok_def split: sum.splits)
  then show ?thesis using Some profile_GRES_name [OF h]
    by (auto simp: MatchIndexedGRES_def R indexed_by_find find_filter)
qed

lemma MatchDeviceClass_ok:
  assumes R: "bySelector R = indexed_by profSelector ps" and d: "distinct (map profSelector ps)"
  shows "MatchDeviceClass R (Some c) = Inr p \<longleftrightarrow> p \<in> set ps \<and> classSelectors c = [Some (profSelector p)]"
proof -
  have l: "LookupBySelector R s = Some p \<longleftrightarrow> p \<in> set ps \<and> profSelector p = s" for s p
    by (simp add: LookupBySelector_def R indexed_by_find find_iff_distinct [OF d])
  show ?thesis
  proof (cases "\<exists>o1. classSelectors c = [o1]")
    case True
    then obtain o1 where o1: "classSelectors c = [o1]" by blast
    have "MatchDeviceClass R (Some c) = Inr p \<longleftrightarrow> (\<exists>s. o1 = Some s \<and> LookupBySelector R s = Some p)"
      by (simp add: MatchDeviceClass_def o1 split: option.splits)
    then show ?thesis using o1 by (auto simp: l)
  next
    case False
    then have "length (classSelectors c) \<noteq> 1" by (simp add: length_Suc_conv)
    then show ?thesis by (auto simp: MatchDeviceClass_def)
  qed
qed

lemma selector_driver:
  assumes "validateDeviceProfileSelector L p = Inr ()" "parseExpr L (profSelector p) = Inr e" "conjunct e c"
    "deviceDriverConstraint c = Some d"
  shows "d = profDriver p"
proof -
  have "validateDeviceProfileDriverConstraint p e = Inr ()"
    using assms(1,2) unfolding validateDeviceProfileSelector_def by (elim result_elims) simp
  then show ?thesis using assms(3,4) driver_constraint_ok by blast
qed

text \<open>
  C33.  The device-profile registry is exact.  NewRegistry accepts a profile list exactly when it
  has at most 256 profiles, each valid alone, with distinct names, distinct selectors and at most
  one core-bitmap profile.  The registry it returns finds a profile by its name and by its
  selector exactly when the list has it, lists the profiles of a driver sorted by name, knows a
  driver exactly when some profile uses it, resolves a GRES type to the indexed profile of that
  name and rejects another GRES name, and resolves a device class exactly when its only selector
  is, byte for byte, the selector of a profile.  No accepted selector has a conjunct that pins
  the device driver to another driver than the profile's.
\<close>

theorem NewRegistry_exact:
  "is_ok (NewRegistry L isSubdomain isLabel ps) =
     (length ps \<le> maxDeviceProfiles \<and> profiles_ok L isSubdomain isLabel ps) \<and>
   (NewRegistry L isSubdomain isLabel ps = Inr R \<longrightarrow>
     LookupByName R n = find (\<lambda>p. profName p = n) ps \<and>
     LookupBySelector R s = find (\<lambda>p. profSelector p = s) ps \<and>
     profilesForDriver R d = sort_key profName (filter (\<lambda>p. profDriver p = d) ps) \<and>
     SupportsDriver R d = (d \<in> profDriver ` set ps) \<and>
     MatchIndexedGRES isLabel R g = (case find (\<lambda>p. UsesIndexedGRES p \<and> profName p = gresType g) ps of
         None \<Rightarrow> (False, Inr zeroProfile)
       | Some p \<Rightarrow> (True, if profBackend p = Some (IndexedGRESBackend (gresName g)) then Inr p
                      else Inl (DraErr ''GRES name mismatch''))) \<and>
     (MatchDeviceClass R (Some c) = Inr p) = (p \<in> set ps \<and> classSelectors c = [Some (profSelector p)]) \<and>
     (p \<in> set ps \<and> parseExpr L (profSelector p) = Inr e \<and> conjunct e e' \<and> deviceDriverConstraint e' = Some d \<longrightarrow>
        d = profDriver p))"
proof (intro conjI [OF NewRegistry_is_ok] impI)
  assume new: "NewRegistry L isSubdomain isLabel ps = Inr R"
  note R = NewRegistry_Inr [OF new]
  have f: "byName R = indexed_by profName ps" "bySelector R = indexed_by profSelector ps"
    "byIndexedGRESType R = indexed_by profName (filter UsesIndexedGRES ps)"
    "byDriver R = map (\<lambda>(d, ps). (d, sort_key profName ps)) (group_driver ps)"
    by (simp_all add: R(3) registry_of_def)
  have dist: "distinct (map profSelector ps)" using R(2) by (simp add: profiles_ok_def)
  note drv = registry_profiles [OF new, of d]
  have sup: "SupportsDriver R d = (d \<in> profDriver ` set ps)"
    using group_driver_dom [of ps d] by (simp add: SupportsDriver_def f(4) sorted_values)
  have sel: "p \<in> set ps \<and> parseExpr L (profSelector p) = Inr e \<and> conjunct e e' \<and> deviceDriverConstraint e' = Some d \<longrightarrow>
        d = profDriver p"
    using R(2) selector_driver [of L p e e' d] by (simp add: profiles_ok_def profile_ok_def)
  show "LookupByName R n = find (\<lambda>p. profName p = n) ps \<and>
     LookupBySelector R s = find (\<lambda>p. profSelector p = s) ps \<and>
     profilesForDriver R d = sort_key profName (filter (\<lambda>p. profDriver p = d) ps) \<and>
     SupportsDriver R d = (d \<in> profDriver ` set ps) \<and>
     MatchIndexedGRES isLabel R g = (case find (\<lambda>p. UsesIndexedGRES p \<and> profName p = gresType g) ps of
         None \<Rightarrow> (False, Inr zeroProfile)
       | Some p \<Rightarrow> (True, if profBackend p = Some (IndexedGRESBackend (gresName g)) then Inr p
                      else Inl (DraErr ''GRES name mismatch''))) \<and>
     (MatchDeviceClass R (Some c) = Inr p) = (p \<in> set ps \<and> classSelectors c = [Some (profSelector p)]) \<and>
     (p \<in> set ps \<and> parseExpr L (profSelector p) = Inr e \<and> conjunct e e' \<and> deviceDriverConstraint e' = Some d \<longrightarrow>
        d = profDriver p)"
    by (intro conjI, simp add: LookupByName_def f indexed_by_find,
        simp add: LookupBySelector_def f indexed_by_find, rule drv, rule sup,
        rule MatchIndexedGRES_ok [OF f(3) R(2)], rule MatchDeviceClass_ok [OF f(2) dist], rule sel)
qed

text \<open>A CEL library that knows the driver constraint of the default CPU selector.\<close>

definition model_cel :: cel_lib where
  "model_cel = \<lparr>compileNew = (\<lambda>_. Inr 1), compileCached = (\<lambda>_. Inr ()),
     parseExpr = (\<lambda>s. if s = profSelector default_cpu
       then Inr (CelCall ''_==_'' [CelSelect (CelIdent ''device'') ''driver'', CelString ''dra.cpu'']) else Inr CelOther),
     deviceMatches = (\<lambda>s d. Inr (s = profSelector default_cpu \<and> celDriver d = ''dra.cpu'')),
     numaNodeAttribute = ''resource.kubernetes.io/numaNode''\<rparr>"

lemma default_profiles_ok: "profiles_ok model_cel (\<lambda>_. True) (\<lambda>_. True) [default_cpu, default_nvidiaGPU, default_dranetRDMA]"
proof -
  have n: "indexedGRESNameMaxLength = 60" by code_simp
  show ?thesis
    by (simp add: profiles_ok_def profile_ok_def default_cpu_def default_nvidiaGPU_def default_dranetRDMA_def model_cel_def
        deviceProfileNamePattern_def is_alnum_def Let_def DriverNameMaxLength_def CELSelectorExpressionMaxLength_def
        CELSelectorExpressionMaxCost_def squote_def dquote_def UsesCoreBitmap_def UsesIndexedGRES_def profile_GRES_def n
        validateDeviceProfileSelector_def checkDriver_def deviceDriverConstraint_def isDeviceDriverReference_def stringLiteral_def)
qed

theorem NewRegistry_exact_witness:
  "\<exists>R. NewRegistry model_cel (\<lambda>_. True) (\<lambda>_. True) [default_cpu, default_nvidiaGPU, default_dranetRDMA] = Inr R \<and>
     LookupByName R ''cpu'' = Some default_cpu \<and>
     MatchDeviceClass R (Some \<lparr>className = ''c'', classSelectors = [Some (profSelector default_cpu)], classHasConfig = False\<rparr>)
       = Inr default_cpu"
proof -
  let ?ps = "[default_cpu, default_nvidiaGPU, default_dranetRDMA]"
  have "is_ok (NewRegistry model_cel (\<lambda>_. True) (\<lambda>_. True) ?ps)"
    using NewRegistry_exact [of model_cel "\<lambda>_. True" "\<lambda>_. True" ?ps] default_profiles_ok
    by (simp add: maxDeviceProfiles_def)
  then obtain R where R: "NewRegistry model_cel (\<lambda>_. True) (\<lambda>_. True) ?ps = Inr R"
    by (auto simp: is_ok_def split: sum.splits)
  have "LookupByName R ''cpu'' = find (\<lambda>p. profName p = ''cpu'') ?ps"
    using NewRegistry_exact [of model_cel "\<lambda>_. True" "\<lambda>_. True" ?ps R] R by blast
  moreover have "MatchDeviceClass R (Some \<lparr>className = ''c'', classSelectors = [Some (profSelector default_cpu)], classHasConfig = False\<rparr>)
       = Inr default_cpu"
    using NewRegistry_exact [of model_cel "\<lambda>_. True" "\<lambda>_. True" ?ps R] R by simp
  ultimately show ?thesis using R by (auto simp: default_cpu_def)
qed

end
