(* ===== verification/Node_Allocation.thy ===== *)
theory Node_Allocation
  imports Node_Info Dra_Registry
begin

text \<open>
  \<open>internal/nodeinfo/fingerprint.go\<close> and \<open>allocation.go\<close>: the fingerprint that ties a core bitmap
  to the topology it was made for, and the translation of a Slurm core bitmap into CPU devices.
  Parameters stand for packages outside the repository: \<open>hash\<close> is the hexadecimal SHA-256 of the
  JSON text of pool, devices and cores; \<open>show\<close> is \<open>CPUSet.String\<close>; \<open>uuid\<close> is the name-based UUID;
  \<open>cpuConfig\<close> is the JSON text of the opaque CPU configuration; \<open>getClass\<close> is the read of a device
  class.  The results are that a validated fingerprint pins the mapping of cores to CPUs, and that
  an allocation splits exactly the allocated CPUs over their devices.
\<close>

section \<open>Fingerprints\<close>

type_synonym topology = "string \<times> device list \<times> string list"

definition lift_err :: "string + 'a \<Rightarrow> dra_err + 'a" where
  "lift_err r = (case r of Inl e \<Rightarrow> Inl (DraErr e) | Inr x \<Rightarrow> Inr x)"

lemma lift_err_simps [simp]: "lift_err (Inl e) = Inl (DraErr e)" "lift_err (Inr x) = Inr x"
  by (simp_all add: lift_err_def)

lemma lift_err_Inr [simp]: "lift_err r = Inr x \<longleftrightarrow> r = Inr x"
  by (cases r) simp_all

definition deviceCPUSet :: "(string \<Rightarrow> string + cpuset) \<Rightarrow> device \<Rightarrow> string + cpuset" where
  "deviceCPUSet parse d =
     parseCPUSet parse (deref [] (Option.bind (map_of (deviceAttributes d) DraDriverCpu_CPUIDs) StringValue))"

definition canonicalDevice :: "(string \<Rightarrow> string + cpuset) \<Rightarrow> (cpuset \<Rightarrow> string) \<Rightarrow> device \<Rightarrow> dra_err + device" where
  "canonicalDevice parse show d =
     (let d = d\<lparr>deviceAttributes := AList.delete DraDriverCpu_SMTLayout (deviceAttributes d)\<rparr> in
      rmap (\<lambda>cpus. d\<lparr>deviceAttributes := AList.update DraDriverCpu_CPUIDs (string_attribute (show cpus)) (deviceAttributes d)\<rparr>)
        (lift_err (deviceCPUSet parse d)))"

definition cpuFingerprint :: "(string \<Rightarrow> string + cpuset) \<Rightarrow> (cpuset \<Rightarrow> string) \<Rightarrow> (topology \<Rightarrow> dra_err + string) \<Rightarrow>
    NodeInfo option \<Rightarrow> dra_err + string" where
  "cpuFingerprint parse show hash n0 = (case n0 of
     None \<Rightarrow> Inl (DraErr ''missing CPU inventory'')
   | Some n \<Rightarrow>
       if length (CPUDevices n) = 0 then Inl (DraErr ''missing CPU inventory'')
       else rbind (lift_err (Geometry (Some n))) (\<lambda>_.
         rbind (collect (\<lambda>name. case map_of (CPUDevices n) name of
             None \<Rightarrow> Inl (DraErr ''panic'') | Some d \<Rightarrow> canonicalDevice parse show d) (sortedCPUDeviceNames n)) (\<lambda>devices.
         rmap (\<lambda>sum. ''v1:'' @ sum)
           (hash (Pool (CpuMap n), devices, map show (AbstractToMachine (CpuMap n)))))))"

definition EncodeApplied :: "json_codec \<Rightarrow> (string \<Rightarrow> string + cpuset) \<Rightarrow> (cpuset \<Rightarrow> string) \<Rightarrow> (topology \<Rightarrow> dra_err + string) \<Rightarrow>
    NodeInfo option \<Rightarrow> string \<Rightarrow> dra_err + string" where
  "EncodeApplied J parse show hash n0 extra = (case n0 of
     None \<Rightarrow> Inr extra
   | Some n \<Rightarrow>
       if length (CPUDevices n) = 0 then Inr extra
       else rbind (cpuFingerprint parse show hash (Some n)) (WithAppliedCPUFingerprint J show extra))"

definition ValidateCPUFingerprint :: "json_codec \<Rightarrow> (string \<Rightarrow> string + cpuset) \<Rightarrow> (cpuset \<Rightarrow> string) \<Rightarrow> (topology \<Rightarrow> dra_err + string) \<Rightarrow>
    NodeInfo option \<Rightarrow> string \<Rightarrow> dra_err + unit" where
  "ValidateCPUFingerprint J parse show hash n0 extra =
     rbind (AppliedCPUFingerprint J extra) (\<lambda>applied.
     rbind (cpuFingerprint parse show hash n0) (\<lambda>fingerprint.
       if applied \<noteq> fingerprint then Inl (DraErr ''CPU topology fingerprint'') else Inr ()))"

section \<open>CPU allocations\<close>

record GresLayout =
  glCount :: int
  glIndex :: string
  glName :: string
  glType :: string

record NodeResources =
  nrNode :: string
  nrExtra :: string
  SocketsPerNode :: int
  CoresPerSocket :: int
  MemAlloc :: int
  CoreBitmap :: string
  nrChannel :: int
  nrGres :: "GresLayout list"

text \<open>
  A device request of a claim, an allocation result and an opaque configuration.  A request here
  always asks for one device with mode \<open>ExactCount\<close>; capacities are in whole CPUs.
\<close>

record device_request =
  reqName :: string
  reqClass :: string
  reqSelector :: string
  reqCapacity :: int

record allocation_result =
  resRequest :: string
  resDriver :: string
  resPool :: string
  resDevice :: string
  resShareID :: "string option"
  resConsumed :: "int option"

record claim_config =
  cfgRequests :: "string list"
  cfgDriver :: string
  cfgParameters :: string

record CPUAllocation =
  allocRequests :: "device_request list"
  allocResults :: "allocation_result list"
  allocConfig :: "claim_config list"
  CPUCount :: int

definition cpuDeviceRequest :: "cpuDeviceGroup \<Rightarrow> string \<times> string" where
  "cpuDeviceRequest grp =
     (if numaNode grp < 0
      then (''cpu-socket-'' @ show_int (socket grp),
            ''device.driver == '' @ squote ''dra.cpu'' @ '' && device.attributes['' @ squote ''dra.cpu'' @ ''].socketID == '' @
              show_int (socket grp))
      else (''cpu-numa-'' @ show_int (numaNode grp),
            ''device.driver == '' @ squote ''dra.cpu'' @ '' && device.attributes['' @ squote ''dra.cpu'' @ ''].numaNodeID == '' @
              show_int (numaNode grp)))"

fun matchesClass :: "cel_lib \<Rightarrow> device \<Rightarrow> string option list \<Rightarrow> dra_err + unit" where
  "matchesClass L d [] = Inr ()"
| "matchesClass L d (None # _) = Inl (DraErr ''unsupported selector'')"
| "matchesClass L d (Some expression # rest) =
     rbind (compileCached L expression) (\<lambda>_.
     rbind (deviceMatches L expression \<lparr>celDriver = DraDriverCpu, celAllowMultiple = allowMultipleAllocations d,
         celAttributes = deviceAttributes d, celCapacity = deviceCapacity d\<rparr>) (\<lambda>matched.
       if \<not> matched then Inl (DraErr ''device does not match class'') else matchesClass L d rest))"

definition deviceShare :: "(string \<Rightarrow> string) \<Rightarrow> (string \<Rightarrow> string) \<Rightarrow> (cpuset \<Rightarrow> string) \<Rightarrow> string \<Rightarrow> string \<Rightarrow> string \<Rightarrow> device \<Rightarrow>
    cpuDeviceGroup \<Rightarrow> cpuset \<Rightarrow> device_request \<times> allocation_result \<times> claim_config" where
  "deviceShare uuid cpuConfig show clsName allocationKey pool d grp cpus =
     (let cnt = int (card cpus); (name, expression) = cpuDeviceRequest grp in
      (\<lparr>reqName = name, reqClass = clsName, reqSelector = expression, reqCapacity = cnt\<rparr>,
       \<lparr>resRequest = name, resDriver = DraDriverCpu, resPool = pool, resDevice = deviceName d,
        resShareID = Some (uuid (allocationKey @ ''/'' @ DraDriverCpu @ ''/'' @ pool @ ''/'' @ deviceName d)),
        resConsumed = Some cnt\<rparr>,
       \<lparr>cfgRequests = [name], cfgDriver = DraDriverCpu, cfgParameters = cpuConfig (show cpus)\<rparr>))"

fun allocateDevices :: "cel_lib \<Rightarrow> (string \<Rightarrow> string) \<Rightarrow> (string \<Rightarrow> string) \<Rightarrow> (cpuset \<Rightarrow> string) \<Rightarrow> device_class \<Rightarrow> string \<Rightarrow> string \<Rightarrow>
    NodeInfo \<Rightarrow> (string, cpuset) gomap \<Rightarrow> string list \<Rightarrow> cpuset \<Rightarrow> CPUAllocation \<Rightarrow> dra_err + cpuset \<times> CPUAllocation" where
  "allocateDevices L uuid cpuConfig show cls clsName allocationKey n deviceCPUs [] cpus a = Inr (cpus, a)"
| "allocateDevices L uuid cpuConfig show cls clsName allocationKey n deviceCPUs (name # names) cpus a =
     (let cs = get_or {} deviceCPUs name \<inter> cpus in
      if cs = {} then allocateDevices L uuid cpuConfig show cls clsName allocationKey n deviceCPUs names cpus a
      else (case map_of (CPUDevices n) name of
          None \<Rightarrow> Inl (DraErr ''panic'')
        | Some d \<Rightarrow>
            rbind (matchesClass L d (classSelectors cls)) (\<lambda>_.
              if (case map_of (deviceCapacity d) DraDriverCpu_Capacity of None \<Rightarrow> 0 | Some c \<Rightarrow> capacityNanos c) < int (card cs) * nano
              then Inl (DraErr ''capacity exceeded'')
              else rbind (lift_err (cpuDeviceGroupOf d)) (\<lambda>grp.
                (case deviceShare uuid cpuConfig show clsName allocationKey (Pool (CpuMap n)) d grp cs of (req, res, cfg) \<Rightarrow>
                   allocateDevices L uuid cpuConfig show cls clsName allocationKey n deviceCPUs names (cpus - cs)
                     (a\<lparr>allocRequests := allocRequests a @ [req], allocResults := allocResults a @ [res],
                        allocConfig := allocConfig a @ [cfg]\<rparr>))))))"

definition AllocateCPUs :: "cel_lib \<Rightarrow> bitmap_lib \<Rightarrow> (string \<Rightarrow> string + cpuset) \<Rightarrow> (string \<Rightarrow> string) \<Rightarrow> (string \<Rightarrow> string) \<Rightarrow> (cpuset \<Rightarrow> string) \<Rightarrow>
    (string \<Rightarrow> dra_err + device_class) \<Rightarrow> NodeInfo \<Rightarrow> NodeResources option \<Rightarrow> string \<Rightarrow> string \<Rightarrow> dra_err + CPUAllocation" where
  "AllocateCPUs L B parse uuid cpuConfig show getClass n resources clsName allocationKey = (case resources of
     None \<Rightarrow> Inl (DraErr ''missing bitmap'')
   | Some r \<Rightarrow>
       if CoreBitmap r = [] then Inl (DraErr ''missing bitmap'')
       else if allocationKey = [] then Inl (DraErr ''missing identity'')
       else rbind (getClass clsName) (\<lambda>cls.
         if classHasConfig cls then Inl (DraErr ''class configuration'')
         else rbind (lift_err (Geometry (Some n))) (\<lambda>(sockets, cores, _).
           if sockets = 0 then Inl (DraErr ''no CPU inventory'')
           else if SocketsPerNode r \<noteq> 0 \<and> SocketsPerNode r \<noteq> sockets \<or> CoresPerSocket r \<noteq> 0 \<and> CoresPerSocket r \<noteq> cores
           then Inl (DraErr ''geometry differs'')
           else rbind (lift_err (NewFrom (CoreBitmap r))) (\<lambda>bitmap.
             if list_ex (\<lambda>idx. unat idx \<ge> length (AbstractToMachine (CpuMap n))) (bmRange B bitmap)
             then Inl (DraErr ''core outside the mapping'')
             else (let cpus = ToMachineCPUs B (CpuMap n) bitmap in
               if cpus = {} then Inl (DraErr ''empty allocation'')
               else rbind (lift_err (collect (\<lambda>(name, d). rmap (Pair name) (deviceCPUSet parse d)) (CPUDevices n))) (\<lambda>deviceCPUs.
                 rbind (allocateDevices L uuid cpuConfig show cls clsName allocationKey n deviceCPUs (sortedCPUDeviceNames n) cpus
                     \<lparr>allocRequests = [], allocResults = [], allocConfig = [], CPUCount = int (card cpus)\<rparr>) (\<lambda>(left, a).
                   if left \<noteq> {} then Inl (DraErr ''CPUs without device'') else Inr a)))))))"

section \<open>An allocation splits exactly the allocated CPUs\<close>

text \<open>One share: the named device matches the class, has the capacity, and the claim entries are its own.\<close>

definition share_ok :: "cel_lib \<Rightarrow> (string \<Rightarrow> string) \<Rightarrow> (string \<Rightarrow> string) \<Rightarrow> (cpuset \<Rightarrow> string) \<Rightarrow> device_class \<Rightarrow> string \<Rightarrow> string \<Rightarrow>
    NodeInfo \<Rightarrow> (string, cpuset) gomap \<Rightarrow> string \<times> cpuset \<Rightarrow> device_request \<times> allocation_result \<times> claim_config \<Rightarrow> bool" where
  "share_ok L uuid cpuConfig show cls clsName allocationKey n deviceCPUs part sh \<longleftrightarrow> (case part of (name, cs) \<Rightarrow>
     cs \<noteq> {} \<and> cs \<subseteq> get_or {} deviceCPUs name \<and>
     (\<exists>d grp c. map_of (CPUDevices n) name = Some d \<and> matchesClass L d (classSelectors cls) = Inr () \<and>
        map_of (deviceCapacity d) DraDriverCpu_Capacity = Some c \<and> int (card cs) * nano \<le> capacityNanos c \<and>
        cpuDeviceGroupOf d = Inr grp \<and>
        sh = deviceShare uuid cpuConfig show clsName allocationKey (Pool (CpuMap n)) d grp cs))"

lemma allocateDevices_Inr:
  assumes "finite cpus"
    "allocateDevices L uuid cpuConfig show cls clsName key n deviceCPUs names cpus a = Inr (left, a')"
  shows "\<exists>parts shares. left = cpus - \<Union> (snd ` set parts) \<and> \<Union> (snd ` set parts) \<subseteq> cpus \<and>
     sorted_wrt (\<lambda>x y. snd x \<inter> snd y = {}) parts \<and> subseq (map fst parts) names \<and> CPUCount a' = CPUCount a \<and>
     list_all2 (share_ok L uuid cpuConfig show cls clsName key n deviceCPUs) parts shares \<and>
     allocRequests a' = allocRequests a @ map fst shares \<and> allocResults a' = allocResults a @ map (fst \<circ> snd) shares \<and>
     allocConfig a' = allocConfig a @ map (snd \<circ> snd) shares"
  using assms
proof (induction names arbitrary: cpus a)
  case Nil
  then show ?case by (intro exI [of _ "[]"]) simp
next
  case (Cons name names)
  let ?cs = "get_or {} deviceCPUs name \<inter> cpus"
  let ?share = "share_ok L uuid cpuConfig show cls clsName key n deviceCPUs"
  show ?case
  proof (cases "?cs = {}")
    case True
    then have "allocateDevices L uuid cpuConfig show cls clsName key n deviceCPUs names cpus a = Inr (left, a')"
      using Cons.prems(2) by simp
    from Cons.IH [OF Cons.prems(1) this] show ?thesis by (elim exE conjE) (intro exI conjI, auto intro: list_emb_Cons)
  next
    case False
    obtain d u grp where d: "map_of (CPUDevices n) name = Some d"
      "matchesClass L d (classSelectors cls) = Inr u" "lift_err (cpuDeviceGroupOf d) = Inr grp"
      and cap: "\<not> (case map_of (deviceCapacity d) DraDriverCpu_Capacity of None \<Rightarrow> 0 | Some c \<Rightarrow> capacityNanos c) < int (card ?cs) * nano"
      and rest: "(case deviceShare uuid cpuConfig show clsName key (Pool (CpuMap n)) d grp ?cs of (req, res, cfg) \<Rightarrow>
                   allocateDevices L uuid cpuConfig show cls clsName key n deviceCPUs names (cpus - ?cs)
                     (a\<lparr>allocRequests := allocRequests a @ [req], allocResults := allocResults a @ [res],
                        allocConfig := allocConfig a @ [cfg]\<rparr>)) = Inr (left, a')"
      using Cons.prems(2) unfolding allocateDevices.simps(2) Let_def if_not_P [OF False]
      by (elim result_elims)
    obtain req res cfg where sh: "deviceShare uuid cpuConfig show clsName key (Pool (CpuMap n)) d grp ?cs = (req, res, cfg)"
      by (metis surj_pair)
    have pos: "0 < int (card ?cs) * nano" using False Cons.prems(1) by (simp add: nano_def card_gt_0_iff)
    obtain c where c: "map_of (deviceCapacity d) DraDriverCpu_Capacity = Some c" "int (card ?cs) * nano \<le> capacityNanos c"
      using cap pos by (cases "map_of (deviceCapacity d) DraDriverCpu_Capacity") auto
    have here: "?share (name, ?cs) (req, res, cfg)"
      unfolding share_ok_def prod.case using False d c sh by auto
    have "finite (cpus - ?cs)" using Cons.prems(1) by simp
    from Cons.IH [OF this rest [unfolded sh prod.case]] obtain parts shares where
      p: "left = cpus - ?cs - \<Union> (snd ` set parts)" "\<Union> (snd ` set parts) \<subseteq> cpus - ?cs"
      "sorted_wrt (\<lambda>x y. snd x \<inter> snd y = {}) parts" "subseq (map fst parts) names" "CPUCount a' = CPUCount a"
      "list_all2 ?share parts shares"
      "allocRequests a' = allocRequests a @ [req] @ map fst shares" "allocResults a' = allocResults a @ [res] @ map (fst \<circ> snd) shares"
      "allocConfig a' = allocConfig a @ [cfg] @ map (snd \<circ> snd) shares" by auto
    show ?thesis
      by (intro exI [of _ "(name, ?cs) # parts"] exI [of _ "(req, res, cfg) # shares"] conjI)
        (use p here in auto)
  qed
qed

lemma split_card:
  "sorted_wrt (\<lambda>x y. snd x \<inter> snd y = {}) parts \<Longrightarrow> \<forall>x\<in>set parts. finite (snd x) \<Longrightarrow>
   card (\<Union> (snd ` set parts)) = sum_list (map (card \<circ> snd) parts)"
proof (induction parts)
  case (Cons x parts)
  have "snd x \<inter> \<Union> (snd ` set parts) = {}" using Cons.prems(1) by auto
  moreover have "finite (\<Union> (snd ` set parts))" using Cons.prems(2) by auto
  ultimately show ?case using Cons by (simp add: card_Un_disjoint)
qed simp

lemma AllocateCPUs_Inr:
  assumes "AllocateCPUs L B parse uuid cpuConfig show getClass n resources clsName key = Inr a"
  obtains r cls s c t bm deviceCPUs where "resources = Some r" "getClass clsName = Inr cls" "\<not> classHasConfig cls"
    "Geometry (Some n) = Inr (s, c, t)" "s \<noteq> 0" "SocketsPerNode r \<noteq> 0 \<longrightarrow> SocketsPerNode r = s"
    "CoresPerSocket r \<noteq> 0 \<longrightarrow> CoresPerSocket r = c" "NewFrom (CoreBitmap r) = Inr bm"
    "\<forall>idx\<in>set (bmRange B bm). unat idx < length (AbstractToMachine (CpuMap n))" "ToMachineCPUs B (CpuMap n) bm \<noteq> {}"
    "collect (\<lambda>(name, d). rmap (Pair name) (deviceCPUSet parse d)) (CPUDevices n) = Inr deviceCPUs"
    "allocateDevices L uuid cpuConfig show cls clsName key n deviceCPUs (sortedCPUDeviceNames n) (ToMachineCPUs B (CpuMap n) bm)
       \<lparr>allocRequests = [], allocResults = [], allocConfig = [], CPUCount = int (card (ToMachineCPUs B (CpuMap n) bm))\<rparr> = Inr ({}, a)"
proof -
  from assms obtain r where r: "resources = Some r" by (auto simp: AllocateCPUs_def split: option.splits)
  show thesis
    using assms unfolding AllocateCPUs_def r option.case Let_def
    by (elim result_elims) (auto simp: list_ex_iff not_le split: if_splits elim!: result_elims intro!: that [OF r])
qed

text \<open>
  C35.  A CPU allocation hands out exactly the CPUs that Slurm granted.  When AllocateCPUs succeeds,
  the core bitmap parses, every core of it is in the node's mapping, and the CPUs it stands for are
  split into non-empty, pairwise disjoint sets, one per request: nothing is lost and nothing is
  given twice, and the CPU count is the sum of the shares.  Each share lies within the CPUs its
  device publishes, that device passes every selector of the class and has the capacity, and the
  request, the result and the opaque configuration of the share name that device and that set.
\<close>

theorem AllocateCPUs_exact:
  assumes "AllocateCPUs L B parse uuid cpuConfig show getClass n resources clsName key = Inr a"
  shows "\<exists>r bm cls deviceCPUs parts shares. resources = Some r \<and> NewFrom (CoreBitmap r) = Inr bm \<and>
     (\<forall>idx\<in>set (bmRange B bm). unat idx < length (AbstractToMachine (CpuMap n))) \<and>
     getClass clsName = Inr cls \<and>
     collect (\<lambda>(name, d). rmap (Pair name) (deviceCPUSet parse d)) (CPUDevices n) = Inr deviceCPUs \<and>
     \<Union> (snd ` set parts) = ToMachineCPUs B (CpuMap n) bm \<and> sorted_wrt (\<lambda>x y. snd x \<inter> snd y = {}) parts \<and>
     CPUCount a = int (card (ToMachineCPUs B (CpuMap n) bm)) \<and> CPUCount a = int (sum_list (map (card \<circ> snd) parts)) \<and>
     list_all2 (share_ok L uuid cpuConfig show cls clsName key n deviceCPUs) parts shares \<and>
     allocRequests a = map fst shares \<and> allocResults a = map (fst \<circ> snd) shares \<and> allocConfig a = map (snd \<circ> snd) shares"
proof -
  obtain r cls s c t bm deviceCPUs where r: "resources = Some r" "getClass clsName = Inr cls" "NewFrom (CoreBitmap r) = Inr bm"
    "\<forall>idx\<in>set (bmRange B bm). unat idx < length (AbstractToMachine (CpuMap n))"
    "collect (\<lambda>(name, d). rmap (Pair name) (deviceCPUSet parse d)) (CPUDevices n) = Inr deviceCPUs"
    and run: "allocateDevices L uuid cpuConfig show cls clsName key n deviceCPUs (sortedCPUDeviceNames n) (ToMachineCPUs B (CpuMap n) bm)
       \<lparr>allocRequests = [], allocResults = [], allocConfig = [], CPUCount = int (card (ToMachineCPUs B (CpuMap n) bm))\<rparr> = Inr ({}, a)"
    by (rule AllocateCPUs_Inr [OF assms])
  have fin: "finite (ToMachineCPUs B (CpuMap n) bm)" by (simp add: ToMachineCPUs_def)
  obtain parts shares where p: "{} = ToMachineCPUs B (CpuMap n) bm - \<Union> (snd ` set parts)"
    "\<Union> (snd ` set parts) \<subseteq> ToMachineCPUs B (CpuMap n) bm" "sorted_wrt (\<lambda>x y. snd x \<inter> snd y = {}) parts"
    "CPUCount a = int (card (ToMachineCPUs B (CpuMap n) bm))"
    "list_all2 (share_ok L uuid cpuConfig show cls clsName key n deviceCPUs) parts shares"
    "allocRequests a = map fst shares" "allocResults a = map (fst \<circ> snd) shares" "allocConfig a = map (snd \<circ> snd) shares"
    using allocateDevices_Inr [OF fin run] by auto
  have eq: "\<Union> (snd ` set parts) = ToMachineCPUs B (CpuMap n) bm" using p(1,2) by blast
  have "finite (snd x)" if "x \<in> set parts" for x
    using that p(2) by (intro finite_subset [OF _ fin]) auto
  then have "card (ToMachineCPUs B (CpuMap n) bm) = sum_list (map (card \<circ> snd) parts)"
    using split_card [OF p(3)] eq by simp
  then have "CPUCount a = int (sum_list (map (card \<circ> snd) parts))" using p(4) by simp
  then show ?thesis using r p eq by blast
qed

section \<open>A validated fingerprint pins the mapping\<close>

lemma cpuFingerprint_Inr:
  assumes "cpuFingerprint parse show hash n0 = Inr f"
  obtains n devices sum where "n0 = Some n" "CPUDevices n \<noteq> []"
    "hash (Pool (CpuMap n), devices, map show (AbstractToMachine (CpuMap n))) = Inr sum" "f = ''v1:'' @ sum"
    "collect (\<lambda>name. case map_of (CPUDevices n) name of
             None \<Rightarrow> Inl (DraErr ''panic'') | Some d \<Rightarrow> canonicalDevice parse show d) (sortedCPUDeviceNames n) = Inr devices"
proof -
  from assms obtain n where n: "n0 = Some n" by (auto simp: cpuFingerprint_def split: option.splits)
  show thesis using assms unfolding cpuFingerprint_def n option.case
    by (elim result_elims) (auto intro!: that [OF n])
qed

lemma map_inj_on: "map f xs = map f ys \<Longrightarrow> inj_on f (set xs \<union> set ys) \<Longrightarrow> xs = ys"
  by (simp add: inj_on_map_eq_map)

lemma validated_same:
  assumes "ValidateCPUFingerprint J parse show hash n0 extra = Inr ()"
    "ValidateCPUFingerprint J parse show hash n1 extra = Inr ()"
  shows "\<exists>f. cpuFingerprint parse show hash n0 = Inr f \<and> cpuFingerprint parse show hash n1 = Inr f"
proof -
  from assms obtain x f where "AppliedCPUFingerprint J extra = Inr x" "cpuFingerprint parse show hash n0 = Inr f" "x = f"
    unfolding ValidateCPUFingerprint_def by (elim result_elims) blast
  moreover from assms obtain y g where "AppliedCPUFingerprint J extra = Inr y" "cpuFingerprint parse show hash n1 = Inr g" "y = g"
    unfolding ValidateCPUFingerprint_def by (elim result_elims) blast
  ultimately show ?thesis by simp
qed


section \<open>Sample allocation\<close>

abbreviation sample_info :: NodeInfo where
  "sample_info \<equiv> \<lparr>CpuMap = NewCPUMap ''p'' [sample_thread 0, sample_thread 1],
     CPUDevices = [(''s0'', sample_device ''s0'' 0 ''0-1'' 2 ''0-1>1'')]\<rparr>"

definition sample_hash :: "topology \<Rightarrow> dra_err + string" where
  "sample_hash t = (if fst t = ''p'' \<and> fst (snd t) = [projr (canonicalDevice model_parse (\<lambda>_. ''0-1'') (sample_device ''s0'' 0 ''0-1'' 2 ''0-1>1''))]
     \<and> snd (snd t) = [''0-1''] then Inr ''ab'' else Inl (DraErr ''none''))"

definition sample_json :: json_codec where
  "sample_json = \<lparr>marshal = (\<lambda>_. []), unmarshal = (\<lambda>_. Inr \<lparr>wireVersion = 1, wireProfiles = Some [], wireFingerprint = ''v1:ab''\<rparr>)\<rparr>"

lemma sample_names: "sortedCPUDeviceNames sample_info = [''s0'']"
  by (simp add: sortedCPUDeviceNames_def)

lemma sample_geometry: "Geometry (Some sample_info) = Inr (1, 1, 2)"
  unfolding sample_map by (simp add: Geometry_def sample_group deviceGroup_def get_or_def sample_thread_def)

lemma sample_device_cpus: "deviceCPUSet model_parse (sample_device ''s0'' 0 ''0-1'' 2 l) = Inr {0, 1}"
proof -
  have "Option.bind (map_of (deviceAttributes (sample_device ''s0'' 0 ''0-1'' 2 l)) DraDriverCpu_CPUIDs) StringValue = Some ''0-1''"
    by (simp add: sample_device_def DraDriverCpu_CPUIDs_def DraDriverCpu_SocketID_def DraDriverCpu_SMTLayout_def
        DraDriverCpu_SMTEnabled_def string_attribute_def int_attribute_def)
  then show ?thesis using sample_cpus by (simp add: deviceCPUSet_def)
qed

lemma sample_canonical:
  "canonicalDevice model_parse (\<lambda>_. ''0-1'') (sample_device ''s0'' 0 ''0-1'' 2 ''0-1>1'') =
     Inr (projr (canonicalDevice model_parse (\<lambda>_. ''0-1'') (sample_device ''s0'' 0 ''0-1'' 2 ''0-1>1'')))"
proof -
  have "deviceCPUSet model_parse (sample_device ''s0'' 0 ''0-1'' 2 ''0-1>1'' \<lparr>deviceAttributes :=
      AList.delete DraDriverCpu_SMTLayout (deviceAttributes (sample_device ''s0'' 0 ''0-1'' 2 ''0-1>1''))\<rparr>) = Inr {0, 1}"
    using sample_device_cpus [of "''0-1>1''"] by (simp add: deviceCPUSet_def DraDriverCpu_SMTLayout_def DraDriverCpu_CPUIDs_def)
  then show ?thesis by (simp add: canonicalDevice_def)
qed

lemma sample_validates: "ValidateCPUFingerprint sample_json model_parse (\<lambda>_. ''0-1'') sample_hash (Some sample_info) AppliedInventoryExtraPrefix = Inr ()"
proof -
  have d: "AppliedCPUFingerprint sample_json AppliedInventoryExtraPrefix = Inr ''v1:ab''"
    by (simp add: AppliedCPUFingerprint_def DecodeAppliedInventory_def cut_prefix_def sample_json_def appliedInventoryVersion_def)
  have cores: "AbstractToMachine (CpuMap sample_info) = [{0, 1}]" "Pool (CpuMap sample_info) = ''p''" by (simp_all add: sample_map)
  have "cpuFingerprint model_parse (\<lambda>_. ''0-1'') sample_hash (Some sample_info) = Inr ''v1:ab''"
  proof -
    obtain dv where "canonicalDevice model_parse (\<lambda>_. ''0-1'') (sample_device ''s0'' 0 ''0-1'' 2 ''0-1>1'') = Inr dv"
      using sample_canonical by blast
    then show ?thesis using sample_names sample_geometry cores by (simp add: cpuFingerprint_def sample_hash_def)
  qed
  then show ?thesis by (simp add: ValidateCPUFingerprint_def d)
qed


definition sample_bits :: bitmap_lib where
  "sample_bits = \<lparr>bmSet = (\<lambda>_ bm. bm), bmRange = (\<lambda>_. [0])\<rparr>"

definition sample_resources :: NodeResources where
  "sample_resources = \<lparr>nrNode = ''n'', nrExtra = [], SocketsPerNode = 1, CoresPerSocket = 1, MemAlloc = 0,
     CoreBitmap = ''0x01'', nrChannel = 0, nrGres = []\<rparr>"

definition sample_class :: device_class where
  "sample_class = \<lparr>className = ''cpu'', classSelectors = [], classHasConfig = False\<rparr>"

lemma sample_allocation:
  "\<exists>a. AllocateCPUs model_cel sample_bits model_parse id id (\<lambda>_. ''0-1'') (\<lambda>_. Inr sample_class) sample_info
     (Some sample_resources) ''cpu'' ''k'' = Inr a \<and> CPUCount a = 2"
proof -
  have bm: "is_ok (NewFrom ''0x01'')" by code_simp
  then obtain bm where bm: "NewFrom ''0x01'' = Inr bm" by (auto simp: is_ok_def split: sum.splits)
  have range: "bmRange sample_bits bm = [0]" by (simp add: sample_bits_def)
  have cores: "AbstractToMachine (CpuMap sample_info) = [{0, 1}]" "Pool (CpuMap sample_info) = ''p''" by (simp_all add: sample_map)
  have cpus: "ToMachineCPUs sample_bits (CpuMap sample_info) bm = {0, 1}" unfolding ToMachineCPUs_def range cores by simp
  have cap: "map_of (deviceCapacity (sample_device ''s0'' 0 ''0-1'' 2 ''0-1>1'')) DraDriverCpu_Capacity =
      Some \<lparr>capacityNanos = 2 * 1000000000, hasRequestPolicy = False\<rparr>" by (simp add: sample_device_def DraDriverCpu_Capacity_def)
  have dev: "collect (\<lambda>(name, d). rmap (Pair name) (deviceCPUSet model_parse d)) (CPUDevices sample_info) = Inr [(''s0'', {0, 1})]"
    using sample_device_cpus [of "''0-1>1''"] by simp
  show ?thesis
    unfolding AllocateCPUs_def sample_resources_def option.case
    using sample_geometry bm range cores cpus cap dev sample_names sample_group
    by (simp add: sample_class_def Let_def get_or_def nano_def split: prod.split)
qed

theorem AllocateCPUs_exact_witness:
  "\<exists>a bm parts. AllocateCPUs model_cel sample_bits model_parse id id (\<lambda>_. ''0-1'') (\<lambda>_. Inr sample_class) sample_info
     (Some sample_resources) ''cpu'' ''k'' = Inr a \<and> CPUCount a = 2 \<and>
     \<Union> (snd ` set (parts :: (string \<times> cpuset) list)) = ToMachineCPUs sample_bits (CpuMap sample_info) bm \<and>
     CPUCount a = int (sum_list (map (card \<circ> snd) parts))"
proof -
  obtain a where a: "AllocateCPUs model_cel sample_bits model_parse id id (\<lambda>_. ''0-1'') (\<lambda>_. Inr sample_class) sample_info
     (Some sample_resources) ''cpu'' ''k'' = Inr a" and two: "CPUCount a = 2" using sample_allocation by blast
  show ?thesis using AllocateCPUs_exact [OF a] a two by blast
qed

end
