(* ===== verification/Dra_Inventory.thy ===== *)
theory Dra_Inventory
  imports Complex_Main Dra_Registry
begin

text \<open>
  \<open>internal/dra/inventory.go\<close>, \<open>numa.go\<close> and the translation to GRES in \<open>gres.go\<close>: which devices
  of the published resource slices belong to a node and to which device profile.  A loop over
  pools, slices and devices is one recursion over the devices in that order.  The results are
  that the inventory holds exactly the devices of the newest complete pool generations of the
  node, each under its only matching profile, in a fixed order.
\<close>

section \<open>Resource pools\<close>

record ResourcePoolID =
  pidDriver :: string
  pidPool :: string

definition ResourcePoolIDFromSlice :: "resource_slice \<Rightarrow> ResourcePoolID" where
  "ResourcePoolIDFromSlice s = \<lparr>pidDriver = sliceDriver s, pidPool = poolName (slicePool s)\<rparr>"

definition ResourcePoolID_String :: "ResourcePoolID \<Rightarrow> string" where
  "ResourcePoolID_String i = pidDriver i @ ''/'' @ pidPool i"

record resourcePoolSnapshot =
  psID :: ResourcePoolID
  psGeneration :: int
  psSliceCount :: int
  psProfiles :: "DeviceProfile list"
  psSlices :: "resource_slice list"

definition ValidateResourceSliceNode :: "resource_slice \<Rightarrow> dra_err + unit" where
  "ValidateResourceSliceNode s =
     (if hasNodeSelector s then Inl (DraErr ''nodeSelector'')
      else if deref False (sliceAllNodes s) then Inl (DraErr ''allNodes'')
      else if deref False (perDeviceNodeSelection s) then Inl (DraErr ''perDeviceNodeSelection'')
      else if deref [] (sliceNodeName s) = [] then Inl (DraErr ''nodeName'')
      else Inr ())"

type_synonym snapshots = "(ResourcePoolID, resourcePoolSnapshot) gomap"

definition addResourceSliceToSnapshot :: "DeviceProfile list \<Rightarrow> resource_slice \<Rightarrow> snapshots \<Rightarrow> snapshots" where
  "addResourceSliceToSnapshot profiles s m =
     (let i = ResourcePoolIDFromSlice s;
          fresh = \<lparr>psID = i, psGeneration = poolGeneration (slicePool s), psSliceCount = poolSliceCount (slicePool s),
                   psProfiles = profiles, psSlices = [s]\<rparr>
      in case map_of m i of
           None \<Rightarrow> AList.update i fresh m
         | Some snapshot \<Rightarrow>
             if poolGeneration (slicePool s) > psGeneration snapshot then AList.update i fresh m
             else if poolGeneration (slicePool s) < psGeneration snapshot then m
             else AList.update i (snapshot\<lparr>psSlices := psSlices snapshot @ [s]\<rparr>) m)"

definition driverProfiles :: "Registry \<Rightarrow> string \<Rightarrow> (string, DeviceProfile list) gomap \<Rightarrow>
    DeviceProfile list \<times> (string, DeviceProfile list) gomap" where
  "driverProfiles R driver profilesByDriver = (case map_of profilesByDriver driver of
     Some profiles \<Rightarrow> (profiles, profilesByDriver)
   | None \<Rightarrow> (profilesForDriver R driver, AList.update driver (profilesForDriver R driver) profilesByDriver))"

fun snapshotLoop :: "Registry \<Rightarrow> resource_slice list \<Rightarrow> (string, DeviceProfile list) gomap \<Rightarrow> snapshots \<Rightarrow> snapshots" where
  "snapshotLoop R [] profilesByDriver m = m"
| "snapshotLoop R (s # ss) profilesByDriver m =
     (case driverProfiles R (sliceDriver s) profilesByDriver of (profiles, profilesByDriver) \<Rightarrow>
        if length profiles = 0 then snapshotLoop R ss profilesByDriver m
        else snapshotLoop R ss profilesByDriver (addResourceSliceToSnapshot profiles s m))"

fun checkPoolSlices :: "string \<Rightarrow> int \<Rightarrow> resource_slice list \<Rightarrow> dra_err + unit" where
  "checkPoolSlices nodeName cnt [] = Inr ()"
| "checkPoolSlices nodeName cnt (s # ss) =
     rbind (ValidateResourceSliceNode s) (\<lambda>_.
       case sliceNodeName s of
         None \<Rightarrow> Inl (DraErr ''panic'')
       | Some n \<Rightarrow>
           if n \<noteq> nodeName then Inl (DraErr ''inconsistent nodeName'')
           else if poolSliceCount (slicePool s) \<noteq> cnt then Inl (DraErr ''inconsistent resourceSliceCount'')
           else checkPoolSlices nodeName cnt ss)"

fun completePools :: "string \<Rightarrow> snapshots \<Rightarrow> ResourcePoolID list \<Rightarrow> dra_err + resourcePoolSnapshot list" where
  "completePools node m [] = Inr []"
| "completePools node m (i # rest) = (case map_of m i of
     None \<Rightarrow> Inl (DraErr ''panic'')
   | Some snapshot \<Rightarrow> (case psSlices snapshot of
       [] \<Rightarrow> Inl (DraErr ''panic'')
     | s # _ \<Rightarrow>
         (let nodeName = deref [] (sliceNodeName s) in
          rbind (checkPoolSlices nodeName (psSliceCount snapshot) (psSlices snapshot)) (\<lambda>_.
            if nodeName \<noteq> node then completePools node m rest
            else if int (length (psSlices snapshot)) \<noteq> psSliceCount snapshot then Inl (DraErr ''incomplete pool'')
            else rmap ((#) snapshot) (completePools node m rest)))))"

definition completeResourcePoolSnapshots :: "string \<Rightarrow> snapshots \<Rightarrow> dra_err + resourcePoolSnapshot list" where
  "completeResourcePoolSnapshots node m =
     completePools node m (sort_key (\<lambda>i. (pidDriver i, pidPool i)) (map fst m))"

definition selectResourcePoolSnapshots :: "Registry \<Rightarrow> string \<Rightarrow> resource_slice list \<Rightarrow> dra_err + resourcePoolSnapshot list" where
  "selectResourcePoolSnapshots R node ss = completeResourcePoolSnapshots node (snapshotLoop R ss [] [])"

section \<open>Classifying a device\<close>

definition celDevice :: "DeviceIdentity \<Rightarrow> device \<Rightarrow> cel_device" where
  "celDevice i d = \<lparr>celDriver = idDriver i, celAllowMultiple = allowMultipleAllocations d,
     celAttributes = deviceAttributes d, celCapacity = deviceCapacity d\<rparr>"

fun matchDeviceProfile :: "cel_lib \<Rightarrow> DeviceIdentity \<Rightarrow> device \<Rightarrow> DeviceProfile list \<Rightarrow> DeviceProfile option \<Rightarrow>
    dra_err + DeviceProfile option" where
  "matchDeviceProfile L i d [] matched = Inr matched"
| "matchDeviceProfile L i d (p # ps) matched =
     rbind (compileCached L (profSelector p)) (\<lambda>_.
     rbind (deviceMatches L (profSelector p) (celDevice i d)) (\<lambda>matches.
       if \<not> matches then matchDeviceProfile L i d ps matched
       else (case matched of
           Some q \<Rightarrow> Inl (OverlappingDeviceProfiles i (profName q) (profName p))
         | None \<Rightarrow> matchDeviceProfile L i d ps (Some p))))"

definition addNUMANode :: "int list \<Rightarrow> int \<Rightarrow> int list" where
  "addNUMANode nodes value =
     (if value < 0 \<or> value > max_int32 then nodes
      else if value \<in> set nodes then nodes else nodes @ [value])"

definition deviceNUMANodes :: "cel_lib \<Rightarrow> device \<Rightarrow> int list" where
  "deviceNUMANodes L d = (case map_of (deviceAttributes d) (numaNodeAttribute L) of
     None \<Rightarrow> []
   | Some attribute \<Rightarrow>
       sort (foldl addNUMANode [] (case IntValue attribute of Some v \<Rightarrow> [v] | None \<Rightarrow> IntValues attribute)))"

section \<open>The inventory of a node\<close>

record ProfileInventory =
  piProfile :: DeviceProfile
  piDevices :: "DeviceIdentity list"
  piNUMANodes :: "(DeviceIdentity, int list) gomap"

record NodeInventory =
  niNode :: string
  niProfiles :: "ProfileInventory list"

record inventory_acc =
  profilesByName :: "(string, DeviceProfile) gomap"
  devicesByProfile :: "(string, DeviceIdentity list) gomap"
  numaNodesOf :: "(DeviceIdentity, int list) gomap"
  seenIDs :: "DeviceIdentity list"

definition MakeDeviceID :: "resource_slice \<Rightarrow> device \<Rightarrow> DeviceIdentity" where
  "MakeDeviceID s d = \<lparr>idDriver = sliceDriver s, idPool = poolName (slicePool s), idDevice = deviceName d\<rparr>"

definition addMatched :: "cel_lib \<Rightarrow> DeviceIdentity \<Rightarrow> device \<Rightarrow> DeviceProfile \<Rightarrow> inventory_acc \<Rightarrow> inventory_acc" where
  "addMatched L identity d p acc =
     (let nodes = deviceNUMANodes L d in
      \<lparr>profilesByName = AList.update (profName p) p (profilesByName acc),
       devicesByProfile = AList.update (profName p)
         (get_or [] (devicesByProfile acc) (profName p) @ [identity]) (devicesByProfile acc),
       numaNodesOf = (if length nodes > 0 then AList.update identity nodes (numaNodesOf acc) else numaNodesOf acc),
       seenIDs = identity # seenIDs acc\<rparr>)"

definition poolDevices :: "resourcePoolSnapshot list \<Rightarrow> (DeviceProfile list \<times> resource_slice \<times> device) list" where
  "poolDevices snapshots = concat (map (\<lambda>snapshot. concat (map (\<lambda>s.
     map (\<lambda>d. (psProfiles snapshot, s, d)) (sliceDevices s)) (psSlices snapshot))) snapshots)"

fun classifyDevices :: "cel_lib \<Rightarrow> (DeviceProfile list \<times> resource_slice \<times> device) list \<Rightarrow> inventory_acc \<Rightarrow>
    dra_err + inventory_acc" where
  "classifyDevices L [] acc = Inr acc"
| "classifyDevices L ((profiles, s, d) # rest) acc =
     (let identity = MakeDeviceID s d in
      rbind (matchDeviceProfile L identity d profiles None) (\<lambda>matched.
        case matched of
          None \<Rightarrow> classifyDevices L rest acc
        | Some p \<Rightarrow>
            if identity \<in> set (seenIDs acc) then Inl (DraErr ''duplicate device'')
            else classifyDevices L rest (addMatched L identity d p acc)))"

definition device_order :: "DeviceIdentity \<Rightarrow> string \<times> string \<times> string" where
  "device_order i = (idDriver i, idPool i, idDevice i)"

definition profileInventory :: "inventory_acc \<Rightarrow> string \<Rightarrow> ProfileInventory" where
  "profileInventory acc n =
     (let devices = sort_key device_order (get_or [] (devicesByProfile acc) n) in
      \<lparr>piProfile = get_or zeroProfile (profilesByName acc) n, piDevices = devices,
       piNUMANodes = fold (\<lambda>dev m. case map_of (numaNodesOf acc) dev of
         Some nodes \<Rightarrow> AList.update dev nodes m | None \<Rightarrow> m) devices []\<rparr>)"

definition sortedProfileInventories :: "inventory_acc \<Rightarrow> ProfileInventory list" where
  "sortedProfileInventories acc = map (profileInventory acc) (sort (map fst (devicesByProfile acc)))"

definition empty_inventory :: inventory_acc where
  "empty_inventory = \<lparr>profilesByName = [], devicesByProfile = [], numaNodesOf = [], seenIDs = []\<rparr>"

text \<open>A node is its name; a nil registry or node is refused.\<close>

definition BuildNodeInventory :: "cel_lib \<Rightarrow> Registry option \<Rightarrow> string option \<Rightarrow> resource_slice list \<Rightarrow> dra_err + NodeInventory" where
  "BuildNodeInventory L registry node ss = (case registry of
     None \<Rightarrow> Inl (DraErr ''nil registry'')
   | Some R \<Rightarrow> (case node of
       None \<Rightarrow> Inl (DraErr ''nil node'')
     | Some n \<Rightarrow>
         rbind (selectResourcePoolSnapshots R n ss) (\<lambda>snapshots.
         rbind (classifyDevices L (poolDevices snapshots) empty_inventory) (\<lambda>acc.
           Inr \<lparr>niNode = n, niProfiles = sortedProfileInventories acc\<rparr>))))"

section \<open>Translation to GRES\<close>

fun inventory_GRES :: "(string \<Rightarrow> bool) \<Rightarrow> ProfileInventory list \<Rightarrow> dra_err + GRESInventory list" where
  "inventory_GRES isLabel [] = Inr []"
| "inventory_GRES isLabel (i # rest) =
     (let profile = piProfile i in
      if UsesCoreBitmap profile then inventory_GRES isLabel rest
      else if \<not> UsesIndexedGRES profile then Inl (DraErr ''unsupported backend'')
      else rbind (profile_GRES isLabel profile) (\<lambda>gres.
        rmap ((#) \<lparr>invGRES = gres, invDevices = piDevices i, invNUMANodes = piNUMANodes i, invCores = []\<rparr>)
          (inventory_GRES isLabel rest)))"

section \<open>NUMA spans\<close>

definition spanSlices :: "Registry \<Rightarrow> resource_slice list \<Rightarrow> (DeviceProfile list \<times> resource_slice \<times> device) list" where
  "spanSlices R ss = concat (map (\<lambda>s.
     let profiles = profilesForDriver R (sliceDriver s) in
     if deref [] (sliceNodeName s) = [] \<or> length profiles = 0 then []
     else map (\<lambda>d. (profiles, s, d)) (sliceDevices s)) ss)"

definition addSpan :: "cel_lib \<Rightarrow> string list \<Rightarrow> DeviceProfile list \<times> resource_slice \<times> device \<Rightarrow>
    (string, (string, int list) gomap) gomap \<Rightarrow> (string, (string, int list) gomap) gomap" where
  "addSpan L wanted x m = (case x of (profiles, s, d) \<Rightarrow>
     let numaNodes = deviceNUMANodes L d; nodeName = deref [] (sliceNodeName s) in
     if length numaNodes = 0 then m
     else (case matchDeviceProfile L (MakeDeviceID s d) d profiles None of
         Inr (Some profile) \<Rightarrow>
           if profName profile \<notin> set wanted then m
           else (let nodes = get_or [] m (profName profile) in
             AList.update (profName profile)
               (AList.update nodeName (foldl (\<lambda>ns n. if n \<in> set ns then ns else ns @ [n]) (get_or [] nodes nodeName) numaNodes)
                 nodes) m)
       | _ \<Rightarrow> m))"

text \<open>The quotient of the last line, before it is rounded to a \<open>float64\<close>.\<close>

definition NUMASpans :: "cel_lib \<Rightarrow> Registry option \<Rightarrow> resource_slice list \<Rightarrow> string list \<Rightarrow> (string, rat) gomap" where
  "NUMASpans L registry ss profileNames = (case registry of
     None \<Rightarrow> []
   | Some R \<Rightarrow>
       if length profileNames = 0 then []
       else map (\<lambda>(n, nodes). (n, of_int (sum_list (map (\<lambda>(_, numaNodes). int (length numaNodes)) nodes)) / of_nat (length nodes)))
         (fold (addSpan L profileNames) (spanSlices R ss) []))"

section \<open>The newest generation of each pool\<close>

abbreviation gen_of :: "resource_slice \<Rightarrow> int" where
  "gen_of s \<equiv> poolGeneration (slicePool s)"

definition newest :: "resource_slice list \<Rightarrow> ResourcePoolID \<Rightarrow> resource_slice list" where
  "newest ss i = filter (\<lambda>s. ResourcePoolIDFromSlice s = i \<and>
     (\<forall>s'\<in>set ss. ResourcePoolIDFromSlice s' = i \<longrightarrow> gen_of s' \<le> gen_of s)) ss"

definition snapshot_of :: "Registry \<Rightarrow> resource_slice list \<Rightarrow> ResourcePoolID \<Rightarrow> resourcePoolSnapshot option" where
  "snapshot_of R ss i = (if i \<notin> ResourcePoolIDFromSlice ` set ss then None
     else Some \<lparr>psID = i, psGeneration = gen_of (hd (newest ss i)), psSliceCount = poolSliceCount (slicePool (hd (newest ss i))),
                psProfiles = profilesForDriver R (pidDriver i), psSlices = newest ss i\<rparr>)"

lemma newest_ne: "i \<in> ResourcePoolIDFromSlice ` set ss \<Longrightarrow> newest ss i \<noteq> []"
proof -
  assume "i \<in> ResourcePoolIDFromSlice ` set ss"
  let ?A = "{s\<in>set ss. ResourcePoolIDFromSlice s = i}"
  have f: "finite (gen_of ` ?A)" and ne: "gen_of ` ?A \<noteq> {}" using \<open>i \<in> _\<close> by auto
  from Max_in [OF f ne] obtain s where s: "s \<in> ?A" "Max (gen_of ` ?A) = gen_of s" by auto
  then have "\<forall>g\<in>gen_of ` ?A. g \<le> gen_of s" using Max_ge [OF f] by simp
  with s(1) have "s \<in> set (newest ss i)" by (auto simp: newest_def)
  then show ?thesis by auto
qed

lemma newest_gen: "s \<in> set (newest ss i) \<Longrightarrow> s' \<in> set (newest ss i) \<Longrightarrow> gen_of s = gen_of s'"
  by (auto simp: newest_def intro: antisym)

lemma newest_Nil: "i \<notin> ResourcePoolIDFromSlice ` set ss \<Longrightarrow> newest ss i = []"
  by (auto simp: newest_def filter_empty_conv)

lemma newest_other: "ResourcePoolIDFromSlice s \<noteq> i \<Longrightarrow> newest (ss @ [s]) i = newest ss i"
  by (auto simp: newest_def intro!: filter_cong)

lemma newest_greater:
  assumes "ResourcePoolIDFromSlice s = i" "\<forall>s'\<in>set (newest ss i). gen_of s' < gen_of s"
  shows "newest (ss @ [s]) i = [s]"
proof -
  have "gen_of s' < gen_of s" if "s' \<in> set ss" "ResourcePoolIDFromSlice s' = i" for s'
  proof -
    have "newest ss i \<noteq> []" using that by (intro newest_ne) auto
    then have h: "hd (newest ss i) \<in> set (newest ss i)" by simp
    then have "gen_of s' \<le> gen_of (hd (newest ss i))" using that by (auto simp: newest_def)
    also have "\<dots> < gen_of s" using assms(2) h by blast
    finally show ?thesis .
  qed
  then show ?thesis using assms(1) by (auto simp: newest_def filter_empty_conv not_le dest: less_asym)
qed

lemma newest_less:
  assumes "ResourcePoolIDFromSlice s = i" "h \<in> set (newest ss i)" "gen_of s < gen_of h"
  shows "newest (ss @ [s]) i = newest ss i"
proof -
  have h: "h \<in> set ss" "ResourcePoolIDFromSlice h = i" "\<forall>s'\<in>set ss. ResourcePoolIDFromSlice s' = i \<longrightarrow> gen_of s' \<le> gen_of h"
    using assms(2) by (auto simp: newest_def)
  show ?thesis using assms(1,3) h by (auto simp: newest_def intro!: filter_cong)
qed

lemma newest_equal:
  assumes "ResourcePoolIDFromSlice s = i" "h \<in> set (newest ss i)" "gen_of s = gen_of h"
  shows "newest (ss @ [s]) i = newest ss i @ [s]"
proof -
  have h: "h \<in> set ss" "ResourcePoolIDFromSlice h = i" "\<forall>s'\<in>set ss. ResourcePoolIDFromSlice s' = i \<longrightarrow> gen_of s' \<le> gen_of h"
    using assms(2) by (auto simp: newest_def)
  show ?thesis using assms(1,3) h by (auto simp: newest_def intro!: filter_cong)
qed

lemma add_snapshot:
  assumes m: "map_of m = snapshot_of R ss"
  shows "map_of (addResourceSliceToSnapshot (profilesForDriver R (sliceDriver s)) s m) = snapshot_of R (ss @ [s])"
proof
  fix j
  let ?i = "ResourcePoolIDFromSlice s"
  show "map_of (addResourceSliceToSnapshot (profilesForDriver R (sliceDriver s)) s m) j = snapshot_of R (ss @ [s]) j"
  proof (cases "j = ?i")
    case False
    then have "snapshot_of R (ss @ [s]) j = snapshot_of R ss j" by (simp add: snapshot_of_def newest_other)
    then show ?thesis using False m by (auto simp: addResourceSliceToSnapshot_def Let_def split: option.split)
  next
    case True
    have d: "pidDriver ?i = sliceDriver s" by (simp add: ResourcePoolIDFromSlice_def)
    show ?thesis
    proof (cases "snapshot_of R ss ?i")
      case None
      then have "newest ss ?i = []" by (intro newest_Nil) (simp add: snapshot_of_def split: if_splits)
      then have "newest (ss @ [s]) ?i = [s]" by (intro newest_greater) simp_all
      then show ?thesis using None True m d by (simp add: addResourceSliceToSnapshot_def Let_def snapshot_of_def)
    next
      case (Some sn)
      let ?h = "hd (newest ss ?i)"
      from Some have n: "newest ss ?i \<noteq> []" by (intro newest_ne) (simp add: snapshot_of_def split: if_splits)
      then have h: "?h \<in> set (newest ss ?i)" by simp
      have sn: "sn = \<lparr>psID = ?i, psGeneration = gen_of ?h, psSliceCount = poolSliceCount (slicePool ?h),
                psProfiles = profilesForDriver R (sliceDriver s), psSlices = newest ss ?i\<rparr>"
        using Some d by (simp add: snapshot_of_def split: if_splits)
      consider (gt) "gen_of s > gen_of ?h" | (lt) "gen_of s < gen_of ?h" | (eq) "gen_of s = gen_of ?h" by linarith
      then show ?thesis
      proof cases
        case gt
        then have "newest (ss @ [s]) ?i = [s]"
          using newest_gen [OF h] by (intro newest_greater) (simp, metis)
        then show ?thesis using gt Some True m d sn by (simp add: addResourceSliceToSnapshot_def Let_def snapshot_of_def)
      next
        case lt
        then show ?thesis using Some True m d sn newest_less [OF refl h lt]
          by (simp add: addResourceSliceToSnapshot_def Let_def snapshot_of_def)
      next
        case eq
        then show ?thesis using Some True m d sn newest_equal [OF refl h eq] n
          by (simp add: addResourceSliceToSnapshot_def Let_def snapshot_of_def)
      qed
    qed
  qed
qed

definition supported :: "Registry \<Rightarrow> resource_slice list \<Rightarrow> resource_slice list" where
  "supported R ss = filter (\<lambda>s. profilesForDriver R (sliceDriver s) \<noteq> []) ss"

lemma snapshotLoop_spec:
  "(\<forall>d ps. map_of memo d = Some ps \<longrightarrow> ps = profilesForDriver R d) \<Longrightarrow> map_of m = snapshot_of R (supported R prev) \<Longrightarrow>
   map_of (snapshotLoop R ss memo m) = snapshot_of R (supported R (prev @ ss))"
proof (induction ss arbitrary: memo m prev)
  case (Cons s ss)
  obtain profiles memo' where pm: "driverProfiles R (sliceDriver s) memo = (profiles, memo')"
    by (metis surj_pair)
  then have p: "profiles = profilesForDriver R (sliceDriver s)"
    and memo': "\<forall>d ps. map_of memo' d = Some ps \<longrightarrow> ps = profilesForDriver R d"
    using Cons.prems(1) by (auto simp: driverProfiles_def split: option.splits if_splits)
  have step: "snapshotLoop R (s # ss) memo m = (if profiles = [] then snapshotLoop R ss memo' m
      else snapshotLoop R ss memo' (addResourceSliceToSnapshot profiles s m))"
    by (simp add: pm)
  have app: "prev @ s # ss = (prev @ [s]) @ ss" by simp
  show ?case
  proof (cases "profiles = []")
    case True
    then have "map_of m = snapshot_of R (supported R (prev @ [s]))" using p Cons.prems(2) by (simp add: supported_def)
    from Cons.IH [OF memo' this] show ?thesis unfolding step app if_P [OF True] .
  next
    case False
    then have "supported R (prev @ [s]) = supported R prev @ [s]" using p by (simp add: supported_def)
    then have "map_of (addResourceSliceToSnapshot profiles s m) = snapshot_of R (supported R (prev @ [s]))"
      using add_snapshot [OF Cons.prems(2), of s] p by simp
    from Cons.IH [OF memo' this] show ?thesis unfolding step app if_not_P [OF False] .
  qed
qed simp

lemma checkPoolSlices_Inr:
  "checkPoolSlices n c ss = Inr u \<Longrightarrow> s \<in> set ss \<Longrightarrow>
     sliceNodeName s = Some n \<and> poolSliceCount (slicePool s) = c \<and> ValidateResourceSliceNode s = Inr ()"
  by (induction ss) (auto elim!: result_elims)

definition pool_checked :: "string \<Rightarrow> resourcePoolSnapshot list \<Rightarrow> resourcePoolSnapshot option \<Rightarrow> bool" where
  "pool_checked n snaps o1 = (case o1 of None \<Rightarrow> False | Some sn \<Rightarrow>
     psSlices sn \<noteq> [] \<and>
     (\<exists>nd. (\<forall>s\<in>set (psSlices sn). sliceNodeName s = nd \<and> poolSliceCount (slicePool s) = psSliceCount sn) \<and>
       (nd = Some n \<longrightarrow> int (length (psSlices sn)) = psSliceCount sn \<and> sn \<in> set snaps)))"

lemma pool_checked_mono: "pool_checked n snaps o1 \<Longrightarrow> set snaps \<subseteq> set snaps' \<Longrightarrow> pool_checked n snaps' o1"
  by (auto simp: pool_checked_def split: option.splits)

lemma completePools_Inr:
  "completePools n m is = Inr snaps \<Longrightarrow>
     (\<forall>i\<in>set is. pool_checked n snaps (map_of m i)) \<and>
     (\<forall>sn\<in>set snaps. \<exists>i\<in>set is. map_of m i = Some sn \<and> sliceNodeName (hd (psSlices sn)) = Some n)"
proof (induction "is" arbitrary: snaps)
  case (Cons i rest)
  then obtain sn s r where sn: "map_of m i = Some sn" "psSlices sn = s # r"
    and chk: "checkPoolSlices (deref [] (sliceNodeName s)) (psSliceCount sn) (psSlices sn) = Inr ()"
    and more: "(if deref [] (sliceNodeName s) \<noteq> n then completePools n m rest
            else if int (length (psSlices sn)) \<noteq> psSliceCount sn then Inl (DraErr ''incomplete pool'')
            else rmap ((#) sn) (completePools n m rest)) = Inr snaps"
    by (auto simp: Let_def rbind_eq_Inr split: option.splits list.splits)
  obtain N where N: "sliceNodeName s = Some N" using checkPoolSlices_Inr [OF chk, of s] sn(2) by auto
  have all: "sliceNodeName x = Some N \<and> poolSliceCount (slicePool x) = psSliceCount sn" if "x \<in> set (psSlices sn)" for x
    using checkPoolSlices_Inr [OF chk that] N by simp
  have hd: "sliceNodeName (hd (psSlices sn)) = Some N" using N sn by simp
  obtain tl where tl: "completePools n m rest = Inr tl"
    and st: "snaps = (if N \<noteq> n then tl else sn # tl)" "N = n \<Longrightarrow> int (length (psSlices sn)) = psSliceCount sn"
    using more N by (auto simp: rmap_eq_Inr split: if_splits)
  have sub: "set tl \<subseteq> set snaps" using st by auto
  have here: "pool_checked n snaps (map_of m i)"
    unfolding pool_checked_def sn(1) option.case using all sn(2) st
    by (intro conjI exI [of _ "Some N"]) auto
  have "\<forall>i\<in>set rest. pool_checked n snaps (map_of m i)" using Cons.IH [OF tl] pool_checked_mono [OF _ sub] by blast
  moreover have "\<forall>sn\<in>set snaps. \<exists>i\<in>set (i # rest). map_of m i = Some sn \<and> sliceNodeName (hd (psSlices sn)) = Some n"
    using Cons.IH [OF tl] hd sn(1) st(1) by (cases "N = n") auto
  ultimately show ?case using here by simp
qed simp

definition node_slices :: "Registry \<Rightarrow> string \<Rightarrow> resource_slice list \<Rightarrow> resource_slice set" where
  "node_slices R n ss = {s \<in> set ss. profilesForDriver R (sliceDriver s) \<noteq> [] \<and> sliceNodeName s = Some n \<and>
     (\<forall>s'\<in>set ss. ResourcePoolIDFromSlice s' = ResourcePoolIDFromSlice s \<longrightarrow> gen_of s' \<le> gen_of s)}"

lemma pid_driver: "ResourcePoolIDFromSlice s = ResourcePoolIDFromSlice s' \<Longrightarrow> sliceDriver s = sliceDriver s'"
  by (simp add: ResourcePoolIDFromSlice_def)

lemma newest_supported:
  "profilesForDriver R (sliceDriver s) \<noteq> [] \<Longrightarrow>
   newest (supported R ss) (ResourcePoolIDFromSlice s) = newest ss (ResourcePoolIDFromSlice s)"
proof -
  assume a: "profilesForDriver R (sliceDriver s) \<noteq> []"
  have dr: "profilesForDriver R (sliceDriver x) \<noteq> []" if "ResourcePoolIDFromSlice x = ResourcePoolIDFromSlice s" for x
    using pid_driver [OF that] a by simp
  have "newest (supported R ss) (ResourcePoolIDFromSlice s) = filter (\<lambda>x. profilesForDriver R (sliceDriver x) \<noteq> [] \<and>
      ResourcePoolIDFromSlice x = ResourcePoolIDFromSlice s \<and>
      (\<forall>s'\<in>set (supported R ss). ResourcePoolIDFromSlice s' = ResourcePoolIDFromSlice s \<longrightarrow> gen_of s' \<le> gen_of x)) ss"
    by (simp add: newest_def supported_def conj_commute conj_left_commute)
  also have "\<dots> = newest ss (ResourcePoolIDFromSlice s)"
    unfolding newest_def by (rule filter_cong [OF refl]) (use dr in \<open>auto simp: supported_def\<close>)
  finally show ?thesis .
qed

lemma select_spec:
  assumes "selectResourcePoolSnapshots R n ss = Inr snaps"
  shows "set (poolDevices snaps) = {(profilesForDriver R (sliceDriver s), s, d) |s d. s \<in> node_slices R n ss \<and> d \<in> set (sliceDevices s)}"
    and "\<forall>s\<in>node_slices R n ss. int (length (newest ss (ResourcePoolIDFromSlice s))) = poolSliceCount (slicePool s)"
proof -
  let ?m = "snapshotLoop R ss [] []" and ?sup = "supported R ss"
  have m: "map_of ?m = snapshot_of R ?sup"
    using snapshotLoop_spec [of "[]" R "[]" "[]" ss] by (simp add: snapshot_of_def supported_def fun_eq_iff)
  have dom: "set (sort_key (\<lambda>i. (pidDriver i, pidPool i)) (map fst ?m)) = ResourcePoolIDFromSlice ` set ?sup"
  proof -
    have "set (map fst ?m) = dom (map_of ?m)" by (simp add: dom_map_of_conv_image_fst)
    also have "\<dots> = ResourcePoolIDFromSlice ` set ?sup" unfolding m by (auto simp: snapshot_of_def split: if_splits)
    finally show ?thesis by simp
  qed
  note c = completePools_Inr [OF assms [unfolded selectResourcePoolSnapshots_def completeResourcePoolSnapshots_def], unfolded dom m]
  have inpool: "s \<in> node_slices R n ss \<longleftrightarrow> s \<in> set (newest ?sup (ResourcePoolIDFromSlice s)) \<and> sliceNodeName s = Some n" for s
  proof (cases "profilesForDriver R (sliceDriver s) = []")
    case True
    then show ?thesis by (auto simp: node_slices_def newest_def supported_def)
  next
    case False
    show ?thesis unfolding newest_supported [OF False] using False by (auto simp: node_slices_def newest_def)
  qed
  have pool: "\<exists>sn\<in>set snaps. snapshot_of R ?sup (ResourcePoolIDFromSlice s) = Some sn \<and> s \<in> set (psSlices sn) \<and>
      int (length (psSlices sn)) = poolSliceCount (slicePool s)" if "s \<in> node_slices R n ss" for s
  proof -
    let ?i = "ResourcePoolIDFromSlice s"
    from that inpool have s: "s \<in> set (newest ?sup ?i)" "sliceNodeName s = Some n" by auto
    then have "?i \<in> ResourcePoolIDFromSlice ` set ?sup" by (auto simp: newest_def)
    with c have "pool_checked n snaps (snapshot_of R ?sup ?i)" by blast
    then obtain sn nd where sn: "snapshot_of R ?sup ?i = Some sn"
      "\<forall>s\<in>set (psSlices sn). sliceNodeName s = nd \<and> poolSliceCount (slicePool s) = psSliceCount sn"
      "nd = Some n \<longrightarrow> int (length (psSlices sn)) = psSliceCount sn \<and> sn \<in> set snaps"
      unfolding pool_checked_def by (auto split: option.splits)
    have "psSlices sn = newest ?sup ?i" using sn(1) by (auto simp: snapshot_of_def split: if_splits)
    then show ?thesis using sn s by metis
  qed
  have bk: "s \<in> node_slices R n ss \<and> psProfiles sn = profilesForDriver R (sliceDriver s)"
    if sn: "sn \<in> set snaps" and s: "s \<in> set (psSlices sn)" for sn s
  proof -
    from c sn obtain i where i: "i \<in> ResourcePoolIDFromSlice ` set ?sup" "snapshot_of R ?sup i = Some sn"
      "sliceNodeName (hd (psSlices sn)) = Some n" by blast
    have ps: "psSlices sn = newest ?sup i" "psProfiles sn = profilesForDriver R (pidDriver i)"
      using i(2) by (auto simp: snapshot_of_def split: if_splits)
    have "pool_checked n snaps (Some sn)" using c i(1,2) by metis
    then have "sliceNodeName s = sliceNodeName (hd (psSlices sn))"
      using s unfolding pool_checked_def option.case by (metis hd_in_set)
    then have "sliceNodeName s = Some n" using i(3) by simp
    moreover have "ResourcePoolIDFromSlice s = i" using s ps(1) by (auto simp: newest_def)
    ultimately show ?thesis using inpool [of s] s ps by (auto simp: ResourcePoolIDFromSlice_def)
  qed
  show "set (poolDevices snaps) = {(profilesForDriver R (sliceDriver s), s, d) |s d. s \<in> node_slices R n ss \<and> d \<in> set (sliceDevices s)}"
  proof (intro equalityI subsetI)
    fix x assume "x \<in> set (poolDevices snaps)"
    then obtain sn s d where x: "x = (psProfiles sn, s, d)" "sn \<in> set snaps" "s \<in> set (psSlices sn)" "d \<in> set (sliceDevices s)"
      by (auto simp: poolDevices_def)
    then show "x \<in> {(profilesForDriver R (sliceDriver s), s, d) |s d. s \<in> node_slices R n ss \<and> d \<in> set (sliceDevices s)}"
      using bk [OF x(2,3)] by auto
  next
    fix x assume "x \<in> {(profilesForDriver R (sliceDriver s), s, d) |s d. s \<in> node_slices R n ss \<and> d \<in> set (sliceDevices s)}"
    then obtain s d where x: "x = (profilesForDriver R (sliceDriver s), s, d)" "s \<in> node_slices R n ss" "d \<in> set (sliceDevices s)" by blast
    from pool [OF x(2)] obtain sn where sn: "sn \<in> set snaps" "s \<in> set (psSlices sn)" by blast
    then show "x \<in> set (poolDevices snaps)" using bk [OF sn] x
      by (auto simp: poolDevices_def intro!: bexI [of _ sn] bexI [of _ s])
  qed
  show "\<forall>s\<in>node_slices R n ss. int (length (newest ss (ResourcePoolIDFromSlice s))) = poolSliceCount (slicePool s)"
  proof
    fix s assume s: "s \<in> node_slices R n ss"
    then have p: "profilesForDriver R (sliceDriver s) \<noteq> []" by (simp add: node_slices_def)
    from pool [OF s] obtain sn where sn: "snapshot_of R ?sup (ResourcePoolIDFromSlice s) = Some sn"
      "int (length (psSlices sn)) = poolSliceCount (slicePool s)" by blast
    then have "psSlices sn = newest ?sup (ResourcePoolIDFromSlice s)" by (auto simp: snapshot_of_def split: if_splits)
    then show "int (length (newest ss (ResourcePoolIDFromSlice s))) = poolSliceCount (slicePool s)"
      using sn(2) newest_supported [OF p] by simp
  qed
qed

section \<open>Each device under its only profile\<close>

definition matches :: "cel_lib \<Rightarrow> DeviceIdentity \<Rightarrow> device \<Rightarrow> DeviceProfile \<Rightarrow> bool" where
  "matches L i d p \<longleftrightarrow> deviceMatches L (profSelector p) (celDevice i d) = Inr True"

lemma match_Inr:
  "matchDeviceProfile L i d ps m = Inr r \<Longrightarrow>
     (case m of None \<Rightarrow> filter (matches L i d) ps = (case r of None \<Rightarrow> [] | Some p \<Rightarrow> [p])
      | Some q \<Rightarrow> filter (matches L i d) ps = [] \<and> r = Some q)"
proof (induction ps arbitrary: m)
  case Nil
  then show ?case by (auto split: option.splits)
next
  case (Cons p ps)
  then obtain b where b: "deviceMatches L (profSelector p) (celDevice i d) = Inr b"
    and rest: "(if \<not> b then matchDeviceProfile L i d ps m
       else (case m of Some q \<Rightarrow> Inl (OverlappingDeviceProfiles i (profName q) (profName p))
         | None \<Rightarrow> matchDeviceProfile L i d ps (Some p))) = Inr r"
    by (auto simp: rbind_eq_Inr)
  have mb: "matches L i d p = b" using b by (simp add: matches_def)
  show ?case
  proof (cases b)
    case True
    then have m: "m = None" "matchDeviceProfile L i d ps (Some p) = Inr r" using rest by (auto split: option.splits)
    show ?thesis using Cons.IH [OF m(2)] True m(1) by (simp add: mb)
  next
    case False
    then show ?thesis using Cons.IH [of m] rest mb by (cases m) auto
  qed
qed

definition hit :: "cel_lib \<Rightarrow> DeviceProfile list \<times> resource_slice \<times> device \<Rightarrow> (DeviceProfile \<times> DeviceIdentity \<times> device) list" where
  "hit L x = (case x of (ps, s, d) \<Rightarrow> map (\<lambda>p. (p, MakeDeviceID s d, d)) (filter (matches L (MakeDeviceID s d) d) ps))"

definition add_hits :: "cel_lib \<Rightarrow> (DeviceProfile \<times> DeviceIdentity \<times> device) list \<Rightarrow> inventory_acc \<Rightarrow> inventory_acc" where
  "add_hits L = fold (\<lambda>(p, i, d). addMatched L i d p)"

abbreviation hits :: "cel_lib \<Rightarrow> (DeviceProfile list \<times> resource_slice \<times> device) list \<Rightarrow> (DeviceProfile \<times> DeviceIdentity \<times> device) list" where
  "hits L xs \<equiv> concat (map (hit L) xs)"

abbreviation hit_id :: "DeviceProfile \<times> DeviceIdentity \<times> device \<Rightarrow> DeviceIdentity" where
  "hit_id h \<equiv> fst (snd h)"

lemma classify_Inr:
  "classifyDevices L xs acc = Inr acc' \<Longrightarrow>
     acc' = add_hits L (hits L xs) acc \<and> distinct (map hit_id (hits L xs)) \<and>
     set (map hit_id (hits L xs)) \<inter> set (seenIDs acc) = {}"
proof (induction xs arbitrary: acc)
  case (Cons x xs)
  obtain ps s d where x: "x = (ps, s, d)" by (cases x) auto
  let ?i = "MakeDeviceID s d"
  from Cons.prems obtain r where m: "matchDeviceProfile L ?i d ps None = Inr r"
    and rest: "(case r of None \<Rightarrow> classifyDevices L xs acc
        | Some p \<Rightarrow> if ?i \<in> set (seenIDs acc) then Inl (DraErr ''duplicate device'')
            else classifyDevices L xs (addMatched L ?i d p acc)) = Inr acc'"
    by (auto simp: x Let_def rbind_eq_Inr)
  have h: "hit L x = (case r of None \<Rightarrow> [] | Some p \<Rightarrow> [(p, ?i, d)])"
    using match_Inr [OF m] by (simp add: hit_def x split: option.splits)
  show ?case
  proof (cases r)
    case None
    then show ?thesis using Cons.IH [of acc] rest h by simp
  next
    case (Some p)
    then have new: "?i \<notin> set (seenIDs acc)" and more: "classifyDevices L xs (addMatched L ?i d p acc) = Inr acc'"
      using rest by (auto split: if_splits)
    have s: "set (seenIDs (addMatched L ?i d p acc)) = insert ?i (set (seenIDs acc))" by (simp add: addMatched_def Let_def)
    show ?thesis using Cons.IH [OF more] new h Some unfolding s by (simp add: add_hits_def)
  qed
qed (simp add: add_hits_def)

lemma add_hits_snoc: "add_hits L (hs @ [(p, i, d)]) acc = addMatched L i d p (add_hits L hs acc)"
  by (simp add: add_hits_def)

lemma hits_devices: "get_or [] (devicesByProfile (add_hits L hs empty_inventory)) n = map hit_id (filter (\<lambda>h. profName (fst h) = n) hs)"
proof (induction hs rule: rev_induct)
  case (snoc h hs)
  then show ?case by (cases h) (auto simp: add_hits_snoc addMatched_def Let_def)
qed (simp add: add_hits_def empty_inventory_def get_or_def)

lemma hits_dom: "fst ` set (devicesByProfile (add_hits L hs empty_inventory)) = (\<lambda>h. profName (fst h)) ` set hs"
proof (induction hs rule: rev_induct)
  case (snoc h hs)
  then show ?case by (cases h) (auto simp: add_hits_snoc addMatched_def Let_def update_keys dom_update)
qed (simp add: add_hits_def empty_inventory_def)

lemma hits_distinct: "distinct (map fst (devicesByProfile (add_hits L hs empty_inventory)))"
proof (induction hs rule: rev_induct)
  case (snoc h hs)
  then show ?case by (cases h) (simp add: add_hits_snoc addMatched_def Let_def distinct_update)
qed (simp add: add_hits_def empty_inventory_def)

lemma hits_profile:
  assumes "inj_on profName (fst ` set hs)" "(p, i, d) \<in> set hs"
  shows "map_of (profilesByName (add_hits L hs empty_inventory)) (profName p) = Some p"
  using assms
proof (induction hs rule: rev_induct)
  case (snoc h hs)
  obtain q j e where h: "h = (q, j, e)" by (cases h) auto
  have inj: "inj_on profName (fst ` set hs)" using snoc.prems(1) by (rule inj_on_subset) auto
  show ?case
  proof (cases "profName p = profName q")
    case True
    then have "p = q" using snoc.prems by (auto simp: h inj_on_def)
    then show ?thesis by (simp add: h add_hits_snoc addMatched_def Let_def)
  next
    case False
    then have "(p, i, d) \<in> set hs" using snoc.prems(2) h by auto
    then show ?thesis using snoc.IH [OF inj] False by (simp add: h add_hits_snoc addMatched_def Let_def)
  qed
qed simp

lemma hits_numa:
  assumes "distinct (map hit_id hs)"
  shows "map_of (numaNodesOf (add_hits L hs empty_inventory)) x = Some ns \<longleftrightarrow>
     (\<exists>p d. (p, x, d) \<in> set hs \<and> ns = deviceNUMANodes L d \<and> ns \<noteq> [])"
  using assms
proof (induction hs arbitrary: ns rule: rev_induct)
  case (snoc h hs)
  obtain q j e where h: "h = (q, j, e)" by (cases h) auto
  have IH: "map_of (numaNodesOf (add_hits L hs empty_inventory)) x = Some ns \<longleftrightarrow>
     (\<exists>p d. (p, x, d) \<in> set hs \<and> ns = deviceNUMANodes L d \<and> ns \<noteq> [])" for ns
    using snoc by simp
  have j: "\<forall>p d. (p, j, d) \<notin> set hs" using snoc.prems h by force
  show ?case
  proof (cases "x = j")
    case True
    have "map_of (numaNodesOf (add_hits L hs empty_inventory)) j \<noteq> Some ns" for ns using IH True j by simp
    then show ?thesis using True j by (auto simp: h add_hits_snoc addMatched_def Let_def)
  next
    case False
    then show ?thesis using IH by (auto simp: h add_hits_snoc addMatched_def Let_def)
  qed
qed (simp add: add_hits_def empty_inventory_def)

section \<open>The inventory is exact\<close>

lemma device_order_inj: "inj device_order"
  by (auto simp: inj_def device_order_def)

lemma sort_strict: "inj f \<Longrightarrow> distinct xs \<Longrightarrow> sorted_wrt (<) (map f (sort_key f xs))"
  using inj_on_subset [of f UNIV "set xs"] by (simp add: strict_sorted_iff distinct_map)

lemma collect_numa: "map_of (fold (\<lambda>dev m. case map_of N dev of Some nodes \<Rightarrow> AList.update dev nodes m | None \<Rightarrow> m) xs m0) x =
    (if x \<in> set xs \<and> map_of N x \<noteq> None then map_of N x else map_of m0 x)"
  by (induction xs arbitrary: m0) (auto split: option.split)

lemma hits_set:
  assumes "NewRegistry L S Lb ps = Inr R" "selectResourcePoolSnapshots R n ss = Inr snaps"
  shows "(p, x, d) \<in> set (hits L (poolDevices snaps)) \<longleftrightarrow>
     (\<exists>s\<in>node_slices R n ss. d \<in> set (sliceDevices s) \<and> x = MakeDeviceID s d \<and> p \<in> set ps \<and> profDriver p = sliceDriver s \<and>
        matches L x d p)"
proof -
  have "(p, x, d) \<in> set (hits L (poolDevices snaps)) \<longleftrightarrow> (\<exists>y\<in>set (poolDevices snaps). (p, x, d) \<in> set (hit L y))" by simp
  also have "\<dots> \<longleftrightarrow> (\<exists>s\<in>node_slices R n ss. d \<in> set (sliceDevices s) \<and> x = MakeDeviceID s d \<and>
      p \<in> set (profilesForDriver R (sliceDriver s)) \<and> matches L x d p)"
    unfolding select_spec(1) [OF assms(2)] by (auto simp: hit_def)
  finally show ?thesis by (auto simp: registry_profiles [OF assms(1)])
qed

lemma BuildNodeInventory_Inr:
  assumes "BuildNodeInventory L (Some R) (Some n) ss = Inr nv"
  obtains snaps hs where "selectResourcePoolSnapshots R n ss = Inr snaps" "hs = hits L (poolDevices snaps)"
    "distinct (map hit_id hs)" "niNode nv = n"
    "niProfiles nv = sortedProfileInventories (add_hits L hs empty_inventory)"
proof -
  from assms obtain snaps acc where s: "selectResourcePoolSnapshots R n ss = Inr snaps"
    and c: "classifyDevices L (poolDevices snaps) empty_inventory = Inr acc"
    and nv: "nv = \<lparr>niNode = n, niProfiles = sortedProfileInventories acc\<rparr>"
    by (auto simp: BuildNodeInventory_def rbind_eq_Inr)
  from classify_Inr [OF c] nv show ?thesis by (intro that [OF s refl]) simp_all
qed

text \<open>One profile of the inventory, in terms of the devices that matched.\<close>

lemma profile_inventory_of:
  fixes L :: cel_lib
  assumes hs: "distinct (map hit_id hs)" and inj: "inj_on profName (fst ` set hs)" and h: "(p, i, d) \<in> set hs"
  defines "pv \<equiv> profileInventory (add_hits L hs empty_inventory) (profName p)"
  shows "piProfile pv = p" "set (piDevices pv) = {x. \<exists>d. (p, x, d) \<in> set hs}"
    "sorted_wrt (<) (map device_order (piDevices pv))"
    "(p, x, e) \<in> set hs \<Longrightarrow> map_of (piNUMANodes pv) x = (if deviceNUMANodes L e = [] then None else Some (deviceNUMANodes L e))"
proof -
  let ?acc = "add_hits L hs empty_inventory"
  show "piProfile pv = p"
    using hits_profile [OF inj h] by (simp add: pv_def profileInventory_def Let_def get_or_def)
  have dev: "piDevices pv = sort_key device_order (map hit_id (filter (\<lambda>h. profName (fst h) = profName p) hs))"
    by (simp add: pv_def profileInventory_def Let_def hits_devices)
  have same: "q = p" if "(q, x, e) \<in> set hs" "profName q = profName p" for q x e
    using inj that h by (force simp: inj_on_def)
  show devs: "set (piDevices pv) = {x. \<exists>d. (p, x, d) \<in> set hs}"
    unfolding dev using same by force
  have "distinct (map hit_id (filter (\<lambda>h. profName (fst h) = profName p) hs))"
    using hs by (simp add: distinct_map_filter)
  then show "sorted_wrt (<) (map device_order (piDevices pv))" unfolding dev by (rule sort_strict [OF device_order_inj])
  assume x: "(p, x, e) \<in> set hs"
  have only: "d' = e" if "(q, x, d') \<in> set hs" for q d'
    using hs that x by (auto simp: distinct_map inj_on_def) force
  have x': "x \<in> set (piDevices pv)" unfolding devs using x by blast
  have "piNUMANodes pv = fold (\<lambda>dev m. case map_of (numaNodesOf ?acc) dev of
         Some nodes \<Rightarrow> AList.update dev nodes m | None \<Rightarrow> m) (piDevices pv) []"
    by (simp add: pv_def profileInventory_def Let_def)
  then have "map_of (piNUMANodes pv) x = map_of (numaNodesOf ?acc) x"
    using x' by (simp add: collect_numa)
  also have "\<dots> = (if deviceNUMANodes L e = [] then None else Some (deviceNUMANodes L e))"
  proof (cases "deviceNUMANodes L e = []")
    case True
    have "map_of (numaNodesOf ?acc) x \<noteq> Some ns" for ns
    proof
      assume "map_of (numaNodesOf ?acc) x = Some ns"
      then obtain q d' where "(q, x, d') \<in> set hs" "ns = deviceNUMANodes L d'" "ns \<noteq> []"
        unfolding hits_numa [OF hs] by blast
      then show False using only True by blast
    qed
    then show ?thesis using True by (cases "map_of (numaNodesOf ?acc) x") auto
  next
    case False
    then have "map_of (numaNodesOf ?acc) x = Some (deviceNUMANodes L e)"
      unfolding hits_numa [OF hs] using x by blast
    then show ?thesis using False by simp
  qed
  finally show "map_of (piNUMANodes pv) x = (if deviceNUMANodes L e = [] then None else Some (deviceNUMANodes L e))" .
qed

lemma inventories_of:
  fixes L :: cel_lib
  assumes hs: "distinct (map hit_id hs)" and inj: "inj_on profName (fst ` set hs)"
  defines "invs \<equiv> sortedProfileInventories (add_hits L hs empty_inventory)"
  shows "sorted_wrt (<) (map (profName \<circ> piProfile) invs)"
    "v \<in> set invs \<longleftrightarrow> (\<exists>h\<in>set hs. v = profileInventory (add_hits L hs empty_inventory) (profName (fst h)))"
proof -
  let ?acc = "add_hits L hs empty_inventory"
  have keys: "set (sort (map fst (devicesByProfile ?acc))) = (\<lambda>h. profName (fst h)) ` set hs"
    using hits_dom [of L hs] by simp
  show m: "v \<in> set invs \<longleftrightarrow> (\<exists>h\<in>set hs. v = profileInventory ?acc (profName (fst h)))"
    unfolding invs_def sortedProfileInventories_def using keys by auto
  have "profName (piProfile (profileInventory ?acc n)) = n" if "n \<in> set (sort (map fst (devicesByProfile ?acc)))" for n
  proof -
    from that keys obtain p i d where "(p, i, d) \<in> set hs" "n = profName p" by force
    then show ?thesis using profile_inventory_of(1) [OF hs inj] by simp
  qed
  then have names: "map (profName \<circ> piProfile) invs = sort (map fst (devicesByProfile ?acc))"
    unfolding invs_def sortedProfileInventories_def map_map by (intro map_idI) simp
  show "sorted_wrt (<) (map (profName \<circ> piProfile) invs)"
    unfolding names using hits_distinct [of L hs] by (simp add: strict_sorted_iff)
qed

text \<open>
  C34.  The DRA inventory of a node is exact.  With a registry built from valid profiles, a
  successful BuildNodeInventory lists a device under a profile exactly when some resource slice
  of the newest generation of its pool names the node and publishes the device, the profile is
  for the driver and its selector matches the device.  No device is in two profiles; every pool
  that contributes is complete; the profiles come in strictly ascending name order, each with at
  least one device and its devices in strictly ascending order of driver, pool and name; and the
  NUMA nodes recorded for a device are those that its slice publishes.
\<close>

theorem node_inventory_exact:
  assumes reg: "NewRegistry L isSubdomain isLabel ps = Inr R"
    and built: "BuildNodeInventory L (Some R) (Some n) ss = Inr nv"
  shows "niNode nv = n \<and> sorted_wrt (<) (map (profName \<circ> piProfile) (niProfiles nv)) \<and>
     (\<forall>v\<in>set (niProfiles nv). piDevices v \<noteq> [] \<and> sorted_wrt (<) (map device_order (piDevices v))) \<and>
     (\<forall>p x. (\<exists>v\<in>set (niProfiles nv). piProfile v = p \<and> x \<in> set (piDevices v)) \<longleftrightarrow>
        (\<exists>s\<in>node_slices R n ss. \<exists>d\<in>set (sliceDevices s). x = MakeDeviceID s d \<and> p \<in> set ps \<and>
           profDriver p = sliceDriver s \<and> matches L x d p)) \<and>
     (\<forall>v\<in>set (niProfiles nv). \<forall>w\<in>set (niProfiles nv). \<forall>x. x \<in> set (piDevices v) \<and> x \<in> set (piDevices w) \<longrightarrow> v = w) \<and>
     (\<forall>v\<in>set (niProfiles nv). \<forall>s\<in>node_slices R n ss. \<forall>d\<in>set (sliceDevices s).
        MakeDeviceID s d \<in> set (piDevices v) \<and> matches L (MakeDeviceID s d) d (piProfile v) \<longrightarrow>
        map_of (piNUMANodes v) (MakeDeviceID s d) = (if deviceNUMANodes L d = [] then None else Some (deviceNUMANodes L d))) \<and>
     (\<forall>s\<in>node_slices R n ss. int (length (newest ss (ResourcePoolIDFromSlice s))) = poolSliceCount (slicePool s))"
proof -
  obtain snaps hs where sel: "selectResourcePoolSnapshots R n ss = Inr snaps" and hsd: "hs = hits L (poolDevices snaps)"
    and hs: "distinct (map hit_id hs)" and nm: "niNode nv = n"
    and nv: "niProfiles nv = sortedProfileInventories (add_hits L hs empty_inventory)"
    by (rule BuildNodeInventory_Inr [OF built])
  note mem = hits_set [OF reg sel, folded hsd]
  have inj: "inj_on profName (fst ` set hs)"
    using registry_names [OF reg] by (rule inj_on_subset) (auto simp: mem)
  note invs = inventories_of [OF hs inj, where L = L, folded nv]
  have each: "\<exists>p. piProfile v = p \<and> p \<in> set ps \<and> piDevices v \<noteq> [] \<and> set (piDevices v) = {x. \<exists>d. (p, x, d) \<in> set hs} \<and>
      sorted_wrt (<) (map device_order (piDevices v)) \<and> v = profileInventory (add_hits L hs empty_inventory) (profName p)"
    if v: "v \<in> set (niProfiles nv)" for v
  proof -
    from v invs(2) obtain p i d where h: "(p, i, d) \<in> set hs"
      and v: "v = profileInventory (add_hits L hs empty_inventory) (profName p)" by force
    note pio = profile_inventory_of [OF hs inj h, where L = L, folded v]
    from pio(2) h have "piDevices v \<noteq> []" by auto
    then show ?thesis using pio h v mem by auto
  qed
  have member: "(\<exists>v\<in>set (niProfiles nv). piProfile v = p \<and> x \<in> set (piDevices v)) \<longleftrightarrow> (\<exists>d. (p, x, d) \<in> set hs)" for p x
  proof
    assume "\<exists>v\<in>set (niProfiles nv). piProfile v = p \<and> x \<in> set (piDevices v)"
    then show "\<exists>d. (p, x, d) \<in> set hs" using each by blast
  next
    assume "\<exists>d. (p, x, d) \<in> set hs"
    then obtain d where h: "(p, x, d) \<in> set hs" ..
    let ?v = "profileInventory (add_hits L hs empty_inventory) (profName p)"
    have "?v \<in> set (niProfiles nv)" unfolding invs(2) using h by force
    then show "\<exists>v\<in>set (niProfiles nv). piProfile v = p \<and> x \<in> set (piDevices v)"
      using profile_inventory_of(1,2) [OF hs inj h, where L = L] h by blast
  qed
  have one: "v = w" if "v \<in> set (niProfiles nv)" "w \<in> set (niProfiles nv)" "x \<in> set (piDevices v)" "x \<in> set (piDevices w)" for v w x
  proof -
    from each [OF that(1)] that(3) obtain d where d: "(piProfile v, x, d) \<in> set hs" by auto
    from each [OF that(2)] that(4) obtain e where e: "(piProfile w, x, e) \<in> set hs" by auto
    have "piProfile v = piProfile w" using hs d e by (auto simp: distinct_map inj_on_def) force
    then show ?thesis using each [OF that(1)] each [OF that(2)] by metis
  qed
  have numa: "map_of (piNUMANodes v) (MakeDeviceID s d) = (if deviceNUMANodes L d = [] then None else Some (deviceNUMANodes L d))"
    if v: "v \<in> set (niProfiles nv)" and s: "s \<in> node_slices R n ss" "d \<in> set (sliceDevices s)"
      and x: "MakeDeviceID s d \<in> set (piDevices v)" "matches L (MakeDeviceID s d) d (piProfile v)" for v s d
  proof -
    from each [OF v] x(1) obtain e where e: "(piProfile v, MakeDeviceID s d, e) \<in> set hs" by auto
    then have "piProfile v \<in> set ps" "profDriver (piProfile v) = sliceDriver s" using mem by (auto simp: MakeDeviceID_def)
    then have h: "(piProfile v, MakeDeviceID s d, d) \<in> set hs" unfolding mem using s x by blast
    from each [OF v] have "v = profileInventory (add_hits L hs empty_inventory) (profName (piProfile v))" by simp
    then show ?thesis using profile_inventory_of(4) [OF hs inj h h, where L = L] by simp
  qed
  show ?thesis
  proof (intro conjI)
    show "\<forall>p x. (\<exists>v\<in>set (niProfiles nv). piProfile v = p \<and> x \<in> set (piDevices v)) \<longleftrightarrow>
        (\<exists>s\<in>node_slices R n ss. \<exists>d\<in>set (sliceDevices s). x = MakeDeviceID s d \<and> p \<in> set ps \<and>
           profDriver p = sliceDriver s \<and> matches L x d p)"
      unfolding member mem by blast
    show "\<forall>v\<in>set (niProfiles nv). \<forall>s\<in>node_slices R n ss. \<forall>d\<in>set (sliceDevices s).
        MakeDeviceID s d \<in> set (piDevices v) \<and> matches L (MakeDeviceID s d) d (piProfile v) \<longrightarrow>
        map_of (piNUMANodes v) (MakeDeviceID s d) = (if deviceNUMANodes L d = [] then None else Some (deviceNUMANodes L d))"
      using numa by blast
  qed (use nm invs(1) each one select_spec(2) [OF sel] in \<open>blast+\<close>)
qed

definition cpu_slice :: resource_slice where
  "cpu_slice = \<lparr>sliceName = ''rs'', sliceDriver = ''dra.cpu'', sliceNodeName = Some ''n'', hasNodeSelector = False,
     sliceAllNodes = None, perDeviceNodeSelection = None,
     slicePool = \<lparr>poolName = ''p'', poolGeneration = 1, poolSliceCount = 1\<rparr>,
     sliceDevices = [\<lparr>deviceName = ''d0'', deviceAttributes = [], deviceCapacity = [], allowMultipleAllocations = None\<rparr>]\<rparr>"

definition cpu_registry :: Registry where
  "cpu_registry = \<lparr>byName = [(''cpu'', default_cpu)], bySelector = [(profSelector default_cpu, default_cpu)],
     byDriver = [(''dra.cpu'', [default_cpu])], byIndexedGRESType = []\<rparr>"

lemma cpu_registry_new: "NewRegistry model_cel (\<lambda>_. True) (\<lambda>_. True) [default_cpu] = Inr cpu_registry"
  by (simp add: NewRegistry_def maxDeviceProfiles_def registerProfile_def empty_registry_def cpu_registry_def default_cpu_def
      model_cel_def deviceProfileNamePattern_def is_alnum_def Let_def DriverNameMaxLength_def CELSelectorExpressionMaxLength_def
      CELSelectorExpressionMaxCost_def dquote_def validateDeviceProfileSelector_def checkDriver_def deviceDriverConstraint_def
      isDeviceDriverReference_def stringLiteral_def get_or_def)

lemma cpu_inventory: "BuildNodeInventory model_cel (Some cpu_registry) (Some ''n'') [cpu_slice] = Inr
    \<lparr>niNode = ''n'', niProfiles = [\<lparr>piProfile = default_cpu,
       piDevices = [\<lparr>idDriver = ''dra.cpu'', idPool = ''p'', idDevice = ''d0''\<rparr>], piNUMANodes = []\<rparr>]\<rparr>"
proof -
  have drv: "profilesForDriver cpu_registry ''dra.cpu'' = [default_cpu]" by (simp add: profilesForDriver_def cpu_registry_def get_or_def)
  have sel: "selectResourcePoolSnapshots cpu_registry ''n'' [cpu_slice] = Inr [\<lparr>psID = \<lparr>pidDriver = ''dra.cpu'', pidPool = ''p''\<rparr>,
      psGeneration = 1, psSliceCount = 1, psProfiles = [default_cpu], psSlices = [cpu_slice]\<rparr>]"
    using drv by (simp add: selectResourcePoolSnapshots_def completeResourcePoolSnapshots_def driverProfiles_def
        addResourceSliceToSnapshot_def ResourcePoolIDFromSlice_def ValidateResourceSliceNode_def cpu_slice_def Let_def)
  have "classifyDevices model_cel (poolDevices [\<lparr>psID = \<lparr>pidDriver = ''dra.cpu'', pidPool = ''p''\<rparr>,
      psGeneration = 1, psSliceCount = 1, psProfiles = [default_cpu], psSlices = [cpu_slice]\<rparr>]) empty_inventory = Inr
      \<lparr>profilesByName = [(''cpu'', default_cpu)], devicesByProfile = [(''cpu'', [\<lparr>idDriver = ''dra.cpu'', idPool = ''p'', idDevice = ''d0''\<rparr>])],
       numaNodesOf = [], seenIDs = [\<lparr>idDriver = ''dra.cpu'', idPool = ''p'', idDevice = ''d0''\<rparr>]\<rparr>"
    by (simp add: poolDevices_def cpu_slice_def MakeDeviceID_def model_cel_def celDevice_def addMatched_def deviceNUMANodes_def
        empty_inventory_def default_cpu_def get_or_def Let_def)
  then show ?thesis by (simp add: BuildNodeInventory_def sel sortedProfileInventories_def profileInventory_def get_or_def)
qed

theorem node_inventory_exact_witness:
  "\<exists>v\<in>set [\<lparr>piProfile = default_cpu,
       piDevices = [\<lparr>idDriver = ''dra.cpu'', idPool = ''p'', idDevice = ''d0''\<rparr>], piNUMANodes = []\<rparr>].
     piDevices v \<noteq> [] \<and> (\<exists>s\<in>node_slices cpu_registry ''n'' [cpu_slice]. \<exists>d\<in>set (sliceDevices s).
       hd (piDevices v) = MakeDeviceID s d \<and> matches model_cel (MakeDeviceID s d) d default_cpu)"
proof -
  let ?x = "\<lparr>idDriver = ''dra.cpu'', idPool = ''p'', idDevice = ''d0''\<rparr>"
  let ?nv = "\<lparr>niNode = ''n'', niProfiles = [\<lparr>piProfile = default_cpu, piDevices = [?x], piNUMANodes = []\<rparr>]\<rparr>"
  have "(\<exists>v\<in>set (niProfiles ?nv). piProfile v = default_cpu \<and> ?x \<in> set (piDevices v)) \<longleftrightarrow>
        (\<exists>s\<in>node_slices cpu_registry ''n'' [cpu_slice]. \<exists>d\<in>set (sliceDevices s). ?x = MakeDeviceID s d \<and> default_cpu \<in> set [default_cpu] \<and>
           profDriver default_cpu = sliceDriver s \<and> matches model_cel ?x d default_cpu)"
    using node_inventory_exact [OF cpu_registry_new cpu_inventory] by blast
  then obtain s d where "s \<in> node_slices cpu_registry ''n'' [cpu_slice]" "d \<in> set (sliceDevices s)" "?x = MakeDeviceID s d"
      "matches model_cel ?x d default_cpu" by auto
  then show ?thesis by (auto intro!: bexI [of _ s] bexI [of _ d])
qed

end
