(* ===== verification/Node_Api.thy ===== *)
theory Node_Api
  imports Node_Allocation Dra_Inventory Effects Duration_Store Kube_Types
begin

text \<open>
  The boundary of the node controller: Slurm node records, Kubernetes nodes, error values, the
  calls that leave the process and the events that record them.  As for the registration
  controller, each call is an operation of a record that every handler takes as a parameter, with
  no assumption on what it returns.  The requeue delays of the package live next to the outside
  world, in the model of the duration store.  \<open>node_lib\<close> holds the pure functions of packages
  outside the repository: JSON, CEL, CPU lists, name validation, and the taint helpers of
  Kubernetes.
\<close>

section \<open>Errors\<close>

datatype nerr = SlurmNodeNotFound | KubeNotFound | NErr string | NDra dra_err
  | IncompatibleGRES string string string "string list" | NWrapped string nerr | NJoined "nerr list"

fun nerr_any :: "(nerr \<Rightarrow> bool) \<Rightarrow> nerr \<Rightarrow> bool" where
  "nerr_any P (NJoined es) = (P (NJoined es) \<or> list_ex (nerr_any P) es)"
| "nerr_any P (NWrapped s e) = (P (NWrapped s e) \<or> nerr_any P e)"
| "nerr_any P e = P e"

definition nerr_is :: "nerr \<Rightarrow> nerr \<Rightarrow> bool" where
  "nerr_is target e = nerr_any (\<lambda>x. x = target) e"

fun is_incompatible :: "nerr \<Rightarrow> bool" where
  "is_incompatible (IncompatibleGRES n c r g) = True"
| "is_incompatible e = False"

text \<open>\<open>errors.As\<close> for the two error types that are looked up, and \<open>errors.Join\<close>, which drops nils.\<close>

definition as_incompatible :: "nerr \<Rightarrow> bool" where
  "as_incompatible e = nerr_any is_incompatible e"

fun is_overlap :: "nerr \<Rightarrow> bool" where
  "is_overlap (NDra (OverlappingDeviceProfiles i a b)) = True"
| "is_overlap e = False"

definition njoin :: "(nerr + unit) list \<Rightarrow> nerr + unit" where
  "njoin rs = (let es = concat (map (case_sum (\<lambda>e. [e]) (\<lambda>_. [])) rs) in if es = [] then Inr () else Inl (NJoined es))"

definition nlift :: "dra_err + 'a \<Rightarrow> nerr + 'a" where
  "nlift r = (case r of Inl e \<Rightarrow> Inl (NDra e) | Inr x \<Rightarrow> Inr x)"

lemma nlift_simps [simp]: "nlift (Inl e) = Inl (NDra e)" "nlift (Inr x) = Inr x"
  by (simp_all add: nlift_def)

lemma njoin_Inr: "njoin rs = Inr u \<longleftrightarrow> (\<forall>r\<in>set rs. r = Inr ())"
  by (induction rs) (auto simp: njoin_def Let_def split: sum.splits if_splits)

section \<open>Objects\<close>

datatype node_state = IDLE | ALLOCATED | MIXED | COMPLETING | DRAIN | UNDRAIN | EXTERNAL | OtherNodeState string

record slurm_node =
  snKey :: string
  snState :: "node_state list"
  snReason :: "string option"
  snGres :: "string option"
  snExtra :: "string option"
  snTopology :: "string option"
  snFeatures :: "string list option"
  snActiveFeatures :: "string list option"
  snPartitions :: "string list option"
  snCpus :: "int option"
  snSockets :: "int option"
  snCores :: "int option"
  snThreads :: "int option"
  snRealMemory :: "int option"
  snAllocCpus :: "int option"

record node_update =
  upState :: "node_state list option"
  upReason :: "string option"
  upFeatures :: "string list option"
  upFeaturesAct :: "string list option"
  upExtra :: "string option"
  upTopology :: "string option"

definition no_update :: node_update where
  "no_update = \<lparr>upState = None, upReason = None, upFeatures = None, upFeaturesAct = None, upExtra = None, upTopology = None\<rparr>"

record taint =
  taintKey :: string
  taintValue :: string
  taintEffect :: string

record node_condition =
  ncType :: string
  ncStatus :: string
  ncReason :: string
  ncMessage :: string
  ncHeartbeat :: int
  ncTransition :: int

record kube_node =
  knName :: string
  knLabels :: strmap
  knAnnotations :: strmap
  knUnschedulable :: bool
  knTaints :: "taint list"
  knConditions :: "node_condition list"
  knAddresses :: "(string \<times> string) list"
  knCPU :: int
  knMemory :: int

section \<open>Parameters\<close>

record node_lib =
  libCel :: cel_lib
  libJson :: json_codec
  libParse :: "string \<Rightarrow> string + cpuset"
  libShow :: "cpuset \<Rightarrow> string"
  libHash :: "topology \<Rightarrow> dra_err + string"
  libLabel :: "string \<Rightarrow> bool"
  AddOrUpdateTaint :: "taint list \<Rightarrow> taint \<Rightarrow> nerr + taint list \<times> bool"
  DeleteTaint :: "taint list \<Rightarrow> taint \<Rightarrow> taint list \<times> bool"
  errText :: "nerr \<Rightarrow> string"

datatype node_read = FromCache | Refreshed | Direct

datatype slice_index = AllSlices | SlicesOfNode string | SlicesOfPool string

datatype nevent =
    NGet node_read string "nerr + slurm_node"
  | NPartition string "nerr + unit"
  | NUpdate slurm_node node_update "nerr + unit" slurm_node
  | NCreate string string "nerr + unit"
  | NDelete string "nerr + unit"
  | NList node_read "nerr + string list"
  | KGet string "nerr + kube_node"
  | KPatch kube_node kube_node "nerr + unit"
  | KPatchStatus kube_node kube_node "nerr + unit"
  | KNodes "string option" "nerr + kube_node list"
  | KSlices slice_index "nerr + resource_slice list"
  | KEvent string string
  | KNow int
  | DPush string int
  | DPop string int

record 'w ncluster =
  nodeGet :: "node_read \<Rightarrow> string \<Rightarrow> 'w \<Rightarrow> (nerr + slurm_node) \<times> 'w"
  partitionGet :: "string \<Rightarrow> 'w \<Rightarrow> (nerr + unit) \<times> 'w"
  nodeUpdate :: "slurm_node \<Rightarrow> node_update \<Rightarrow> 'w \<Rightarrow> ((nerr + unit) \<times> slurm_node) \<times> 'w"
  nodeCreate :: "string \<Rightarrow> string \<Rightarrow> 'w \<Rightarrow> (nerr + unit) \<times> 'w"
  nodeDelete :: "string \<Rightarrow> 'w \<Rightarrow> (nerr + unit) \<times> 'w"
  nodeNames :: "node_read \<Rightarrow> 'w \<Rightarrow> (nerr + string list) \<times> 'w"
  kubeGet :: "string \<Rightarrow> 'w \<Rightarrow> (nerr + kube_node) \<times> 'w"
  kubePatch :: "kube_node \<Rightarrow> kube_node \<Rightarrow> 'w \<Rightarrow> (nerr + unit) \<times> 'w"
  kubePatchStatus :: "kube_node \<Rightarrow> kube_node \<Rightarrow> 'w \<Rightarrow> (nerr + unit) \<times> 'w"
  kubeNodes :: "string option \<Rightarrow> 'w \<Rightarrow> (nerr + kube_node list) \<times> 'w"
  kubeSlices :: "slice_index \<Rightarrow> 'w \<Rightarrow> (nerr + resource_slice list) \<times> 'w"
  kubeEvent :: "string \<Rightarrow> string \<Rightarrow> 'w \<Rightarrow> unit \<times> 'w"
  kubeNow :: "'w \<Rightarrow> int \<times> 'w"

type_synonym 'w node_sys = "('w \<times> duration_store, nevent) sys"

type_synonym ('w, 'a) node_handler = "('w node_sys, 'a) state"

section \<open>Calls\<close>

definition outside :: "('w \<Rightarrow> 'r \<times> 'w) \<Rightarrow> 'w \<times> duration_store \<Rightarrow> 'r \<times> ('w \<times> duration_store)" where
  "outside f ws = (case ws of (w, st) \<Rightarrow> case f w of (r, w') \<Rightarrow> (r, (w', st)))"

definition slurmNode :: "'w ncluster \<Rightarrow> node_read \<Rightarrow> string \<Rightarrow> ('w, nerr + slurm_node) node_handler" where
  "slurmNode C mode key = call (outside (nodeGet C mode key)) (NGet mode key)"

definition slurmPartition :: "'w ncluster \<Rightarrow> string \<Rightarrow> ('w, nerr + unit) node_handler" where
  "slurmPartition C key = call (outside (partitionGet C key)) (NPartition key)"

text \<open>An update may refresh the object it is given, so it returns the object next to its error.\<close>

definition slurmUpdate :: "'w ncluster \<Rightarrow> slurm_node \<Rightarrow> node_update \<Rightarrow> ('w, (nerr + unit) \<times> slurm_node) node_handler" where
  "slurmUpdate C n msg = call (outside (nodeUpdate C n msg)) (\<lambda>(r, n'). NUpdate n msg r n')"

definition slurmCreate :: "'w ncluster \<Rightarrow> string \<Rightarrow> string \<Rightarrow> ('w, nerr + unit) node_handler" where
  "slurmCreate C key conf = call (outside (nodeCreate C key conf)) (NCreate key conf)"

definition slurmRemove :: "'w ncluster \<Rightarrow> string \<Rightarrow> ('w, nerr + unit) node_handler" where
  "slurmRemove C key = call (outside (nodeDelete C key)) (NDelete key)"

definition slurmNames :: "'w ncluster \<Rightarrow> node_read \<Rightarrow> ('w, nerr + string list) node_handler" where
  "slurmNames C mode = call (outside (nodeNames C mode)) (NList mode)"

definition getKubeNode :: "'w ncluster \<Rightarrow> string \<Rightarrow> ('w, nerr + kube_node) node_handler" where
  "getKubeNode C n = call (outside (kubeGet C n)) (KGet n)"

definition patchKubeNode :: "'w ncluster \<Rightarrow> kube_node \<Rightarrow> kube_node \<Rightarrow> ('w, nerr + unit) node_handler" where
  "patchKubeNode C old new = call (outside (kubePatch C old new)) (KPatch old new)"

definition patchKubeStatus :: "'w ncluster \<Rightarrow> kube_node \<Rightarrow> kube_node \<Rightarrow> ('w, nerr + unit) node_handler" where
  "patchKubeStatus C old new = call (outside (kubePatchStatus C old new)) (KPatchStatus old new)"

definition listKubeNodes :: "'w ncluster \<Rightarrow> string option \<Rightarrow> ('w, nerr + kube_node list) node_handler" where
  "listKubeNodes C sel = call (outside (kubeNodes C sel)) (KNodes sel)"

definition listSlices :: "'w ncluster \<Rightarrow> slice_index \<Rightarrow> ('w, nerr + resource_slice list) node_handler" where
  "listSlices C sel = call (outside (kubeSlices C sel)) (KSlices sel)"

definition emitEvent :: "'w ncluster \<Rightarrow> string \<Rightarrow> string \<Rightarrow> ('w, unit) node_handler" where
  "emitEvent C n why = call (outside (kubeEvent C n why)) (\<lambda>_. KEvent n why)"

definition readClock :: "'w ncluster \<Rightarrow> ('w, int) node_handler" where
  "readClock C = call (outside (kubeNow C)) KNow"

definition pushDelay :: "string \<Rightarrow> int \<Rightarrow> ('w, unit) node_handler" where
  "pushDelay key d = call (\<lambda>(w, st). ((), (w, Push Greater key d st))) (\<lambda>_. DPush key d)"

definition popDelay :: "string \<Rightarrow> ('w, int) node_handler" where
  "popDelay key = call (\<lambda>(w, st). case Pop key st of (d, st') \<Rightarrow> (d, (w, st'))) (DPop key)"

lemmas node_calls = slurmNode_def slurmPartition_def slurmUpdate_def slurmCreate_def slurmRemove_def slurmNames_def
  getKubeNode_def patchKubeNode_def patchKubeStatus_def listKubeNodes_def listSlices_def emitEvent_def readClock_def
  pushDelay_def popDelay_def

section \<open>Handlers over the node trace\<close>

text \<open>A handler that logs only events allowed by \<open>P\<close> whatever was logged before.\<close>

lemma keeps_node_calls:
  "(\<And>past r. P past (NGet mode key r)) \<Longrightarrow> keeps (safe P) (slurmNode C mode key)"
  "(\<And>past r. P past (NPartition key r)) \<Longrightarrow> keeps (safe P) (slurmPartition C key)"
  "(\<And>past r. P past (NUpdate sn msg (fst r) (snd r))) \<Longrightarrow> keeps (safe P) (slurmUpdate C sn msg)"
  "(\<And>past r. P past (NList mode r)) \<Longrightarrow> keeps (safe P) (slurmNames C mode)"
  "(\<And>past r. P past (KGet n r)) \<Longrightarrow> keeps (safe P) (getKubeNode C n)"
  "(\<And>past r. P past (KPatch old new r)) \<Longrightarrow> keeps (safe P) (patchKubeNode C old new)"
  "(\<And>past r. P past (KPatchStatus old new r)) \<Longrightarrow> keeps (safe P) (patchKubeStatus C old new)"
  "(\<And>past r. P past (KNodes nsel r)) \<Longrightarrow> keeps (safe P) (listKubeNodes C nsel)"
  "(\<And>past r. P past (KSlices ssel r)) \<Longrightarrow> keeps (safe P) (listSlices C ssel)"
  "(\<And>past. P past (KEvent n why)) \<Longrightarrow> keeps (safe P) (emitEvent C n why)"
  "(\<And>past r. P past (KNow r)) \<Longrightarrow> keeps (safe P) (readClock C)"
  "(\<And>past. P past (DPush key d)) \<Longrightarrow> keeps (safe P) (pushDelay key d)"
  "(\<And>past r. P past (DPop key r)) \<Longrightarrow> keeps (safe P) (popDelay key)"
  by (auto simp: node_calls case_prod_beta intro!: keeps_call)

end
