(* ===== verification/Node_Index.thy ===== *)
theory Node_Index
  imports Node_Api
begin

text \<open>
  The lookups of \<open>internal/controller/node/utils\<close>: Slurm node names, the index functions and the
  list calls that use an index and fall back to a full list when the reader has none.  The lemmas
  state what the lookups return on a reader with the indexes and on a reader without them, for
  any stored nodes and slices.
\<close>

definition GetSlurmNodeName :: "kube_node \<Rightarrow> string" where
  "GetSlurmNodeName n = (case map_of (knLabels n) LabelSlurmNodeName of Some s \<Rightarrow> s | None \<Rightarrow> knName n)"

definition MakeNodeNameMap :: "kube_node list \<Rightarrow> strmap" where
  "MakeNodeNameMap ns = fold (\<lambda>n m. AList.update (GetSlurmNodeName n) (knName n) m) ns []"

section \<open>Index functions\<close>

definition IndexValueResourceSliceGlobal :: string where "IndexValueResourceSliceGlobal = ''*''"

definition IndexNodeBySlurmName :: "kube_node \<Rightarrow> string list" where
  "IndexNodeBySlurmName n = [GetSlurmNodeName n]"

definition IndexResourceSliceByNode :: "resource_slice \<Rightarrow> string list" where
  "IndexResourceSliceByNode s = (case ValidateResourceSliceNode s of
     Inr _ \<Rightarrow> [deref [] (sliceNodeName s)] | Inl _ \<Rightarrow> [IndexValueResourceSliceGlobal])"

definition IndexResourceSliceByPool :: "resource_slice \<Rightarrow> string list" where
  "IndexResourceSliceByPool s = [ResourcePoolID_String (ResourcePoolIDFromSlice s)]"

section \<open>Lookups\<close>

definition GetResourceSlicesForPool :: "'w ncluster \<Rightarrow> ResourcePoolID \<Rightarrow> ('w, nerr + resource_slice list) node_handler" where
  "GetResourceSlicesForPool C poolID = do {
     r \<leftarrow> listSlices C (SlicesOfPool (ResourcePoolID_String poolID));
     case r of
       Inr ss \<Rightarrow> ret (Inr ss)
     | Inl _ \<Rightarrow> do {
         r2 \<leftarrow> listSlices C AllSlices;
         case r2 of
           Inl e \<Rightarrow> ret (Inl e)
         | Inr ss \<Rightarrow> ret (Inr (filter (\<lambda>s. ResourcePoolIDFromSlice s = poolID) ss)) } }"

fun poolsLoop :: "'w ncluster \<Rightarrow> resource_slice list \<Rightarrow> ResourcePoolID list \<Rightarrow> resource_slice list \<Rightarrow>
    ('w, nerr + resource_slice list) node_handler" where
  "poolsLoop C [] seenPools out = ret (Inr out)"
| "poolsLoop C (s # ss) seenPools out =
     (if ResourcePoolIDFromSlice s \<in> set seenPools then poolsLoop C ss seenPools out
      else do {
        r \<leftarrow> GetResourceSlicesForPool C (ResourcePoolIDFromSlice s);
        case r of
          Inl e \<Rightarrow> ret (Inl e)
        | Inr ps \<Rightarrow> poolsLoop C ss (ResourcePoolIDFromSlice s # seenPools) (out @ ps) })"

definition GetResourceSlicesForNode :: "'w ncluster \<Rightarrow> string \<Rightarrow> ('w, nerr + resource_slice list) node_handler" where
  "GetResourceSlicesForNode C node_name = do {
     r \<leftarrow> listSlices C (SlicesOfNode node_name);
     case r of
       Inl _ \<Rightarrow> listSlices C AllSlices
     | Inr perNode \<Rightarrow> do {
         r2 \<leftarrow> listSlices C (SlicesOfNode IndexValueResourceSliceGlobal);
         case r2 of
           Inl e \<Rightarrow> ret (Inl e)
         | Inr global \<Rightarrow> poolsLoop C (perNode @ global) [] [] } }"

definition GetNodeNameForSlurmName :: "'w ncluster \<Rightarrow> string \<Rightarrow> ('w, nerr + string option) node_handler" where
  "GetNodeNameForSlurmName C slurmName = do {
     r \<leftarrow> listKubeNodes C (Some slurmName);
     case r of
       Inl _ \<Rightarrow> do {
         r2 \<leftarrow> listKubeNodes C None;
         case r2 of
           Inl e \<Rightarrow> ret (Inl e)
         | Inr ns \<Rightarrow> ret (Inr (map_of (MakeNodeNameMap ns) slurmName)) }
     | Inr ns \<Rightarrow> ret (Inr (if length ns = 0 then None else Some (knName (last ns)))) }"

section \<open>Readers\<close>

text \<open>
  What a list call promises: with the index, exactly the stored objects whose index function
  yields the requested value, in the order of the store; without it, an error for every
  indexed list.
\<close>

fun selects :: "slice_index \<Rightarrow> resource_slice \<Rightarrow> bool" where
  "selects AllSlices s = True"
| "selects (SlicesOfNode v) s = (v \<in> set (IndexResourceSliceByNode s))"
| "selects (SlicesOfPool v) s = (v \<in> set (IndexResourceSliceByPool s))"

definition node_selects :: "string option \<Rightarrow> kube_node \<Rightarrow> bool" where
  "node_selects sel n = (case sel of None \<Rightarrow> True | Some v \<Rightarrow> v \<in> set (IndexNodeBySlurmName n))"

definition indexed_reader :: "'w ncluster \<Rightarrow> kube_node list \<Rightarrow> resource_slice list \<Rightarrow> bool" where
  "indexed_reader C ns ss \<longleftrightarrow>
     (\<forall>sel w. fst (kubeNodes C sel w) = Inr (filter (node_selects sel) ns)) \<and>
     (\<forall>sel w. fst (kubeSlices C sel w) = Inr (filter (selects sel) ss))"

definition plain_reader :: "'w ncluster \<Rightarrow> kube_node list \<Rightarrow> resource_slice list \<Rightarrow> bool" where
  "plain_reader C ns ss \<longleftrightarrow>
     (\<forall>v w. \<exists>e. fst (kubeNodes C (Some v) w) = Inl e) \<and> (\<forall>w. fst (kubeNodes C None w) = Inr ns) \<and>
     (\<forall>sel w. sel \<noteq> AllSlices \<longrightarrow> (\<exists>e. fst (kubeSlices C sel w) = Inl e)) \<and> (\<forall>w. fst (kubeSlices C AllSlices w) = Inr ss)"

lemma wp_listSlices: "(\<And>w t. Q (fst (kubeSlices C sel w)) t) \<Longrightarrow> wp (listSlices C sel) Q s"
  by (auto simp: node_calls wp_call outside_def split: prod.splits) (metis fst_conv)

lemma wp_listKubeNodes: "(\<And>w t. Q (fst (kubeNodes C sel w)) t) \<Longrightarrow> wp (listKubeNodes C sel) Q s"
  by (auto simp: node_calls wp_call outside_def split: prod.splits) (metis fst_conv)

lemma MakeNodeNameMap_lookup:
  "map_of (MakeNodeNameMap ns) v = (let ms = filter (\<lambda>n. GetSlurmNodeName n = v) ns in
     if ms = [] then None else Some (knName (last ms)))"
proof (induction ns rule: rev_induct)
  case (snoc n ns)
  then show ?case by (auto simp: MakeNodeNameMap_def update_conv' Let_def)
qed (simp add: MakeNodeNameMap_def)

lemma GetNodeNameForSlurmName_reader:
  assumes "indexed_reader C ns ss \<or> plain_reader C ns ss"
  shows "wp (GetNodeNameForSlurmName C v) (\<lambda>r _. r = Inr (map_of (MakeNodeNameMap ns) v)) s"
  using assms
proof
  assume i: "indexed_reader C ns ss"
  have eq: "node_selects (Some v) = (\<lambda>n. GetSlurmNodeName n = v)"
    by (auto simp: node_selects_def IndexNodeBySlurmName_def fun_eq_iff)
  show ?thesis
    unfolding GetNodeNameForSlurmName_def wp_bind
    using i by (intro wp_listKubeNodes) (simp add: indexed_reader_def eq MakeNodeNameMap_lookup Let_def)
next
  assume p: "plain_reader C ns ss"
  show ?thesis
    unfolding GetNodeNameForSlurmName_def wp_bind
  proof (rule wp_listKubeNodes)
    fix w t
    obtain e where e: "fst (kubeNodes C (Some v) w) = Inl e" using p unfolding plain_reader_def by blast
    show "wp (case fst (kubeNodes C (Some v) w) of
        Inl _ \<Rightarrow> State_Monad.bind (listKubeNodes C None) (\<lambda>r2. case r2 of Inl e \<Rightarrow> ret (Inl e)
          | Inr ns \<Rightarrow> ret (Inr (map_of (MakeNodeNameMap ns) v)))
      | Inr ns \<Rightarrow> ret (Inr (if length ns = 0 then None else Some (knName (last ns)))))
      (\<lambda>r _. r = Inr (map_of (MakeNodeNameMap ns) v)) t"
      using p by (simp add: e wp_listKubeNodes plain_reader_def)
  qed
qed

lemma sep_inject:
  "c \<notin> set xs \<Longrightarrow> c \<notin> set xs' \<Longrightarrow> xs @ c # ys = xs' @ c # ys' \<longleftrightarrow> xs = xs' \<and> ys = ys'"
proof (induction xs arbitrary: xs')
  case Nil
  then show ?case by (cases xs') auto
next
  case (Cons x xs)
  then show ?case by (cases xs') auto
qed

lemma GetResourceSlicesForPool_reader:
  assumes "indexed_reader C ns ss \<or> plain_reader C ns ss"
    and "\<forall>s\<in>set ss. CHR ''/'' \<notin> set (sliceDriver s)" "CHR ''/'' \<notin> set (pidDriver i)"
  shows "wp (GetResourceSlicesForPool C i) (\<lambda>r _. r = Inr (filter (\<lambda>s. ResourcePoolIDFromSlice s = i) ss)) t"
  using assms(1)
proof
  assume x: "indexed_reader C ns ss"
  have "filter (selects (SlicesOfPool (ResourcePoolID_String i))) ss = filter (\<lambda>s. ResourcePoolIDFromSlice s = i) ss"
  proof (rule filter_cong [OF refl])
    fix s assume s: "s \<in> set ss"
    have "ResourcePoolID_String (ResourcePoolIDFromSlice s) = ResourcePoolID_String i \<longleftrightarrow> ResourcePoolIDFromSlice s = i"
    proof
      assume "ResourcePoolID_String (ResourcePoolIDFromSlice s) = ResourcePoolID_String i"
      then have "sliceDriver s @ CHR ''/'' # poolName (slicePool s) = pidDriver i @ CHR ''/'' # pidPool i"
        by (simp add: ResourcePoolID_String_def ResourcePoolIDFromSlice_def)
      then have "sliceDriver s = pidDriver i \<and> poolName (slicePool s) = pidPool i"
        using assms(2,3) s by (simp add: sep_inject)
      then show "ResourcePoolIDFromSlice s = i" by (simp add: ResourcePoolIDFromSlice_def)
    qed simp
    then show "selects (SlicesOfPool (ResourcePoolID_String i)) s = (ResourcePoolIDFromSlice s = i)"
      by (auto simp: IndexResourceSliceByPool_def)
  qed
  then show ?thesis
    unfolding GetResourceSlicesForPool_def wp_bind
    using x by (intro wp_listSlices) (simp add: indexed_reader_def)
next
  assume p: "plain_reader C ns ss"
  show ?thesis
    unfolding GetResourceSlicesForPool_def wp_bind
  proof (rule wp_listSlices)
    fix w t
    obtain e where e: "fst (kubeSlices C (SlicesOfPool (ResourcePoolID_String i)) w) = Inl e"
      using p unfolding plain_reader_def by blast
    show "wp (case fst (kubeSlices C (SlicesOfPool (ResourcePoolID_String i)) w) of
        Inl x \<Rightarrow> State_Monad.bind (listSlices C AllSlices) (\<lambda>r2. case r2 of Inl e \<Rightarrow> ret (Inl e)
          | Inr ss \<Rightarrow> ret (Inr (filter (\<lambda>s. ResourcePoolIDFromSlice s = i) ss)))
      | Inr ss \<Rightarrow> ret (Inr ss)) (\<lambda>r _. r = Inr (filter (\<lambda>s. ResourcePoolIDFromSlice s = i) ss)) t"
      using p by (simp add: e wp_listSlices plain_reader_def)
  qed
qed

section \<open>Slices of a node\<close>

abbreviation pool_of :: "resource_slice \<Rightarrow> ResourcePoolID" where "pool_of \<equiv> ResourcePoolIDFromSlice"

lemma poolsLoop_reader:
  assumes r: "indexed_reader C ns ss \<or> plain_reader C ns ss"
    and d: "\<forall>s\<in>set ss. CHR ''/'' \<notin> set (sliceDriver s)" and "set qs \<subseteq> set ss"
  shows "wp (poolsLoop C qs vis out) (\<lambda>r _. \<exists>res. r = Inr res \<and>
    mset res = mset out + mset (filter (\<lambda>s. pool_of s \<in> pool_of ` set qs - set vis) ss)) t"
  using assms(3)
proof (induction qs arbitrary: vis out t)
  case (Cons q qs)
  show ?case
  proof (cases "pool_of q \<in> set vis")
    case True
    then have "pool_of ` set (q # qs) - set vis = pool_of ` set qs - set vis" by auto
    then show ?thesis using Cons True by simp
  next
    case False
    let ?i = "pool_of q"
    have i: "CHR ''/'' \<notin> set (pidDriver ?i)" using d Cons.prems by (auto simp: ResourcePoolIDFromSlice_def)
    have "(pool_of s \<in> pool_of ` set (q # qs) - set vis) \<longleftrightarrow> (pool_of s = ?i \<or> pool_of s \<in> pool_of ` set qs - set (?i # vis))" for s
      using False by auto
    then have m: "mset (filter (\<lambda>s. pool_of s = ?i) ss) + mset (filter (\<lambda>s. pool_of s \<in> pool_of ` set qs - set (?i # vis)) ss)
        = mset (filter (\<lambda>s. pool_of s \<in> pool_of ` set (q # qs) - set vis) ss)"
      by (induction ss) auto
    show ?thesis
      unfolding poolsLoop.simps if_not_P [OF False] wp_bind
    proof (rule wp_mono [OF GetResourceSlicesForPool_reader [OF r d i]])
      fix res :: "nerr + resource_slice list" and u assume "res = Inr (filter (\<lambda>s. pool_of s = ?i) ss)"
      then show "wp (case res of Inl e \<Rightarrow> ret (Inl e) | Inr ps \<Rightarrow> poolsLoop C qs (?i # vis) (out @ ps))
          (\<lambda>r _. \<exists>res. r = Inr res \<and> mset res = mset out + mset (filter (\<lambda>s. pool_of s \<in> pool_of ` set (q # qs) - set vis) ss)) u"
        using wp_mono [OF Cons.IH [of "?i # vis" "out @ filter (\<lambda>s. pool_of s = ?i) ss" u]] Cons.prems
        unfolding m [symmetric] by (simp add: add.assoc)
    qed
  qed
qed simp

lemma index_global:
  assumes "sliceNodeName t \<noteq> Some ''*''"
  shows "selects (SlicesOfNode n) t \<or> selects (SlicesOfNode IndexValueResourceSliceGlobal) t \<longleftrightarrow>
    sliceNodeName t = Some n \<or> \<not> is_ok (ValidateResourceSliceNode t)"
  using assms
  by (auto simp: IndexResourceSliceByNode_def IndexValueResourceSliceGlobal_def is_ok_def ValidateResourceSliceNode_def deref_def
      split: sum.splits option.splits if_splits)

text \<open>
  C40. On a client with the resource slice indexes, the slices fetched for a node are every stored
  slice, of any generation and any node, of each pool that has a slice assigned to the node or a
  slice with unsupported node selection, each slice once. On a client without the indexes all
  stored slices are returned. Driver names have no slash, and no node is named by an asterisk.
\<close>

theorem GetResourceSlicesForNode_exact:
  assumes "\<forall>s\<in>set ss. CHR ''/'' \<notin> set (sliceDriver s) \<and> sliceNodeName s \<noteq> Some ''*''"
  shows "(indexed_reader C ns ss \<longrightarrow> wp (GetResourceSlicesForNode C n) (\<lambda>r _. \<exists>res. r = Inr res \<and>
      mset res = mset (filter (\<lambda>s. \<exists>t\<in>set ss. ResourcePoolIDFromSlice t = ResourcePoolIDFromSlice s \<and>
        (sliceNodeName t = Some n \<or> \<not> is_ok (ValidateResourceSliceNode t))) ss)) s0) \<and>
    (plain_reader C ns ss \<longrightarrow> wp (GetResourceSlicesForNode C n) (\<lambda>r _. r = Inr ss) s0)"
proof (intro conjI impI)
  assume x: "indexed_reader C ns ss"
  let ?q = "filter (selects (SlicesOfNode n)) ss @ filter (selects (SlicesOfNode IndexValueResourceSliceGlobal)) ss"
  let ?P = "\<lambda>s. \<exists>t\<in>set ss. pool_of t = pool_of s \<and> (sliceNodeName t = Some n \<or> \<not> is_ok (ValidateResourceSliceNode t))"
  have "filter (\<lambda>s. pool_of s \<in> pool_of ` set ?q - set []) ss = filter ?P ss"
  proof (rule filter_cong [OF refl])
    fix s
    have "set ?q = {t \<in> set ss. sliceNodeName t = Some n \<or> \<not> is_ok (ValidateResourceSliceNode t)}"
      using index_global [of _ n] assms by (auto simp del: selects.simps)
    then show "(pool_of s \<in> pool_of ` set ?q - set []) = ?P s"
      by (simp only: list.set Diff_empty image_iff) (auto simp: eq_commute)
  qed
  moreover have "set ?q \<subseteq> set ss" by auto
  ultimately have "wp (poolsLoop C ?q [] []) (\<lambda>r _. \<exists>res. r = Inr res \<and> mset res = mset (filter ?P ss)) t" for t
    using poolsLoop_reader [OF disjI1 [OF x], of ?q "[]" "[]" t] assms by (simp del: filter_append set_append set_filter mset_filter)
  then show "wp (GetResourceSlicesForNode C n) (\<lambda>r _. \<exists>res. r = Inr res \<and> mset res = mset (filter ?P ss)) s0"
    unfolding GetResourceSlicesForNode_def wp_bind
    using x by (intro wp_listSlices) (simp add: indexed_reader_def wp_listSlices del: selects.simps)
next
  assume p: "plain_reader C ns ss"
  show "wp (GetResourceSlicesForNode C n) (\<lambda>r _. r = Inr ss) s0"
    unfolding GetResourceSlicesForNode_def wp_bind
  proof (rule wp_listSlices)
    fix w t
    obtain e where "fst (kubeSlices C (SlicesOfNode n) w) = Inl e"
      using p unfolding plain_reader_def by blast
    then show "wp (case fst (kubeSlices C (SlicesOfNode n) w) of Inl x \<Rightarrow> listSlices C AllSlices
        | Inr perNode \<Rightarrow> State_Monad.bind (listSlices C (SlicesOfNode IndexValueResourceSliceGlobal)) (\<lambda>r2. case r2 of
            Inl e \<Rightarrow> ret (Inl e) | Inr global \<Rightarrow> poolsLoop C (perNode @ global) [] [])) (\<lambda>r _. r = Inr ss) t"
      using p by (simp add: wp_listSlices plain_reader_def)
  qed
qed

text \<open>A client over a fixed store, with the indexes and an empty Slurm cluster.\<close>

definition stored_client :: "kube_node list \<Rightarrow> resource_slice list \<Rightarrow> unit ncluster" where
  "stored_client ns ss = \<lparr>
     nodeGet = \<lambda>_ _ w. (Inl SlurmNodeNotFound, w), partitionGet = \<lambda>_ w. (Inl SlurmNodeNotFound, w),
     nodeUpdate = \<lambda>n _ w. ((Inl SlurmNodeNotFound, n), w), nodeCreate = \<lambda>_ _ w. (Inr (), w),
     nodeDelete = \<lambda>_ w. (Inl SlurmNodeNotFound, w), nodeNames = \<lambda>_ w. (Inr [], w),
     kubeGet = \<lambda>name w. (case find (\<lambda>n. knName n = name) ns of None \<Rightarrow> Inl KubeNotFound | Some n \<Rightarrow> Inr n, w),
     kubePatch = \<lambda>_ _ w. (Inr (), w), kubePatchStatus = \<lambda>_ _ w. (Inr (), w),
     kubeNodes = \<lambda>sel w. (Inr (filter (node_selects sel) ns), w),
     kubeSlices = \<lambda>sel w. (Inr (filter (selects sel) ss), w),
     kubeEvent = \<lambda>_ _ w. ((), w), kubeNow = \<lambda>w. (0, w)\<rparr>"

lemma stored_client_indexed: "indexed_reader (stored_client ns ss) ns ss"
  by (simp add: indexed_reader_def stored_client_def)

definition start :: "unit node_sys" where
  "start = \<lparr>world = ((), NewDurationStore), trace = []\<rparr>"

definition other_slice :: resource_slice where
  "other_slice = sample_slice\<lparr>sliceNodeName := Some ''m'', slicePool := \<lparr>poolName = ''q'', poolGeneration = 1, poolSliceCount = 1\<rparr>\<rparr>"

theorem GetResourceSlicesForNode_exact_witness:
  "wp (GetResourceSlicesForNode (stored_client [] [sample_slice, other_slice]) ''n'')
     (\<lambda>r _. \<exists>res. r = Inr res \<and> mset res = mset [sample_slice]) start"
  using GetResourceSlicesForNode_exact [of "[sample_slice, other_slice]" "stored_client [] [sample_slice, other_slice]" "[]" "''n''" start]
    stored_client_indexed [of "[]" "[sample_slice, other_slice]"]
  by (simp add: sample_slice_def other_slice_def ResourcePoolIDFromSlice_def ValidateResourceSliceNode_def is_ok_def deref_def)

end
