(* ===== verification/Node_Slurm.thy ===== *)
theory Node_Slurm
  imports Node_Index "HOL-Library.While_Combinator"
begin

text \<open>
  \<open>internal/controller/node/slurmcontrol\<close>: how a Kubernetes node is registered, updated, drained
  and removed in Slurm.  Each method of the control interface is a handler with every call it
  makes; the text of the node configuration, of the GRES and of the features is built as in the
  source.  \<open>gresEntries\<close> is a loop that rewrites the string until no parenthesis is left; it is
  shown to end and to agree with a single pass.
\<close>

section \<open>Lists of names\<close>

definition MergeList :: "'a list list \<Rightarrow> 'a list" where
  "MergeList items = fold (\<lambda>item list. list @ item) items []"

definition SortedDedup :: "string list \<Rightarrow> string list" where
  "SortedDedup xs = sort (fold (\<lambda>x out. let s = trim_space x in
     if s = [] \<or> s \<in> set out then out else out @ [s]) xs [])"

definition splitAnnotationList :: "string \<Rightarrow> string list" where
  "splitAnnotationList value =
     (if value = [] then [] else filter (\<lambda>t. t \<noteq> []) (map trim_space (split_on CHR '','' value)))"

definition featuresEqual :: "string list option \<Rightarrow> string list \<Rightarrow> bool" where
  "featuresEqual current desired = (let cur = deref [] current in
     if length cur \<noteq> length desired then False else list_all2 (=) (sort cur) (sort desired))"

definition updateFeatureList :: "string list \<Rightarrow> string \<Rightarrow> bool \<Rightarrow> string list" where
  "updateFeatureList current feature present =
     filter (\<lambda>f. f \<noteq> feature) current @ (if present then [feature] else [])"

section \<open>GRES text\<close>

function dropAffinity :: "string \<Rightarrow> string" where
  "dropAffinity gres = (case cut_at CHR ''('' gres of
     None \<Rightarrow> gres
   | Some (before, rest) \<Rightarrow>
       dropAffinity (before @ (case cut_at CHR '')'' rest of None \<Rightarrow> [] | Some (_, after) \<Rightarrow> after)))"
  by auto
termination
proof (relation "measure length", goal_cases)
  case (2 gres before_rest before rest)
  then have "gres = before @ CHR ''('' # rest" by (metis cut_at_Some)
  moreover have "length (case cut_at CHR '')'' rest of None \<Rightarrow> [] | Some (_, after) \<Rightarrow> after) \<le> length rest"
    by (auto simp: cut_at_Some split: option.splits)
  ultimately show ?case by simp
qed simp

declare dropAffinity.simps [simp del]

definition gresEntries :: "string \<Rightarrow> string list" where
  "gresEntries gres = map trim_space (split_on CHR '','' (dropAffinity gres))"

definition gresEqual :: "string \<Rightarrow> string \<Rightarrow> bool" where
  "gresEqual a b = (sort (gresEntries a) = sort (gresEntries b))"

record nodeGRESConfig =
  gresText :: string
  gresConfText :: string
  gresExtra :: string
  gresConfInventory :: "string list"

definition inventoryLine :: "GRESInventory \<Rightarrow> string" where
  "inventoryLine g = ''Name='' @ gresName (invGRES g) @ '' Type='' @ gresType (invGRES g) @
     '' Count='' @ show_nat (length (invDevices g))"

definition buildNodeGRESConfig :: "node_lib \<Rightarrow> GRESInventory list \<Rightarrow> NodeInfo option \<Rightarrow> nerr + nodeGRESConfig" where
  "buildNodeGRESConfig L draInventory nodeInfo =
     (let inventory = map (WithNUMACores (NUMACores (libParse L) nodeInfo)) draInventory in
      rbind (nlift (collect (SlurmConfig (libShow L)) inventory)) (\<lambda>entries.
        let config = \<lparr>gresText = join_with '','' (map fst entries), gresConfText = join_with ''+'' (map snd entries),
          gresExtra = [], gresConfInventory = map inventoryLine inventory\<rparr> in
        if length inventory > 0
        then rmap (\<lambda>extra. config\<lparr>gresExtra := extra\<rparr>) (nlift (EncodeAppliedInventory (libJson L) (libShow L) inventory))
        else Inr config))"

definition validateHybridNodeGRES :: "string \<Rightarrow> string \<Rightarrow> nodeGRESConfig \<Rightarrow> nerr + unit" where
  "validateHybridNodeGRES name current desired =
     (if gresText desired = [] then Inr ()
      else if list_all (\<lambda>required. required \<in> set (gresEntries current)) (split_on CHR '','' (gresText desired)) then Inr ()
      else Inl (IncompatibleGRES name current (gresText desired)
        (map (\<lambda>entry. ''NodeName='' @ name @ '' '' @ entry) (gresConfInventory desired))))"

section \<open>CPU geometry and the applied inventory\<close>

record nodeCPUConfig =
  cfgSockets :: int
  cfgCores :: int
  cfgThreads :: int
  cfgCpus :: int
  fromDRA :: bool

abbreviation geometry :: "NodeInfo option \<Rightarrow> nerr + int \<times> int \<times> int" where
  "geometry info \<equiv> nlift (lift_err (Geometry info))"

abbreviation encodeApplied :: "node_lib \<Rightarrow> NodeInfo option \<Rightarrow> string \<Rightarrow> nerr + string" where
  "encodeApplied L info extra \<equiv> nlift (EncodeApplied (libJson L) (libParse L) (libShow L) (libHash L) info extra)"

abbreviation validFingerprint :: "node_lib \<Rightarrow> NodeInfo option \<Rightarrow> string \<Rightarrow> nerr + unit" where
  "validFingerprint L info extra \<equiv>
     nlift (ValidateCPUFingerprint (libJson L) (libParse L) (libShow L) (libHash L) info extra)"

abbreviation appliedFingerprint :: "node_lib \<Rightarrow> string \<Rightarrow> nerr + string" where
  "appliedFingerprint L extra \<equiv> nlift (AppliedCPUFingerprint (libJson L) extra)"

abbreviation bridge_extra :: "string \<Rightarrow> bool" where
  "bridge_extra extra \<equiv> has_prefix extra AppliedInventoryExtraPrefix"

definition desiredNodeCPUConfig :: "kube_node \<Rightarrow> NodeInfo option \<Rightarrow> nerr + nodeCPUConfig" where
  "desiredNodeCPUConfig node nodeInfo =
     (let fallback = \<lparr>cfgSockets = 1, cfgCores = knCPU node, cfgThreads = 1, cfgCpus = knCPU node, fromDRA = False\<rparr> in
      case nodeInfo of
        None \<Rightarrow> Inr fallback
      | Some n \<Rightarrow>
          if length (AbstractToMachine (CpuMap n)) > 0
          then rmap (\<lambda>(sockets, cores, threads). \<lparr>cfgSockets = sockets, cfgCores = cores, cfgThreads = threads,
            cfgCpus = sockets * cores * threads, fromDRA = True\<rparr>) (geometry (Some n))
          else Inr fallback)"

definition memoryMB :: "kube_node \<Rightarrow> int" where
  "memoryMB node = knMemory node sdiv (1024 * 1024)"

definition has_state :: "slurm_node \<Rightarrow> node_state \<Rightarrow> bool" where
  "has_state n st = (st \<in> set (snState n))"

definition busy :: "slurm_node \<Rightarrow> bool" where
  "busy n = list_ex (has_state n) [ALLOCATED, MIXED, COMPLETING]"

definition hybridNodeExtra :: "node_lib \<Rightarrow> slurm_node \<Rightarrow> NodeInfo option \<Rightarrow> string \<Rightarrow> nerr + string" where
  "hybridNodeExtra L node nodeInfo extra0 =
     (let current = deref [] (snExtra node) in
      rbind (if bridge_extra current then appliedFingerprint L current else Inr []) (\<lambda>applied.
      rbind (geometry nodeInfo) (\<lambda>(sockets, cores, threads).
      rbind
        (if sockets = 0 then
           if applied \<noteq> [] then Inl (NErr ''lost applied CPU inventory'') else Inr extra0
         else if deref 0 (snSockets node) \<noteq> sockets \<or> deref 0 (snCores node) \<noteq> cores \<or>
           deref 0 (snThreads node) \<noteq> threads \<or> deref 0 (snCpus node) \<noteq> sockets * cores * threads
         then Inl (NErr ''CPU geometry differs'')
         else rbind (encodeApplied L nodeInfo extra0) (\<lambda>extra.
           case validFingerprint L nodeInfo current of
             Inr _ \<Rightarrow> Inr extra
           | Inl _ \<Rightarrow>
               if \<not> has_state node IDLE \<or> busy node \<or> deref 0 (snAllocCpus node) \<noteq> 0
               then Inl (NErr ''must be idle'')
               else if applied \<noteq> [] \<and> (\<not> has_state node DRAIN \<or> has_state node UNDRAIN)
               then Inl (NErr ''CPU topology changed'') else Inr extra)) (\<lambda>extra.
        if extra \<noteq> [] \<and> current \<noteq> [] \<and> \<not> bridge_extra current then Inl (NErr ''Extra in use'') else Inr extra))))"

section \<open>Drain and undrain\<close>

definition nodeReasonPrefix :: string where "nodeReasonPrefix = ''slurm-bridge:''"

definition strings_Contains :: "string \<Rightarrow> string \<Rightarrow> bool" where
  "strings_Contains s sub = list_ex (prefix sub) (suffixes s)"

definition ignoreNotFound :: "nerr \<Rightarrow> nerr + unit" where
  "ignoreNotFound e = (if nerr_is SlurmNodeNotFound e then Inr () else Inl e)"

definition NodeExists :: "'w ncluster \<Rightarrow> kube_node \<Rightarrow> ('w, nerr + bool) node_handler" where
  "NodeExists C node = do {
     r \<leftarrow> slurmNode C FromCache (GetSlurmNodeName node);
     case r of
       Inl e \<Rightarrow> ret (if nerr_is SlurmNodeNotFound e then Inr False else Inl e)
     | Inr _ \<Rightarrow> ret (Inr True) }"

definition MakeNodeDrain :: "'w ncluster \<Rightarrow> kube_node \<Rightarrow> string \<Rightarrow> ('w, nerr + unit) node_handler" where
  "MakeNodeDrain C node reason = do {
     r \<leftarrow> slurmNode C FromCache (GetSlurmNodeName node);
     case r of
       Inl e \<Rightarrow> ret (ignoreNotFound e)
     | Inr sn \<Rightarrow>
         if has_state sn DRAIN then ret (Inr ())
         else do {
           u \<leftarrow> slurmUpdate C sn (no_update\<lparr>upState := Some [DRAIN], upReason := Some (nodeReasonPrefix @ '' '' @ reason)\<rparr>);
           case fst u of Inl e \<Rightarrow> ret (ignoreNotFound e) | Inr _ \<Rightarrow> ret (Inr ()) } }"

definition shouldSkipUndrain :: "slurm_node \<Rightarrow> bool" where
  "shouldSkipUndrain sn =
     (if \<not> has_state sn DRAIN \<or> has_state sn UNDRAIN then True
      else (let nodeReason = deref [] (snReason sn) in
        nodeReason \<noteq> [] \<and> \<not> strings_Contains nodeReason nodeReasonPrefix))"

definition MakeNodeUndrain :: "'w ncluster \<Rightarrow> kube_node \<Rightarrow> string \<Rightarrow> ('w, nerr + unit) node_handler" where
  "MakeNodeUndrain C node reason = do {
     r \<leftarrow> slurmNode C FromCache (GetSlurmNodeName node);
     case r of
       Inl e \<Rightarrow> ret (ignoreNotFound e)
     | Inr sn \<Rightarrow>
         if shouldSkipUndrain sn then ret (Inr ())
         else do {
           r2 \<leftarrow> slurmNode C Direct (GetSlurmNodeName node);
           case r2 of
             Inl e \<Rightarrow> ret (ignoreNotFound e)
           | Inr live \<Rightarrow>
               if shouldSkipUndrain live then ret (Inr ())
               else do {
                 u \<leftarrow> slurmUpdate C live (no_update\<lparr>upState := Some [UNDRAIN], upReason := Some (nodeReasonPrefix @ '' '' @ reason)\<rparr>);
                 case fst u of Inl e \<Rightarrow> ret (ignoreNotFound e) | Inr _ \<Rightarrow> ret (Inr ()) } } }"

definition IsNodeDrain :: "'w ncluster \<Rightarrow> kube_node \<Rightarrow> ('w, nerr + bool) node_handler" where
  "IsNodeDrain C node = do {
     r \<leftarrow> slurmNode C FromCache (GetSlurmNodeName node);
     ret (rmap (\<lambda>sn. has_state sn DRAIN) r) }"

definition drained :: "slurm_node \<Rightarrow> bool" where
  "drained sn = ((has_state sn DRAIN \<and> \<not> has_state sn UNDRAIN) \<and> \<not> busy sn)"

definition IsNodeDrained :: "'w ncluster \<Rightarrow> kube_node \<Rightarrow> ('w, nerr + bool) node_handler" where
  "IsNodeDrained C node = do {
     r \<leftarrow> slurmNode C Refreshed (GetSlurmNodeName node);
     ret (rmap drained r) }"

definition IsNodeExternal :: "'w ncluster \<Rightarrow> kube_node \<Rightarrow> ('w, nerr + bool) node_handler" where
  "IsNodeExternal C node = do {
     r \<leftarrow> slurmNode C FromCache (GetSlurmNodeName node);
     case r of
       Inl e \<Rightarrow> ret (if nerr_is SlurmNodeNotFound e then Inr False else Inl e)
     | Inr sn \<Rightarrow> ret (Inr (has_state sn EXTERNAL)) }"

section \<open>Features\<close>

definition validatePartitionExists :: "'w ncluster \<Rightarrow> string \<Rightarrow> ('w, nerr + unit) node_handler" where
  "validatePartitionExists C partitionName = do {
     r \<leftarrow> slurmPartition C partitionName;
     case r of
       Inl e \<Rightarrow> ret (Inl (if nerr_is SlurmNodeNotFound e then NErr ''partition not found'' else e))
     | Inr _ \<Rightarrow> ret (Inr ()) }"

definition desiredNodeFeatures :: "'w ncluster \<Rightarrow> strmap \<Rightarrow> ('w, nerr + string list) node_handler" where
  "desiredNodeFeatures C anns = (let partitionFeatures = splitAnnotationList (get_or [] anns AnnotationExternalNodePartitions) in do {
     r \<leftarrow> for_each (\<lambda>partition. do {
       v \<leftarrow> validatePartitionExists C partition;
       case v of Inl e \<Rightarrow> ret (Inl (NWrapped ''validate partition'' e)) | Inr _ \<Rightarrow> ret (Inr ()) }) partitionFeatures;
     case r of
       Inl e \<Rightarrow> ret (Inl e)
     | Inr _ \<Rightarrow> ret (Inr (SortedDedup (MergeList
         [partitionFeatures, splitAnnotationList (get_or [] anns AnnotationNodeFeaturesSpec)]))) })"

definition updateNodeFeatures :: "'w ncluster \<Rightarrow> kube_node \<Rightarrow> slurm_node \<Rightarrow> ('w, (nerr + unit) \<times> slurm_node) node_handler" where
  "updateNodeFeatures C node sn =
     (let anns = knAnnotations node;
          partitions = splitAnnotationList (get_or [] anns AnnotationExternalNodePartitions) in do {
      f \<leftarrow> desiredNodeFeatures C anns;
      case f of
        Inl e \<Rightarrow> ret (Inl e, sn)
      | Inr desiredFeatures \<Rightarrow>
          (let desired = SortedDedup (desiredFeatures @ [SlurmFeatureGRESCompatible]);
               inSync = (set desired = set (deref [] (snFeatures sn)) \<and> set desired = set (deref [] (snActiveFeatures sn)));
               partitionsMatch = (length partitions = 0 \<or> featuresEqual (snPartitions sn) partitions) in
           if inSync \<and> partitionsMatch then ret (Inr (), sn)
           else do {
             u \<leftarrow> slurmUpdate C sn (no_update\<lparr>upFeatures := Some desired, upFeaturesAct := Some desired\<rparr>);
             case fst u of
               Inl e \<Rightarrow> ret (Inl (NWrapped ''update node features'' e), snd u)
             | Inr _ \<Rightarrow> ret (Inr (), snd u) }) })"

definition updateNodeTopology :: "'w ncluster \<Rightarrow> kube_node \<Rightarrow> slurm_node \<Rightarrow> ('w, nerr + unit) node_handler" where
  "updateNodeTopology C node sn =
     (let topologySpec = get_or [] (knAnnotations node) AnnotationNodeTopologySpec in
      if deref [] (snTopology sn) = topologySpec then ret (Inr ())
      else do {
        u \<leftarrow> slurmUpdate C sn (no_update\<lparr>upTopology := Some topologySpec\<rparr>);
        case fst u of Inl e \<Rightarrow> ret (Inl (NWrapped ''update node topology'' e)) | Inr _ \<Rightarrow> ret (Inr ()) })"

definition updateFeature :: "'w ncluster \<Rightarrow> bool \<Rightarrow> node_update \<Rightarrow> slurm_node \<Rightarrow> ('w, (nerr + unit) \<times> slurm_node) node_handler" where
  "updateFeature C changed msg sn =
     (if \<not> changed then ret (Inr (), sn)
      else do {
        u \<leftarrow> slurmUpdate C sn msg;
        case fst u of
          Inl e \<Rightarrow> ret (Inl (NWrapped ''update GRES compatibility feature'' e), snd u)
        | Inr _ \<Rightarrow> ret (Inr (), snd u) })"

definition updateGRESCompatibilityFeature :: "'w ncluster \<Rightarrow> slurm_node \<Rightarrow> bool \<Rightarrow> ('w, nerr + unit) node_handler" where
  "updateGRESCompatibilityFeature C sn compatible =
     (let available = updateFeatureList (deref [] (snFeatures sn)) SlurmFeatureGRESCompatible compatible;
          active = updateFeatureList (deref [] (snActiveFeatures sn)) SlurmFeatureGRESCompatible compatible;
          availableChanged = (\<not> featuresEqual (snFeatures sn) available);
          activeChanged = (\<not> featuresEqual (snActiveFeatures sn) active);
          updateAvailable = updateFeature C availableChanged (no_update\<lparr>upFeatures := Some available\<rparr>);
          updateActive = updateFeature C activeChanged (no_update\<lparr>upFeaturesAct := Some active\<rparr>);
          (first, second) = (if compatible then (updateAvailable, updateActive) else (updateActive, updateAvailable)) in
      if \<not> availableChanged \<and> \<not> activeChanged then ret (Inr ())
      else do {
        r \<leftarrow> first sn;
        case fst r of
          Inl e \<Rightarrow> ret (Inl e)
        | Inr _ \<Rightarrow> do { r2 \<leftarrow> second (snd r); ret (fst r2) } })"

definition DisableNodeGRESCompatibility :: "'w ncluster \<Rightarrow> kube_node \<Rightarrow> ('w, nerr + unit) node_handler" where
  "DisableNodeGRESCompatibility C node = do {
     r \<leftarrow> slurmNode C Direct (GetSlurmNodeName node);
     case r of
       Inl e \<Rightarrow> ret (ignoreNotFound e)
     | Inr sn \<Rightarrow> updateGRESCompatibilityFeature C sn False }"

section \<open>Registration\<close>

definition updateNodeExtra :: "'w ncluster \<Rightarrow> slurm_node \<Rightarrow> string \<Rightarrow> ('w, (nerr + unit) \<times> slurm_node) node_handler" where
  "updateNodeExtra C sn desired =
     (let current = deref [] (snExtra sn) in
      if current = desired \<or> desired = [] \<and> \<not> bridge_extra current then ret (Inr (), sn)
      else if current \<noteq> [] \<and> \<not> bridge_extra current then ret (Inl (NErr ''Extra in use''), sn)
      else do {
        u \<leftarrow> slurmUpdate C sn (no_update\<lparr>upExtra := Some desired\<rparr>);
        case fst u of
          Inl e \<Rightarrow> ret (if nerr_is SlurmNodeNotFound e then Inr () else Inl (NWrapped ''record inventory'' e), snd u)
        | Inr _ \<Rightarrow> ret (Inr (), snd u) })"

definition incompatible :: "'w ncluster \<Rightarrow> slurm_node \<Rightarrow> nerr \<Rightarrow> ('w, nerr + unit) node_handler" where
  "incompatible C sn e = do {
     r \<leftarrow> updateGRESCompatibilityFeature C sn False;
     ret (njoin [Inl e, r]) }"

definition reconcileHybridNode :: "node_lib \<Rightarrow> 'w ncluster \<Rightarrow> slurm_node \<Rightarrow> NodeInfo option \<Rightarrow> nodeGRESConfig \<Rightarrow>
    ('w, nerr + unit) node_handler" where
  "reconcileHybridNode L C sn nodeInfo gresConfig =
     (case validateHybridNodeGRES (snKey sn) (deref [] (snGres sn)) gresConfig of
        Inl e \<Rightarrow> incompatible C sn e
      | Inr _ \<Rightarrow>
          (case hybridNodeExtra L sn nodeInfo (gresExtra gresConfig) of
             Inl e \<Rightarrow> incompatible C sn e
           | Inr extra \<Rightarrow> do {
               r \<leftarrow> updateNodeExtra C sn extra;
               case fst r of
                 Inl e \<Rightarrow> incompatible C (snd r) e
               | Inr _ \<Rightarrow> updateGRESCompatibilityFeature C (snd r) True }))"

definition updateExistingNode :: "node_lib \<Rightarrow> 'w ncluster \<Rightarrow> kube_node \<Rightarrow> slurm_node \<Rightarrow> NodeInfo option \<Rightarrow> nodeGRESConfig \<Rightarrow>
    ('w, nerr + unit) node_handler" where
  "updateExistingNode L C node sn nodeInfo gresConfig =
     (if \<not> has_state sn EXTERNAL then reconcileHybridNode L C sn nodeInfo gresConfig
      else do {
        r \<leftarrow> updateNodeFeatures C node sn;
        case fst r of
          Inl e \<Rightarrow> ret (Inl e)
        | Inr _ \<Rightarrow> updateNodeTopology C node (snd r) })"

definition nodeInternalIP :: "kube_node \<Rightarrow> string" where
  "nodeInternalIP node = (case find (\<lambda>a. fst a = ''InternalIP'') (knAddresses node) of Some a \<Rightarrow> snd a | None \<Rightarrow> [])"

definition nodeConf :: "kube_node \<Rightarrow> nodeCPUConfig \<Rightarrow> string \<Rightarrow> nodeGRESConfig \<Rightarrow> string" where
  "nodeConf node cpu features cfg =
     ''NodeName='' @ GetSlurmNodeName node @ '' Sockets='' @ show_int (cfgSockets cpu) @
     '' CoresPerSocket='' @ show_int (cfgCores cpu) @ '' ThreadsPerCore='' @ show_int (cfgThreads cpu) @
     '' CPUs='' @ show_int (cfgCpus cpu) @ '' RealMemory='' @ show_int (memoryMB node) @ '' State=External'' @
     (if nodeInternalIP node \<noteq> [] then '' NodeAddr='' @ nodeInternalIP node else []) @
     '' Feature='' @ features @
     (case map_of (knAnnotations node) AnnotationNodeTopologySpec of
        Some spec \<Rightarrow> if spec \<noteq> [] then '' Topology='' @ spec else [] | None \<Rightarrow> []) @
     '' Gres='' @ [CHR 0x22] @ gresText cfg @ [CHR 0x22] @ '' GresConf='' @ [CHR 0x22] @ gresConfText cfg @ [CHR 0x22]"

definition named_node :: "string \<Rightarrow> slurm_node" where
  "named_node name = \<lparr>snKey = name, snState = [], snReason = None, snGres = None, snExtra = None, snTopology = None,
     snFeatures = None, snActiveFeatures = None, snPartitions = None, snCpus = None, snSockets = None, snCores = None,
     snThreads = None, snRealMemory = None, snAllocCpus = None\<rparr>"

definition createNode :: "'w ncluster \<Rightarrow> kube_node \<Rightarrow> nodeCPUConfig \<Rightarrow> nodeGRESConfig \<Rightarrow> string \<Rightarrow> ('w, nerr + unit) node_handler" where
  "createNode C node cpu cfg extra = do {
     f \<leftarrow> desiredNodeFeatures C (knAnnotations node);
     case f of
       Inl e \<Rightarrow> ret (Inl e)
     | Inr desiredFeatures \<Rightarrow> do {
         r \<leftarrow> slurmCreate C (GetSlurmNodeName node) (nodeConf node cpu
           (join_with '','' (SortedDedup (MergeList [desiredFeatures, [SlurmFeatureGRESCompatible]]))) cfg);
         case r of
           Inl e \<Rightarrow> ret (Inl e)
         | Inr _ \<Rightarrow>
             if extra = [] then ret (Inr ())
             else do {
               u \<leftarrow> slurmUpdate C (named_node (GetSlurmNodeName node))
                 (if fromDRA cpu
                  then no_update\<lparr>upExtra := Some extra, upState := Some [DRAIN], upReason := Some ''slurm-bridge: applying CPU topology''\<rparr>
                  else no_update\<lparr>upExtra := Some extra\<rparr>);
               case fst u of Inl e \<Rightarrow> ret (Inl (NWrapped ''record inventory'' e)) | Inr _ \<Rightarrow> ret (Inr ()) } } }"

definition AddNode :: "node_lib \<Rightarrow> 'w ncluster \<Rightarrow> kube_node \<Rightarrow> NodeInfo option \<Rightarrow> GRESInventory list \<Rightarrow> ('w, nerr + unit) node_handler" where
  "AddNode L C node nodeInfo draInventory =
     (case buildNodeGRESConfig L draInventory nodeInfo of
        Inl e \<Rightarrow> ret (Inl e)
      | Inr gresConfig \<Rightarrow> do {
          r \<leftarrow> slurmNode C Direct (GetSlurmNodeName node);
          case r of
            Inr sn \<Rightarrow> updateExistingNode L C node sn nodeInfo gresConfig
          | Inl e \<Rightarrow>
              if \<not> nerr_is SlurmNodeNotFound e then ret (Inl e)
              else
                (case desiredNodeCPUConfig node nodeInfo of
                   Inl e \<Rightarrow> ret (Inl e)
                 | Inr cpu \<Rightarrow>
                     (case encodeApplied L nodeInfo (gresExtra gresConfig) of
                        Inl e \<Rightarrow> ret (Inl e)
                      | Inr extra \<Rightarrow> createNode C node cpu gresConfig extra)) })"

definition UpdateHybridNode :: "node_lib \<Rightarrow> 'w ncluster \<Rightarrow> kube_node \<Rightarrow> NodeInfo option \<Rightarrow> GRESInventory list \<Rightarrow> ('w, nerr + unit) node_handler" where
  "UpdateHybridNode L C node nodeInfo draInventory =
     (case buildNodeGRESConfig L draInventory nodeInfo of
        Inl e \<Rightarrow> ret (Inl e)
      | Inr gresConfig \<Rightarrow> do {
          r \<leftarrow> slurmNode C Direct (GetSlurmNodeName node);
          case r of
            Inl e \<Rightarrow> ret (ignoreNotFound e)
          | Inr sn \<Rightarrow>
              if has_state sn EXTERNAL then ret (Inr ())
              else reconcileHybridNode L C sn nodeInfo gresConfig })"

definition externalChanged :: "node_lib \<Rightarrow> kube_node \<Rightarrow> slurm_node \<Rightarrow> NodeInfo option \<Rightarrow> nodeGRESConfig \<Rightarrow> nerr + bool" where
  "externalChanged L node sn nodeInfo desiredGRES =
     rbind (desiredNodeCPUConfig node nodeInfo) (\<lambda>cpu.
     rbind (encodeApplied L nodeInfo (gresExtra desiredGRES)) (\<lambda>extra.
       let currentExtra = deref [] (snExtra sn) in
       rbind (if \<not> fromDRA cpu \<and> bridge_extra currentExtra
          then rbind (appliedFingerprint L currentExtra) (\<lambda>fingerprint.
            if fingerprint \<noteq> [] then Inl (NErr ''applied CPU inventory disappeared'') else Inr ())
          else Inr ()) (\<lambda>_.
       if extra \<noteq> [] \<and> currentExtra \<noteq> [] \<and> \<not> bridge_extra currentExtra then Inl (NErr ''Extra in use'')
       else (let
         extraChanged = (extra \<noteq> currentExtra \<and> (extra \<noteq> [] \<or> bridge_extra currentExtra));
         gresChanged = (\<not> gresEqual (gresText desiredGRES) (deref [] (snGres sn)));
         cpuChanged = (cfgCpus cpu \<noteq> deref 0 (snCpus sn) \<or>
           fromDRA cpu \<and> (cfgSockets cpu \<noteq> deref 0 (snSockets sn) \<or> cfgCores cpu \<noteq> deref 0 (snCores sn) \<or>
             cfgThreads cpu \<noteq> deref 0 (snThreads sn))) in
         Inr (cpuChanged \<or> memoryMB node \<noteq> deref 0 (snRealMemory sn) \<or> gresChanged \<or> extraChanged)))))"

definition NodeNeedsRecreate :: "node_lib \<Rightarrow> 'w ncluster \<Rightarrow> kube_node \<Rightarrow> NodeInfo option \<Rightarrow> GRESInventory list \<Rightarrow> ('w, nerr + bool) node_handler" where
  "NodeNeedsRecreate L C node nodeInfo draInventory = do {
     r \<leftarrow> slurmNode C FromCache (GetSlurmNodeName node);
     case r of
       Inl e \<Rightarrow> ret (if nerr_is SlurmNodeNotFound e then Inr False else Inl e)
     | Inr sn \<Rightarrow>
         (case buildNodeGRESConfig L draInventory nodeInfo of
            Inl e \<Rightarrow> ret (Inl e)
          | Inr desiredGRES \<Rightarrow>
              if \<not> has_state sn EXTERNAL then
                ret (rbind (validateHybridNodeGRES (GetSlurmNodeName node) (deref [] (snGres sn)) desiredGRES) (\<lambda>_.
                  rmap (\<lambda>_. False) (hybridNodeExtra L sn nodeInfo (gresExtra desiredGRES))))
              else ret (externalChanged L node sn nodeInfo desiredGRES)) }"

definition RemoveNode :: "'w ncluster \<Rightarrow> kube_node \<Rightarrow> ('w, nerr + unit) node_handler" where
  "RemoveNode C node = do {
     r \<leftarrow> slurmNode C Direct (GetSlurmNodeName node);
     case r of
       Inl e \<Rightarrow> ret (ignoreNotFound e)
     | Inr sn \<Rightarrow> do {
         d \<leftarrow> slurmRemove C (snKey sn);
         case d of
           Inl e \<Rightarrow> ret (if nerr_is SlurmNodeNotFound e then Inr () else Inl (NWrapped ''remove node'' e))
         | Inr _ \<Rightarrow> ret (Inr ()) } }"

section \<open>GRES comparison\<close>

text \<open>
  The loop of \<open>gresEntries\<close> as a while loop, and the text outside the parentheses read from left
  to right.
\<close>

definition affinityStep :: "string \<Rightarrow> string" where
  "affinityStep gres = (case cut_at CHR ''('' gres of
     None \<Rightarrow> gres
   | Some (before, rest) \<Rightarrow> before @ (case cut_at CHR '')'' rest of None \<Rightarrow> [] | Some (_, after) \<Rightarrow> after))"

definition affinityLoop :: "string \<Rightarrow> string option" where
  "affinityLoop gres = while_option (\<lambda>g. cut_at CHR ''('' g \<noteq> None) affinityStep gres"

fun outside_parens :: "bool \<Rightarrow> string \<Rightarrow> string" where
  "outside_parens inside [] = []"
| "outside_parens inside (c # cs) =
     (if inside then outside_parens (c \<noteq> CHR '')'') cs
      else if c = CHR ''('' then outside_parens True cs else c # outside_parens False cs)"

lemma outside_inside: "outside_parens True s = (case cut_at CHR '')'' s of None \<Rightarrow> [] | Some (_, after) \<Rightarrow> outside_parens False after)"
  by (induction s) (auto split: option.splits)

lemma outside_before: "CHR ''('' \<notin> set a \<Longrightarrow> outside_parens False (a @ s) = a @ outside_parens False s"
  by (induction a) auto

lemma outside_none: "CHR ''('' \<notin> set a \<Longrightarrow> outside_parens False a = a"
  using outside_before [of a "[]"] by simp

lemma outside_step: "outside_parens False (affinityStep s) = outside_parens False s"
  by (auto simp: affinityStep_def cut_at_Some outside_before outside_inside split: option.splits)

lemma dropAffinity_single_pass: "dropAffinity s = outside_parens False s"
proof (induction s rule: dropAffinity.induct)
  case (1 s)
  show ?case
  proof (cases "cut_at CHR ''('' s")
    case None
    then have "dropAffinity s = s" by (simp add: dropAffinity.simps [of s])
    then show ?thesis using None by (simp add: outside_none cut_at_None)
  next
    case (Some br)
    then show ?thesis using 1 [OF Some] outside_step [of s]
      by (cases br) (simp add: dropAffinity.simps [of s] affinityStep_def)
  qed
qed

lemma affinityLoop_returns: "affinityLoop s = Some (dropAffinity s)"
proof (induction s rule: dropAffinity.induct)
  case (1 s)
  show ?case
  proof (cases "cut_at CHR ''('' s")
    case None
    then show ?thesis by (simp add: affinityLoop_def while_option_unfold dropAffinity.simps [of s])
  next
    case (Some br)
    then have "affinityLoop s = affinityLoop (affinityStep s)"
      unfolding affinityLoop_def by (subst while_option_unfold) simp
    then show ?thesis using 1 [OF Some] Some
      by (cases br) (simp add: dropAffinity.simps [of s] affinityStep_def)
  qed
qed

lemma sort_eq_mset: "sort xs = sort ys \<longleftrightarrow> mset xs = mset (ys :: string list)"
  by (metis mset_sort properties_for_sort sorted_sort)

text \<open>
  C39. Comparing two GRES strings ends on every input: the loop that cuts socket affinity suffixes
  returns, with the text outside the parentheses. The comparison is then equality, as multisets, of
  the trimmed comma-separated entries of those texts, so order and suffixes are ignored and counts
  and multiplicity are not.
\<close>

theorem gresEqual_exact:
  "affinityLoop a = Some (outside_parens False a) \<and> affinityLoop b = Some (outside_parens False b) \<and>
   (gresEqual a b \<longleftrightarrow> mset (map trim_space (split_on CHR '','' (outside_parens False a))) =
     mset (map trim_space (split_on CHR '','' (outside_parens False b))))"
  by (simp add: affinityLoop_returns dropAffinity_single_pass gresEqual_def gresEntries_def sort_eq_mset)

end
