(* ===== verification/Node_Sync.thy ===== *)
theory Node_Sync
  imports Node_Slurm
begin

text \<open>
  The node controller (\<open>internal/controller/node\<close>): registration, taints and drain state of one
  Kubernetes node per reconcile request, the compatibility condition, the event handlers that
  enqueue requests, and the runnable that announces the Slurm nodes (\<open>internal/runnable/slurmnode\<close>).
  A reconcile request of a node is its name; \<open>requestKey\<close> is the key under which its requeue delay
  is popped.
\<close>

record node_config =
  nodeScheduler :: string
  nodeRegistry :: "Registry option"
  nodeRecorder :: bool

definition requestKey :: "string \<Rightarrow> string" where
  "requestKey name = ''/'' @ name"

definition requeueDelay :: int where "requeueDelay = 30 * 1000000000"

section \<open>Taints\<close>

definition TaintKeyBridgedNode :: string where "TaintKeyBridgedNode = ''slinky.slurm.net/managed-node''"

definition NewTaintNodeBridged :: "string \<Rightarrow> taint" where
  "NewTaintNodeBridged scheduler = \<lparr>taintKey = TaintKeyBridgedNode, taintValue = scheduler, taintEffect = ''NoExecute''\<rparr>"

definition currentNode :: "'w ncluster \<Rightarrow> kube_node \<Rightarrow> ('w, nerr + kube_node) node_handler" where
  "currentNode C node = do {
     r \<leftarrow> GetNodeNameForSlurmName C (GetSlurmNodeName node);
     case r of
       Inl e \<Rightarrow> ret (Inl e)
     | Inr found \<Rightarrow> getKubeNode C (deref (knName node) found) }"

definition taintNode :: "node_lib \<Rightarrow> 'w ncluster \<Rightarrow> node_config \<Rightarrow> kube_node \<Rightarrow> ('w, nerr + unit) node_handler" where
  "taintNode L C cfg node = do {
     r \<leftarrow> currentNode C node;
     case r of
       Inl e \<Rightarrow> ret (Inl e)
     | Inr current \<Rightarrow>
         (case AddOrUpdateTaint L (knTaints current) (NewTaintNodeBridged (nodeScheduler cfg)) of
            Inl e \<Rightarrow> ret (Inl e)
          | Inr (taints, changed) \<Rightarrow>
              if \<not> changed then ret (Inr ())
              else patchKubeNode C current (current\<lparr>knTaints := taints\<rparr>)) }"

definition untaintNode :: "node_lib \<Rightarrow> 'w ncluster \<Rightarrow> node_config \<Rightarrow> kube_node \<Rightarrow> ('w, nerr + unit) node_handler" where
  "untaintNode L C cfg node = do {
     r \<leftarrow> currentNode C node;
     case r of
       Inl e \<Rightarrow> ret (Inl e)
     | Inr current \<Rightarrow>
         (let (taints, changed) = DeleteTaint L (knTaints current) (NewTaintNodeBridged (nodeScheduler cfg)) in
          if \<not> changed then ret (Inr ())
          else patchKubeNode C current (current\<lparr>knTaints := taints\<rparr>)) }"

definition syncTaint :: "node_lib \<Rightarrow> 'w ncluster \<Rightarrow> node_config \<Rightarrow> string \<Rightarrow> ('w, nerr + unit) node_handler" where
  "syncTaint L C cfg req = do {
     r \<leftarrow> getKubeNode C req;
     case r of
       Inl e \<Rightarrow> ret (if nerr_is KubeNotFound e then Inr () else Inl e)
     | Inr node \<Rightarrow> do {
         x \<leftarrow> NodeExists C node;
         case x of
           Inl e \<Rightarrow> ret (Inl e)
         | Inr exists \<Rightarrow>
             if exists then do {
               _ \<leftarrow> pushDelay (knName node) requeueDelay;
               taintNode L C cfg node }
             else untaintNode L C cfg node } }"

section \<open>Drain state\<close>

definition syncState :: "'w ncluster \<Rightarrow> string \<Rightarrow> bool \<Rightarrow> ('w, nerr + unit) node_handler" where
  "syncState C req allowUndrain = do {
     r \<leftarrow> getKubeNode C req;
     case r of
       Inl e \<Rightarrow> ret (if nerr_is KubeNotFound e then Inr () else Inl e)
     | Inr node \<Rightarrow>
         if knUnschedulable node then
           MakeNodeDrain C node (''Corresponding Kubernetes node ('' @ knName node @ '') is unschedulable'')
         else if allowUndrain then
           MakeNodeUndrain C node (''Corresponding Kubernetes node ('' @ knName node @ '') is schedulable'')
         else ret (Inr ()) }"

section \<open>The compatibility condition\<close>

definition NodeConditionSlurmGRESCompatible :: string where
  "NodeConditionSlurmGRESCompatible = ''SlinkySlurmGRESCompatible''"

definition findNodeCondition :: "node_condition list \<Rightarrow> string \<Rightarrow> node_condition option" where
  "findNodeCondition cs t = find (\<lambda>c. ncType c = t) cs"

fun setNodeCondition :: "node_condition list \<Rightarrow> node_condition \<Rightarrow> node_condition list" where
  "setNodeCondition [] c = [c]"
| "setNodeCondition (d # ds) c = (if ncType d = ncType c then c # ds else d # setNodeCondition ds c)"

definition setSlurmGRESCompatibilityCondition :: "'w ncluster \<Rightarrow> kube_node \<Rightarrow> string \<Rightarrow> string \<Rightarrow> string \<Rightarrow> ('w, nerr + unit) node_handler" where
  "setSlurmGRESCompatibilityCondition C node status reason message =
     (let condition = findNodeCondition (knConditions node) NodeConditionSlurmGRESCompatible in
      if (case condition of None \<Rightarrow> False
          | Some c \<Rightarrow> ncStatus c = status \<and> ncReason c = reason \<and> ncMessage c = message) then ret (Inr ())
      else do {
        now \<leftarrow> readClock C;
        r \<leftarrow> patchKubeStatus C node (node\<lparr>knConditions := setNodeCondition (knConditions node)
          \<lparr>ncType = NodeConditionSlurmGRESCompatible, ncStatus = status, ncReason = reason, ncMessage = message,
           ncHeartbeat = now, ncTransition = (case condition of
             Some c \<Rightarrow> if ncStatus c = status then ncTransition c else now | None \<Rightarrow> now)\<rparr>\<rparr>);
        case r of
          Inl e \<Rightarrow> ret (if nerr_is KubeNotFound e then Inr () else Inl (NWrapped ''patch condition'' e))
        | Inr _ \<Rightarrow> ret (Inr ()) })"

definition clearSlurmGRESCompatibilityCondition :: "'w ncluster \<Rightarrow> kube_node \<Rightarrow> ('w, nerr + unit) node_handler" where
  "clearSlurmGRESCompatibilityCondition C node =
     (if findNodeCondition (knConditions node) NodeConditionSlurmGRESCompatible = None then ret (Inr ())
      else do {
        r \<leftarrow> patchKubeStatus C node
          (node\<lparr>knConditions := filter (\<lambda>c. ncType c \<noteq> NodeConditionSlurmGRESCompatible) (knConditions node)\<rparr>);
        case r of
          Inl e \<Rightarrow> ret (if nerr_is KubeNotFound e then Inr () else Inl (NWrapped ''clear condition'' e))
        | Inr _ \<Rightarrow> ret (Inr ()) })"

definition recordSlurmGRESCompatibilityError :: "node_lib \<Rightarrow> 'w ncluster \<Rightarrow> kube_node \<Rightarrow> nerr \<Rightarrow> ('w, nerr + unit) node_handler" where
  "recordSlurmGRESCompatibilityError L C node e = do {
     r \<leftarrow> (if as_incompatible e
       then setSlurmGRESCompatibilityCondition C node ''False'' ''IncompatibleSlurmGRES'' (errText L e)
       else setSlurmGRESCompatibilityCondition C node ''Unknown'' ''SlurmGRESVerificationError''
         (''Could not verify Slurm GRES compatibility: '' @ errText L e));
     ret (njoin [Inl e, r]) }"

definition recordNodeRegistrationError :: "node_lib \<Rightarrow> 'w ncluster \<Rightarrow> kube_node \<Rightarrow> nerr \<Rightarrow> ('w, nerr + unit) node_handler" where
  "recordNodeRegistrationError L C node e = do {
     disableErr \<leftarrow> DisableNodeGRESCompatibility C node;
     r \<leftarrow> recordSlurmGRESCompatibilityError L C node e;
     ret (njoin [r, disableErr]) }"

definition recordIncompatibleSlurmGRESError :: "node_lib \<Rightarrow> 'w ncluster \<Rightarrow> kube_node \<Rightarrow> nerr \<Rightarrow> ('w, nerr + unit) node_handler" where
  "recordIncompatibleSlurmGRESError L C node e =
     (if \<not> as_incompatible e then ret (Inl e)
      else do {
        disableErr \<leftarrow> DisableNodeGRESCompatibility C node;
        r \<leftarrow> recordSlurmGRESCompatibilityError L C node e;
        ret (njoin [r, disableErr]) })"

section \<open>Registration\<close>

definition nodeRegistrationInventories :: "node_lib \<Rightarrow> 'w ncluster \<Rightarrow> node_config \<Rightarrow> kube_node \<Rightarrow>
    ('w, nerr + NodeInfo \<times> GRESInventory list) node_handler" where
  "nodeRegistrationInventories L C cfg node = do {
     r \<leftarrow> GetResourceSlicesForNode C (knName node);
     case r of
       Inl e \<Rightarrow> ret (Inl e)
     | Inr slices \<Rightarrow>
         (case nlift (lift_err (NewNodeInfoFromResourceSlices (libParse L) (knName node) slices)) of
            Inl e \<Rightarrow> ret (Inl e)
          | Inr nodeInfo \<Rightarrow>
              (case nlift (BuildNodeInventory (libCel L) (nodeRegistry cfg) (Some (knName node)) slices) of
                 Inl e \<Rightarrow>
                   if nodeRecorder cfg \<and> nerr_any is_overlap e then do {
                     _ \<leftarrow> emitEvent C (knName node) ''OverlappingDRADeviceProfiles'';
                     ret (Inl e) }
                   else ret (Inl e)
               | Inr inventory \<Rightarrow>
                   ret (rmap (Pair nodeInfo) (nlift (inventory_GRES (libLabel L) (niProfiles inventory)))))) }"

definition removeNodeFromSlurmAfterDrain :: "'w ncluster \<Rightarrow> string \<Rightarrow> kube_node \<Rightarrow> ('w, nerr + bool) node_handler" where
  "removeNodeFromSlurmAfterDrain C req node = do {
     r \<leftarrow> MakeNodeDrain C node (''slurm-bridge: removing external node '' @ GetSlurmNodeName node);
     case r of
       Inl e \<Rightarrow> ret (Inl e)
     | Inr _ \<Rightarrow> do {
         d \<leftarrow> IsNodeDrained C node;
         case d of
           Inl e \<Rightarrow> ret (Inl e)
         | Inr isDrained \<Rightarrow>
             if \<not> isDrained then do {
               _ \<leftarrow> pushDelay (requestKey req) requeueDelay;
               ret (Inr False) }
             else do {
               x \<leftarrow> RemoveNode C node;
               ret (rmap (\<lambda>_. True) x) } } }"

definition registerNode :: "node_lib \<Rightarrow> 'w ncluster \<Rightarrow> kube_node \<Rightarrow> NodeInfo \<Rightarrow> GRESInventory list \<Rightarrow> bool \<Rightarrow> ('w, bool \<times> (nerr + unit)) node_handler" where
  "registerNode L C node nodeInfo draInventory ownsDrain = do {
     a \<leftarrow> AddNode L C node (Some nodeInfo) draInventory;
     case a of
       Inl e \<Rightarrow> do { r \<leftarrow> recordIncompatibleSlurmGRESError L C node e; ret (ownsDrain, r) }
     | Inr _ \<Rightarrow> do { r \<leftarrow> clearSlurmGRESCompatibilityCondition C node; ret (ownsDrain, r) } }"

definition syncLabeled :: "node_lib \<Rightarrow> 'w ncluster \<Rightarrow> node_config \<Rightarrow> string \<Rightarrow> kube_node \<Rightarrow> ('w, bool \<times> (nerr + unit)) node_handler" where
  "syncLabeled L C cfg req node = do {
     v \<leftarrow> nodeRegistrationInventories L C cfg node;
     case v of
       Inl e \<Rightarrow> do { r \<leftarrow> recordNodeRegistrationError L C node e; ret (False, r) }
     | Inr (nodeInfo, draInventory) \<Rightarrow> do {
         x \<leftarrow> NodeExists C node;
         case x of
           Inl e \<Rightarrow> ret (False, Inl e)
         | Inr exists \<Rightarrow>
             if \<not> exists then registerNode L C node nodeInfo draInventory False
             else do {
               n \<leftarrow> NodeNeedsRecreate L C node (Some nodeInfo) draInventory;
               case n of
                 Inl e \<Rightarrow> do { r \<leftarrow> recordNodeRegistrationError L C node e; ret (False, r) }
               | Inr needsRecreate \<Rightarrow>
                   if \<not> needsRecreate then registerNode L C node nodeInfo draInventory False
                   else do {
                     d \<leftarrow> removeNodeFromSlurmAfterDrain C req node;
                     case d of
                       Inl e \<Rightarrow> ret (True, Inl e)
                     | Inr removed \<Rightarrow>
                         if \<not> removed then ret (True, Inr ())
                         else registerNode L C node nodeInfo draInventory True } } } }"

definition syncUnlabeled :: "node_lib \<Rightarrow> 'w ncluster \<Rightarrow> node_config \<Rightarrow> string \<Rightarrow> kube_node \<Rightarrow> ('w, bool \<times> (nerr + unit)) node_handler" where
  "syncUnlabeled L C cfg req node = do {
     x \<leftarrow> NodeExists C node;
     case x of
       Inl e \<Rightarrow> ret (False, Inl e)
     | Inr exists \<Rightarrow>
         if \<not> exists then do { r \<leftarrow> clearSlurmGRESCompatibilityCondition C node; ret (False, r) }
         else do {
           y \<leftarrow> IsNodeExternal C node;
           case y of
             Inl e \<Rightarrow> ret (False, Inl e)
           | Inr isExternal \<Rightarrow>
               if isExternal then do {
                 c \<leftarrow> clearSlurmGRESCompatibilityCondition C node;
                 case c of
                   Inl e \<Rightarrow> ret (True, Inl e)
                 | Inr _ \<Rightarrow> do {
                     d \<leftarrow> removeNodeFromSlurmAfterDrain C req node;
                     ret (True, rmap (\<lambda>_. ()) d) } }
               else do {
                 v \<leftarrow> nodeRegistrationInventories L C cfg node;
                 case v of
                   Inl e \<Rightarrow> do { r \<leftarrow> recordNodeRegistrationError L C node e; ret (False, r) }
                 | Inr (nodeInfo, draInventory) \<Rightarrow> do {
                     u \<leftarrow> UpdateHybridNode L C node (Some nodeInfo) draInventory;
                     case u of
                       Inl e \<Rightarrow> do { r \<leftarrow> recordSlurmGRESCompatibilityError L C node e; ret (False, r) }
                     | Inr _ \<Rightarrow> do {
                         r \<leftarrow> setSlurmGRESCompatibilityCondition C node ''True'' ''SlurmGRESCompatible''
                           ''Slurm GRES and CPU configuration are compatible with the Kubernetes DRA inventory.'';
                         ret (False, r) } } } } }"

definition syncNodeRegistration :: "node_lib \<Rightarrow> 'w ncluster \<Rightarrow> node_config \<Rightarrow> string \<Rightarrow> ('w, bool \<times> (nerr + unit)) node_handler" where
  "syncNodeRegistration L C cfg req = do {
     r \<leftarrow> getKubeNode C req;
     case r of
       Inl e \<Rightarrow> ret (False, if nerr_is KubeNotFound e then Inr () else Inl e)
     | Inr node \<Rightarrow>
         if map_of (knLabels node) LabelExternalNode \<noteq> None then syncLabeled L C cfg req node
         else syncUnlabeled L C cfg req node }"

definition Sync_node :: "node_lib \<Rightarrow> 'w ncluster \<Rightarrow> node_config \<Rightarrow> string \<Rightarrow> ('w, nerr + unit) node_handler" where
  "Sync_node L C cfg req = do {
     reg \<leftarrow> syncNodeRegistration L C cfg req;
     t \<leftarrow> syncTaint L C cfg req;
     st \<leftarrow> syncState C req (is_ok (snd reg) \<and> \<not> fst reg);
     ret (njoin [snd reg, t, st]) }"

text \<open>The deferred function pops the delay a second time.\<close>

definition Reconcile_node :: "node_lib \<Rightarrow> 'w ncluster \<Rightarrow> node_config \<Rightarrow> string \<Rightarrow> ('w, int \<times> (nerr + unit)) node_handler" where
  "Reconcile_node L C cfg req = do {
     r \<leftarrow> Sync_node L C cfg req;
     d \<leftarrow> popDelay (requestKey req);
     _ \<leftarrow> popDelay (requestKey req);
     ret (d, r) }"

section \<open>Event handlers\<close>

definition Generic_node :: "'w ncluster \<Rightarrow> string \<Rightarrow> ('w, string option) node_handler" where
  "Generic_node C name = do {
     r \<leftarrow> GetNodeNameForSlurmName C name;
     case r of
       Inl e \<Rightarrow> ret None
     | Inr found \<Rightarrow> do {
         n \<leftarrow> getKubeNode C (deref name found);
         case n of Inl e \<Rightarrow> ret None | Inr node \<Rightarrow> ret (Some (knName node)) } }"

fun poolNodeNames :: "'w ncluster \<Rightarrow> resource_slice list \<Rightarrow> string list \<Rightarrow> ('w, nerr + string list) node_handler" where
  "poolNodeNames C [] names = ret (Inr names)"
| "poolNodeNames C (s # ss) names =
     (case ValidateResourceSliceNode s of
        Inr _ \<Rightarrow> poolNodeNames C ss (deref [] (sliceNodeName s) # names)
      | Inl _ \<Rightarrow> do {
          r \<leftarrow> listKubeNodes C None;
          case r of Inl e \<Rightarrow> ret (Inl e) | Inr ns \<Rightarrow> ret (Inr (map knName ns @ names)) })"

definition resourceSliceToNodes :: "'w ncluster \<Rightarrow> Registry \<Rightarrow> resource_slice \<Rightarrow> ('w, string list) node_handler" where
  "resourceSliceToNodes C R s =
     (if \<not> SupportsDriver R (sliceDriver s) then ret []
      else do {
        r \<leftarrow> GetResourceSlicesForPool C (ResourcePoolIDFromSlice s);
        case r of
          Inl e \<Rightarrow> ret []
        | Inr poolSlices \<Rightarrow> do {
            n \<leftarrow> poolNodeNames C (poolSlices @ [s]) [];
            case n of Inl e \<Rightarrow> ret [] | Inr names \<Rightarrow> ret (sort (remdups names)) } })"

section \<open>Announcing Slurm nodes\<close>

definition RefreshNodeCache :: "'w ncluster \<Rightarrow> ('w, nerr + unit) node_handler" where
  "RefreshNodeCache C = do {
     r \<leftarrow> slurmNames C Refreshed;
     ret (rmap (\<lambda>_. ()) r) }"

definition ListNodeNames :: "'w ncluster \<Rightarrow> ('w, nerr + string list) node_handler" where
  "ListNodeNames C = slurmNames C FromCache"

definition Sync_slurmnode :: "'w ncluster \<Rightarrow> ('w, nerr + string list) node_handler" where
  "Sync_slurmnode C = do {
     c \<leftarrow> RefreshNodeCache C;
     case c of
       Inl e \<Rightarrow> ret (Inl e)
     | Inr _ \<Rightarrow> do {
         s \<leftarrow> ListNodeNames C;
         case s of
           Inl e \<Rightarrow> ret (Inl e)
         | Inr slurmNodeNames \<Rightarrow> do {
             k \<leftarrow> listKubeNodes C None;
             case k of
               Inl e \<Rightarrow> ret (Inl e)
             | Inr kubeNodeList \<Rightarrow> ret (Inr (List.map_filter (map_of (MakeNodeNameMap kubeNodeList)) slurmNodeNames)) } } }"

end
