(* ===== verification/Node_Safety.thy ===== *)
theory Node_Safety
  imports Node_Sync
begin

text \<open>
  What justifies the writes of the node controller.  \<open>node_guard\<close> says of each write what the reads
  before it must have shown; every handler keeps it for every cluster, world and response.  The
  locale \<open>node_run\<close> proves this once for the handlers that neither delete nor undrain, under any
  policy that allows the writes of \<open>routine\<close>; it is interpreted on the guard and on the guard of a
  run without deletions, from which an undrain may start.
\<close>

section \<open>Evidence\<close>

definition known :: "nevent set \<Rightarrow> slurm_node \<Rightarrow> bool" where
  "known E n \<longleftrightarrow> (\<exists>k. NGet Direct k (Inr n) \<in> E) \<or> (\<exists>m u r. NUpdate m u r n \<in> E)"

definition created :: "nevent set \<Rightarrow> slurm_node \<Rightarrow> bool" where
  "created E n \<longleftrightarrow> (\<exists>conf. NCreate (snKey n) conf (Inr ()) \<in> E)"

abbreviation others :: "string list \<Rightarrow> string list" where
  "others fs \<equiv> filter (\<lambda>f. f \<noteq> SlurmFeatureGRESCompatible) fs"

text \<open>
  A new feature list: outside external nodes it differs from the last known list of the node only
  in the feature that the bridge owns.
\<close>

definition features_ok :: "nevent set \<Rightarrow> slurm_node \<Rightarrow> (slurm_node \<Rightarrow> string list option) \<Rightarrow> string list option \<Rightarrow> bool" where
  "features_ok E n sel fs0 \<longleftrightarrow> (\<forall>fs. fs0 = Some fs \<longrightarrow>
     (known E n \<and> has_state n EXTERNAL) \<or> (\<exists>m. known E m \<and> others fs = others (deref [] (sel m))))"

definition extra_ok :: "nevent set \<Rightarrow> slurm_node \<Rightarrow> string option \<Rightarrow> bool" where
  "extra_ok E n extra \<longleftrightarrow> extra \<noteq> None \<longrightarrow>
     created E n \<or> (\<exists>k. NGet Direct k (Inr n) \<in> E) \<and> (deref [] (snExtra n) = [] \<or> bridge_extra (deref [] (snExtra n)))"

definition drain_ok :: "nevent set \<Rightarrow> slurm_node \<Rightarrow> string option \<Rightarrow> bool" where
  "drain_ok E n reason \<longleftrightarrow> has_prefix (deref [] reason) nodeReasonPrefix \<and>
     (created E n \<or> (\<exists>k. NGet FromCache k (Inr n) \<in> E) \<and> \<not> has_state n DRAIN)"

definition bridge_drained :: "slurm_node \<Rightarrow> bool" where
  "bridge_drained n \<longleftrightarrow> has_state n DRAIN \<and> \<not> has_state n UNDRAIN \<and>
     (deref [] (snReason n) = [] \<or> strings_Contains (deref [] (snReason n)) nodeReasonPrefix)"

definition undrain_ok :: "string \<Rightarrow> nevent set \<Rightarrow> slurm_node \<Rightarrow> bool" where
  "undrain_ok req E n \<longleftrightarrow> (\<forall>k r. NDelete k r \<notin> E) \<and>
     (\<exists>node. KGet req (Inr node) \<in> E \<and> \<not> knUnschedulable node \<and> NGet Direct (GetSlurmNodeName node) (Inr n) \<in> E) \<and>
     bridge_drained n"

definition delete_ok :: "nevent set \<Rightarrow> string \<Rightarrow> bool" where
  "delete_ok E key \<longleftrightarrow> (\<exists>k n live. NGet Refreshed k (Inr n) \<in> E \<and> drained n \<and>
     NGet Direct k (Inr live) \<in> E \<and> snKey live = key)"

definition create_ok :: "nevent set \<Rightarrow> string \<Rightarrow> bool" where
  "create_ok E key \<longleftrightarrow> (\<exists>e. NGet Direct key (Inl e) \<in> E \<and> nerr_is SlurmNodeNotFound e)"

section \<open>The guard\<close>

definition update_ok :: "nevent set \<Rightarrow> slurm_node \<Rightarrow> node_update \<Rightarrow> bool" where
  "update_ok E n msg \<longleftrightarrow> features_ok E n snFeatures (upFeatures msg) \<and>
     features_ok E n snActiveFeatures (upFeaturesAct msg) \<and> extra_ok E n (upExtra msg)"

fun routine :: "nevent list \<Rightarrow> nevent \<Rightarrow> bool" where
  "routine past (NUpdate n msg r n') = (update_ok (set past) n msg \<and>
     (case upState msg of None \<Rightarrow> True | Some st \<Rightarrow> st = [DRAIN] \<and> drain_ok (set past) n (upReason msg)))"
| "routine past (NCreate key conf r) = create_ok (set past) key"
| "routine past (NDelete key r) = False"
| "routine past (KPatch old new r) = (new = old\<lparr>knTaints := knTaints new\<rparr>)"
| "routine past (KPatchStatus old new r) = (new = old\<lparr>knConditions := knConditions new\<rparr> \<and>
     filter (\<lambda>c. ncType c \<noteq> NodeConditionSlurmGRESCompatible) (knConditions new) =
     filter (\<lambda>c. ncType c \<noteq> NodeConditionSlurmGRESCompatible) (knConditions old))"
| "routine past e = True"

fun node_guard :: "string \<Rightarrow> nevent list \<Rightarrow> nevent \<Rightarrow> bool" where
  "node_guard req past (NUpdate n msg r n') = (update_ok (set past) n msg \<and>
     (case upState msg of None \<Rightarrow> True
      | Some st \<Rightarrow> st = [DRAIN] \<and> drain_ok (set past) n (upReason msg) \<or> st = [UNDRAIN] \<and> undrain_ok req (set past) n))"
| "node_guard req past (NDelete key r) = delete_ok (set past) key"
| "node_guard req past e = routine past e"

fun undeleted :: "string \<Rightarrow> nevent list \<Rightarrow> nevent \<Rightarrow> bool" where
  "undeleted req past (NDelete key r) = False"
| "undeleted req past e = node_guard req past e"

lemma routine_update [simp]:
  "routine past (case u of (r, n') \<Rightarrow> NUpdate n msg r n') = routine past (NUpdate n msg (fst u) (snd u))"
  by (cases u) simp

lemma update_ok_state [simp]: "update_ok E n (no_update\<lparr>upState := st, upReason := why\<rparr>)"
  "update_ok E n (no_update\<lparr>upTopology := topo\<rparr>)"
  by (simp_all add: update_ok_def features_ok_def extra_ok_def no_update_def)

lemma known_mono: "known E n \<Longrightarrow> E \<subseteq> F \<Longrightarrow> known F n"
  by (auto simp: known_def)

section \<open>Routine handlers\<close>

locale node_run =
  fixes P :: "nevent list \<Rightarrow> nevent \<Rightarrow> bool"
  assumes routine: "routine past e \<Longrightarrow> P past e"
begin

lemma run_read:
  assumes "\<And>past r. routine past (ev r)" "\<And>r. keeps (run P (insert (ev r) F)) (g r)"
  shows "keeps (run P F) (State_Monad.bind (call f ev) g)"
  by (rule run_call_bind) (auto intro: routine assms)

lemma run_write:
  assumes "\<And>past r. F \<subseteq> set past \<Longrightarrow> routine past (ev r)" "\<And>r. keeps (run P (insert (ev r) F)) (g r)"
  shows "keeps (run P F) (State_Monad.bind (call f ev) g)"
  by (rule run_call_bind) (auto intro: routine assms)

lemma run_last: "(\<And>past r. F \<subseteq> set past \<Longrightarrow> routine past (ev r)) \<Longrightarrow> keeps (run P F) (call f ev)"
  by (rule run_call) (auto intro: routine)

lemmas paths = keeps_ret keeps_if keeps_case_sum keeps_case_option keeps_case_prod

lemma MakeNodeDrain_run: "keeps (run P F) (MakeNodeDrain C node reason)"
  unfolding MakeNodeDrain_def node_calls
  by (intro paths run_read run_write) (auto simp: drain_ok_def nodeReasonPrefix_def has_prefix_def)

lemma slices_run: "keeps (run P F) (GetResourceSlicesForPool C i)"
  unfolding GetResourceSlicesForPool_def node_calls by (intro paths run_read) auto

lemma pools_run: "keeps (run P F) (poolsLoop C qs vis out)"
proof (induction qs arbitrary: F vis out)
  case (Cons q qs)
  then show ?case by (auto intro!: keeps_bind slices_run)
qed simp

lemma node_slices_run: "keeps (run P F) (GetResourceSlicesForNode C n)"
  unfolding GetResourceSlicesForNode_def node_calls by (intro paths run_read run_last pools_run) auto

lemma name_run: "keeps (run P F) (GetNodeNameForSlurmName C v)"
  unfolding GetNodeNameForSlurmName_def node_calls by (intro paths run_read) auto

lemma current_run: "keeps (run P F) (currentNode C node)"
  unfolding currentNode_def node_calls by (intro keeps_bind paths run_last name_run) auto

lemma taint_run: "keeps (run P F) (taintNode L C cfg node)" "keeps (run P F) (untaintNode L C cfg node)"
  unfolding taintNode_def untaintNode_def Let_def node_calls
  by (intro keeps_bind paths run_last current_run; simp)+

lemma exists_run: "keeps (run P F) (NodeExists C node)" "keeps (run P F) (IsNodeExternal C node)"
  "keeps (run P F) (NodeNeedsRecreate L C node info inventory)"
  unfolding NodeExists_def IsNodeExternal_def NodeNeedsRecreate_def node_calls by (intro paths run_read; simp)+

lemma syncTaint_run: "keeps (run P F) (syncTaint L C cfg req)"
  unfolding syncTaint_def node_calls
  by (intro paths run_read keeps_bind [OF exists_run(1)] taint_run) auto

lemma setNodeCondition_others:
  "ncType c = t \<Longrightarrow> filter (\<lambda>d. ncType d \<noteq> t) (setNodeCondition cs c) = filter (\<lambda>d. ncType d \<noteq> t) cs"
  by (induction cs) auto

lemma condition_run:
  "keeps (run P F) (setSlurmGRESCompatibilityCondition C node status reason message)"
  "keeps (run P F) (clearSlurmGRESCompatibilityCondition C node)"
  unfolding setSlurmGRESCompatibilityCondition_def clearSlurmGRESCompatibilityCondition_def Let_def node_calls
  by (intro paths run_write; simp add: setNodeCondition_others)+

lemma updateFeature_run:
  assumes "\<And>E n. F \<subseteq> E \<Longrightarrow> update_ok E n msg" "upState msg = None"
  shows "keeps (run P F) (updateFeature C changed msg sn)"
  unfolding updateFeature_def node_calls by (intro paths run_write) (auto simp: assms)

lemma feature_run:
  assumes "known F sn"
  shows "keeps (run P F) (updateGRESCompatibilityFeature C sn compatible)"
proof -
  let ?m = "\<lambda>sel. updateFeatureList (deref [] (sel sn)) SlurmFeatureGRESCompatible compatible"
  have "update_ok E n (no_update\<lparr>upFeatures := Some (?m snFeatures)\<rparr>)"
    "update_ok E n (no_update\<lparr>upFeaturesAct := Some (?m snActiveFeatures)\<rparr>)" if "F \<subseteq> E" for E n
    using known_mono [OF assms that] by (auto simp: update_ok_def features_ok_def extra_ok_def no_update_def updateFeatureList_def)
  then have "keeps (run P F) (updateFeature C ch (no_update\<lparr>upFeatures := Some (?m snFeatures)\<rparr>) n)"
    "keeps (run P F) (updateFeature C ch (no_update\<lparr>upFeaturesAct := Some (?m snActiveFeatures)\<rparr>) n)" for ch n
    by (auto intro!: updateFeature_run simp: no_update_def)
  then show ?thesis
    unfolding updateGRESCompatibilityFeature_def Let_def
    by (cases compatible) (auto intro!: keeps_bind)
qed

lemma disable_run: "keeps (run P F) (DisableNodeGRESCompatibility C node)"
  unfolding DisableNodeGRESCompatibility_def slurmNode_def
  by (intro paths run_read feature_run) (auto simp: known_def)

lemma incompatible_run: "known F sn \<Longrightarrow> keeps (run P F) (incompatible C sn e)"
  unfolding incompatible_def by (intro keeps_bind paths feature_run)

lemma hybrid_run:
  assumes live: "NGet Direct k (Inr sn) \<in> F"
  shows "keeps (run P F) (reconcileHybridNode L C sn info gresConfig)"
proof -
  have F: "known F sn" using live by (auto simp: known_def)
  have "update_ok E sn (no_update\<lparr>upExtra := Some extra\<rparr>)"
    if "F \<subseteq> E" "deref [] (snExtra sn) = [] \<or> bridge_extra (deref [] (snExtra sn))" for E extra
    using live that by (auto simp: update_ok_def features_ok_def extra_ok_def no_update_def)
  moreover have "known (insert (NUpdate sn msg r n) F) n" for msg r n by (auto simp: known_def)
  ultimately show ?thesis
    unfolding reconcileHybridNode_def updateNodeExtra_def Let_def node_calls
    by (intro paths keeps_nested run_write incompatible_run feature_run) (auto simp: F no_update_def split: prod.splits)
qed

lemma partition_run: "keeps (run P F) (for_each (\<lambda>partition. do {
    v \<leftarrow> validatePartitionExists C partition;
    case v of Inl e \<Rightarrow> ret (Inl (NWrapped ''validate partition'' e)) | Inr _ \<Rightarrow> ret (Inr ()) }) ps)"
  by (induction ps) (auto simp: validatePartitionExists_def node_calls intro!: keeps_bind run_last)

lemma features_run: "keeps (run P F) (desiredNodeFeatures C anns)"
  unfolding desiredNodeFeatures_def Let_def by (intro keeps_bind paths partition_run)

lemma updateNodeFeatures_run:
  assumes "known F sn" "has_state sn EXTERNAL"
  shows "keeps (run P F) (updateNodeFeatures C node sn)"
proof -
  have "update_ok E sn (no_update\<lparr>upFeatures := Some fs, upFeaturesAct := Some fs\<rparr>)" if "F \<subseteq> E" for E fs
    using known_mono [OF assms(1) that] assms(2) by (auto simp: update_ok_def features_ok_def extra_ok_def no_update_def)
  then show ?thesis
    unfolding updateNodeFeatures_def Let_def slurmUpdate_def
    by (intro keeps_bind [OF features_run] paths run_write) (auto simp: no_update_def)
qed

lemma topology_run: "keeps (run P F) (updateNodeTopology C node sn)"
  unfolding updateNodeTopology_def Let_def node_calls 
  by (intro paths run_write) (auto simp: update_ok_def features_ok_def extra_ok_def no_update_def)

lemma existing_run:
  assumes "NGet Direct k (Inr sn) \<in> F"
  shows "keeps (run P F) (updateExistingNode L C node sn info gresConfig)"
proof -
  have "known F sn" using assms by (auto simp: known_def)
  then show ?thesis
    unfolding updateExistingNode_def
    by (intro paths hybrid_run [OF assms] keeps_bind updateNodeFeatures_run topology_run) auto
qed

lemma create_run:
  assumes "NGet Direct (GetSlurmNodeName node) (Inl e) \<in> F" "nerr_is SlurmNodeNotFound e"
  shows "keeps (run P F) (createNode C node cpu cfg extra)"
proof -
  let ?n = "named_node (GetSlurmNodeName node)"
  have c: "created E ?n" if "NCreate (GetSlurmNodeName node) conf (Inr ()) \<in> E" for E conf
    using that by (auto simp: created_def named_node_def)
  then have "update_ok E ?n (no_update\<lparr>upExtra := Some x\<rparr>)" "update_ok E ?n (no_update\<lparr>upExtra := Some x, upState := st, upReason := why\<rparr>)"
    if "NCreate (GetSlurmNodeName node) conf (Inr ()) \<in> E" for E conf x st why
    using that by (auto simp: update_ok_def features_ok_def extra_ok_def no_update_def)
  moreover have "create_ok E (GetSlurmNodeName node)" if "F \<subseteq> E" for E
    using assms that by (auto simp: create_ok_def)
  ultimately show ?thesis
    unfolding createNode_def node_calls
    by (intro keeps_bind [OF features_run] paths run_write)
      (auto simp: no_update_def drain_ok_def has_prefix_def nodeReasonPrefix_def c)
qed

lemma AddNode_run: "keeps (run P F) (AddNode L C node info inventory)"
  unfolding AddNode_def slurmNode_def
  by (intro paths run_read existing_run create_run) auto

lemma UpdateHybridNode_run: "keeps (run P F) (UpdateHybridNode L C node info inventory)"
  unfolding UpdateHybridNode_def slurmNode_def
  by (intro paths run_read hybrid_run) auto

lemma record_run:
  "keeps (run P F) (recordSlurmGRESCompatibilityError L C node e)"
  "keeps (run P F) (recordNodeRegistrationError L C node e)"
  "keeps (run P F) (recordIncompatibleSlurmGRESError L C node e)"
  unfolding recordNodeRegistrationError_def recordIncompatibleSlurmGRESError_def recordSlurmGRESCompatibilityError_def
  by (intro keeps_bind paths condition_run disable_run)+

lemma inventories_run: "keeps (run P F) (nodeRegistrationInventories L C cfg node)"
  unfolding nodeRegistrationInventories_def emitEvent_def
  by (intro keeps_bind [OF node_slices_run] paths run_read) auto

lemma register_run: "keeps (run P F) (registerNode L C node info inventory owns)"
  unfolding registerNode_def by (intro keeps_bind paths AddNode_run record_run condition_run)

end

lemma routine_guard: "routine past e \<Longrightarrow> node_guard req past e"
  by (cases e) (auto split: option.splits)

lemma routine_undeleted: "routine past e \<Longrightarrow> undeleted req past e"
  by (cases e) (auto split: option.splits)

lemma undeleted_guard: "undeleted req past e \<Longrightarrow> node_guard req past e"
  by (cases e) auto

interpretation any: node_run "node_guard req" for req
  by unfold_locales (rule routine_guard)

interpretation calm: node_run "undeleted req" for req
  by unfold_locales (rule routine_undeleted)

section \<open>Removal and undrain\<close>

lemma undeleted_trace: "guarded (undeleted req) [] past \<Longrightarrow> NDelete k r \<notin> set past"
proof
  assume g: "guarded (undeleted req) [] past" and "NDelete k r \<in> set past"
  then obtain pre post where "past = pre @ NDelete k r # post" by (auto simp: in_set_conv_decomp)
  then show False using g by simp
qed

lemma removal_run: "keeps (run (node_guard req) F) (removeNodeFromSlurmAfterDrain C req' node)"
  unfolding removeNodeFromSlurmAfterDrain_def IsNodeDrained_def RemoveNode_def node_calls
  apply (intro keeps_bind [OF any.MakeNodeDrain_run] any.paths keeps_nested run_call_bind)
  apply (auto simp: delete_ok_def rmap_def split: sum.splits)
  done

lemma skip_bridge_drained: "shouldSkipUndrain n \<longleftrightarrow> \<not> bridge_drained n"
  by (auto simp: shouldSkipUndrain_def bridge_drained_def Let_def)

lemma undrain_run:
  assumes "KGet req (Inr node) \<in> F" "\<not> knUnschedulable node"
  shows "keeps (run (undeleted req) F) (MakeNodeUndrain C node reason)"
proof -
  have "undrain_ok req (set past) live"
    if "guarded (undeleted req) [] past" "F \<subseteq> set past" "NGet Direct (GetSlurmNodeName node) (Inr live) \<in> set past"
      "bridge_drained live" for past live
    unfolding undrain_ok_def using undeleted_trace [OF that(1)] that(2-4) assms by blast
  then show ?thesis
    unfolding MakeNodeUndrain_def node_calls skip_bridge_drained
    by (intro any.paths run_call_bind) auto
qed

lemma syncState_calm: "keeps (safe (undeleted req)) (syncState C req allow)"
  unfolding syncState_def getKubeNode_def run_empty [symmetric]
  by (intro any.paths run_call_bind calm.MakeNodeDrain_run undrain_run) auto

lemma syncState_any: "keeps (safe (node_guard req)) (syncState C req False)"
  unfolding syncState_def getKubeNode_def run_empty [symmetric]
  by (intro any.paths run_call_bind any.MakeNodeDrain_run) auto

section \<open>The reconcile run\<close>

text \<open>After registration the trace is guarded, and free of deletions unless registration owns the drain.\<close>

definition settled :: "string \<Rightarrow> bool \<times> (nerr + unit) \<Rightarrow> ('w, nevent) sys \<Rightarrow> bool" where
  "settled req r t \<longleftrightarrow> safe (node_guard req) t \<and> (fst r \<or> safe (undeleted req) t)"

lemma settled_calm: "keeps (run (undeleted req) {}) m \<Longrightarrow> safe (undeleted req) s \<Longrightarrow> wp m (settled req) s"
  unfolding run_empty settled_def
  by (rule wp_mono, erule (1) keepsD) (auto elim: safe_weaken intro: undeleted_guard)

lemma settled_bind:
  "keeps (run (undeleted req) {}) m \<Longrightarrow> (\<And>a t. safe (undeleted req) t \<Longrightarrow> wp (f a) (settled req) t) \<Longrightarrow>
    safe (undeleted req) s \<Longrightarrow> wp (State_Monad.bind m f) (settled req) s"
  unfolding run_empty wp_bind by (rule wp_mono, erule (1) keepsD) blast

lemma settled_owned:
  "keeps (run (node_guard req) {}) m \<Longrightarrow> (\<And>s. wp m (\<lambda>r _. fst r) s) \<Longrightarrow> safe (undeleted req) s \<Longrightarrow> wp m (settled req) s"
  unfolding run_empty settled_def
  by (rule wp_mono, rule wp_conj, erule keepsD) (auto elim: safe_weaken intro: undeleted_guard)

lemma register_owned: "wp (registerNode L C node info inventory True) (\<lambda>r _. fst r) s"
  unfolding registerNode_def by (intro wp_intros wp_total) (auto split: sum.splits intro!: wp_total)

lemma recreate_settled:
  assumes "safe (undeleted req) s"
  shows "wp (do { d \<leftarrow> removeNodeFromSlurmAfterDrain C req node;
      case d of Inl e \<Rightarrow> ret (True, Inl e)
      | Inr removed \<Rightarrow> if \<not> removed then ret (True, Inr ()) else registerNode L C node info inventory True }) (settled req) s"
proof (rule settled_owned [OF _ _ assms])
  show "keeps (run (node_guard req) {}) (do { d \<leftarrow> removeNodeFromSlurmAfterDrain C req node;
      case d of Inl e \<Rightarrow> ret (True, Inl e)
      | Inr removed \<Rightarrow> if \<not> removed then ret (True, Inr ()) else registerNode L C node info inventory True })"
    by (intro keeps_bind any.paths removal_run any.register_run)
qed (unfold wp_bind, rule wp_total, simp add: register_owned split: sum.split)

lemma syncLabeled_settled: "safe (undeleted req) s \<Longrightarrow> wp (syncLabeled L C cfg req node) (settled req) s"
  unfolding syncLabeled_def
  by (intro settled_bind [OF calm.inventories_run] settled_bind [OF calm.exists_run(1)] settled_bind [OF calm.exists_run(3)]
      settled_bind [OF calm.record_run(2)] wp_case_sumI wp_case_prodI wp_ifI recreate_settled
      settled_calm [OF calm.register_run] settled_calm [OF keeps_ret])

lemma unlabel_settled:
  assumes "safe (undeleted req) s"
  shows "wp (do { d \<leftarrow> removeNodeFromSlurmAfterDrain C req node; ret (True, rmap (\<lambda>_. ()) d) }) (settled req) s"
proof (rule settled_owned [OF _ _ assms])
  show "keeps (run (node_guard req) {}) (do { d \<leftarrow> removeNodeFromSlurmAfterDrain C req node; ret (True, rmap (\<lambda>_. ()) d) })"
    by (intro keeps_bind any.paths removal_run)
qed (unfold wp_bind, rule wp_total, simp)

lemma syncUnlabeled_settled: "safe (undeleted req) s \<Longrightarrow> wp (syncUnlabeled L C cfg req node) (settled req) s"
  unfolding syncUnlabeled_def
  by (intro settled_bind [OF calm.inventories_run] settled_bind [OF calm.exists_run(1)] settled_bind [OF calm.exists_run(2)]
      settled_bind [OF calm.record_run(2)] settled_bind [OF calm.record_run(1)] settled_bind [OF calm.condition_run(1)]
      settled_bind [OF calm.condition_run(2)] settled_bind [OF calm.UpdateHybridNode_run]
      wp_case_sumI wp_case_prodI wp_ifI unlabel_settled settled_calm [OF keeps_ret])

lemma getKubeNode_calm: "keeps (run (undeleted req) F) (getKubeNode C n)"
  unfolding getKubeNode_def by (rule calm.run_last) simp

lemma syncNodeRegistration_settled: "safe (undeleted req) s \<Longrightarrow> wp (syncNodeRegistration L C cfg req) (settled req) s"
  unfolding syncNodeRegistration_def
  by (intro settled_bind [OF getKubeNode_calm] wp_case_sumI wp_ifI syncLabeled_settled syncUnlabeled_settled
      settled_calm [OF keeps_ret])

lemma popDelay_any: "keeps (safe (node_guard req)) (popDelay k)"
  unfolding popDelay_def by (rule keeps_call) simp

lemma Sync_node_safe:
  fixes C :: "'w ncluster"
  assumes "trace s = []" shows "wp (Sync_node L C cfg req) (\<lambda>_ t. safe (node_guard req) t) s"
proof -
  have s: "safe (undeleted req) s" using assms by (simp add: safe_def)
  show ?thesis
    unfolding Sync_node_def wp_bind
  proof (rule wp_mono [OF syncNodeRegistration_settled [OF s]])
    fix reg and t :: "'w node_sys" assume t: "settled req reg t"
    let ?allow = "is_ok (snd reg) \<and> \<not> fst reg"
    show "wp (syncTaint L C cfg req) (\<lambda>a. wp (syncState C req ?allow) (\<lambda>st. wp (ret (njoin [snd reg, a, st])) (\<lambda>_. safe (node_guard req)))) t"
    proof (cases ?allow)
      case True
      then have "safe (undeleted req) t" using t by (simp add: settled_def)
      then have "wp (syncTaint L C cfg req) (\<lambda>a. wp (syncState C req ?allow) (\<lambda>st. safe (undeleted req))) t"
        by (auto elim!: wp_mono [OF keepsD [OF calm.syncTaint_run [where F = "{}", unfolded run_empty]]]
            wp_mono [OF keepsD [OF syncState_calm]])
      then show ?thesis by (auto elim!: wp_mono safe_weaken intro: undeleted_guard)
    next
      case False
      then have allow: "?allow = False" by blast
      have "safe (node_guard req) t" using t by (simp add: settled_def)
      then show ?thesis unfolding allow
        by (auto elim!: wp_mono [OF keepsD [OF any.syncTaint_run [where F = "{}", unfolded run_empty]]]
            wp_mono [OF keepsD [OF syncState_any]])
    qed
  qed
qed


end
