(* ===== verification/Node_Requeue.thy ===== *)
theory Node_Requeue
  imports Node_Safety
begin

text \<open>
  The requeue delays of the node controller.  The locale \<open>node_frame\<close> carries a property of the
  state that every call of a sync keeps through all handlers; it is interpreted on the property
  that relates the delays left in the store to the delays that were pushed.
\<close>

locale node_frame =
  fixes I :: "'w node_sys \<Rightarrow> bool" and C :: "'w ncluster"
  assumes calls: "keeps I (slurmNode C mode key)" "keeps I (slurmPartition C key)" "keeps I (slurmUpdate C sn msg)"
      "keeps I (slurmCreate C key conf)" "keeps I (slurmRemove C key)" "keeps I (getKubeNode C name)"
      "keeps I (patchKubeNode C old new)" "keeps I (patchKubeStatus C old new)" "keeps I (listKubeNodes C nsel)"
      "keeps I (listSlices C ssel)" "keeps I (emitEvent C name why)" "keeps I (readClock C)" "keeps I (pushDelay key d)"
begin

lemmas path = keeps_bind keeps_ret keeps_if keeps_case_sum keeps_case_option keeps_case_prod calls

lemma pools: "keeps I (poolsLoop C qs vis out)"
proof (induction qs arbitrary: vis out)
  case (Cons q qs)
  then show ?case unfolding poolsLoop.simps GetResourceSlicesForPool_def by (intro path)
qed simp

lemma slices: "keeps I (GetResourceSlicesForNode C n)"
  unfolding GetResourceSlicesForNode_def by (intro path pools)

lemma names: "keeps I (GetNodeNameForSlurmName C v)"
  unfolding GetNodeNameForSlurmName_def by (intro path)

lemma taints: "keeps I (taintNode L C cfg node)" "keeps I (untaintNode L C cfg node)"
  unfolding taintNode_def untaintNode_def currentNode_def Let_def by (intro path names)+

lemma reads: "keeps I (NodeExists C node)" "keeps I (IsNodeExternal C node)" "keeps I (IsNodeDrained C node)"
  "keeps I (NodeNeedsRecreate L C node info inventory)"
  unfolding NodeExists_def IsNodeExternal_def IsNodeDrained_def NodeNeedsRecreate_def by (intro path)+

lemma drains: "keeps I (MakeNodeDrain C node reason)" "keeps I (MakeNodeUndrain C node reason)" "keeps I (RemoveNode C node)"
  unfolding MakeNodeDrain_def MakeNodeUndrain_def RemoveNode_def by (intro path)+

lemma conditions: "keeps I (setSlurmGRESCompatibilityCondition C node status reason message)"
  "keeps I (clearSlurmGRESCompatibilityCondition C node)"
  unfolding setSlurmGRESCompatibilityCondition_def clearSlurmGRESCompatibilityCondition_def Let_def by (intro path)+

lemma feature: "keeps I (updateGRESCompatibilityFeature C sn compatible)"
  unfolding updateGRESCompatibilityFeature_def updateFeature_def Let_def
  by (cases compatible) (simp_all only: if_True if_False prod.case, (intro path)+)

lemma errors: "keeps I (recordSlurmGRESCompatibilityError L C node e)" "keeps I (DisableNodeGRESCompatibility C node)"
  "keeps I (recordNodeRegistrationError L C node e)" "keeps I (recordIncompatibleSlurmGRESError L C node e)"
  unfolding recordNodeRegistrationError_def recordIncompatibleSlurmGRESError_def recordSlurmGRESCompatibilityError_def
    DisableNodeGRESCompatibility_def
  by (intro path conditions feature)+

lemma hybrid: "keeps I (reconcileHybridNode L C sn info gresConfig)"
  unfolding reconcileHybridNode_def updateNodeExtra_def incompatible_def Let_def by (intro path feature)

lemma partitions: "keeps I (for_each (\<lambda>partition. do {
    v \<leftarrow> validatePartitionExists C partition;
    case v of Inl e \<Rightarrow> ret (Inl (NWrapped ''validate partition'' e)) | Inr _ \<Rightarrow> ret (Inr ()) }) ps)"
  by (induction ps) (auto simp: validatePartitionExists_def intro!: path)

lemma features: "keeps I (desiredNodeFeatures C anns)"
  unfolding desiredNodeFeatures_def Let_def by (intro path partitions)

lemma AddNode: "keeps I (AddNode L C node info inventory)"
  unfolding AddNode_def updateExistingNode_def updateNodeFeatures_def updateNodeTopology_def createNode_def Let_def
  by (intro path hybrid features)

lemma inventories: "keeps I (nodeRegistrationInventories L C cfg node)"
  unfolding nodeRegistrationInventories_def by (intro path slices)

lemma register: "keeps I (registerNode L C node info inventory owns)"
  unfolding registerNode_def by (intro path AddNode errors conditions)

lemma removal: "keeps I (removeNodeFromSlurmAfterDrain C req node)"
  unfolding removeNodeFromSlurmAfterDrain_def by (intro path drains reads)

lemma Sync_node: "keeps I (Sync_node L C cfg req)"
  unfolding Sync_node_def syncNodeRegistration_def syncLabeled_def syncUnlabeled_def syncTaint_def syncState_def UpdateHybridNode_def
  by (intro path inventories reads errors register removal conditions hybrid taints drains)

end

section \<open>Delays in the store\<close>

abbreviation store :: "'w node_sys \<Rightarrow> duration_store" where "store s \<equiv> snd (world s)"

text \<open>
  Until a request is popped, a delay is stored under each pushed key, no shorter than any pushed
  one, and under the request's key only if it was pushed.
\<close>

definition delays_kept :: "string \<Rightarrow> 'w node_sys \<Rightarrow> bool" where
  "delays_kept req s \<longleftrightarrow> store_ok (store s) \<and>
     ((\<forall>x. DPush (requestKey req) x \<notin> events s) \<longrightarrow> delays (store s) (requestKey req) = None) \<and>
     (\<forall>k x. DPush k x \<in> events s \<longrightarrow> (\<exists>y\<ge>x. delays (store s) k = Some y))"

lemma keeps_outside:
  assumes "\<And>r k x. ev r \<noteq> DPush k x"
  shows "keeps (delays_kept req) (call (outside f) ev)"
  unfolding keeps_def delays_kept_def wp_call outside_def
  using assms by (auto split: prod.splits) (metis snd_conv)+

lemma keeps_push: "keeps (delays_kept req) (pushDelay key d)"
  unfolding keeps_def delays_kept_def wp_call pushDelay_def
  by (auto simp: store_ok_Push delays_Push kept_def Greater_def split: prod.splits option.splits) fastforce+

interpretation requeue: node_frame "delays_kept req" C for req C
  unfolding node_frame_def
  by (intro conjI allI keeps_push; (unfold node_calls, rule keeps_outside, simp split: prod.split)?)

lemma Reconcile_node_delays:
  assumes "delays_kept req s"
  shows "wp (Reconcile_node L C cfg req) (\<lambda>(d, _) t.
     ((\<forall>x. DPush (requestKey req) x \<notin> events t) \<longrightarrow> d = 0) \<and>
     (\<forall>x. DPush (requestKey req) x \<in> events t \<longrightarrow> x \<le> d) \<and>
     (\<forall>k x. k \<noteq> requestKey req \<and> DPush k x \<in> events t \<longrightarrow> x \<le> Peek k (store t))) s"
  unfolding Reconcile_node_def wp_bind
proof (rule wp_mono [OF keepsD [OF requeue.Sync_node assms]], elim conjE)
  fix r and t :: "'a node_sys"
  assume t: "delays_kept req t"
  obtain w st where st: "world t = (w, st)" by fastforce
  show "wp (popDelay (requestKey req)) (\<lambda>d. wp (popDelay (requestKey req)) (\<lambda>_. wp (ret (d, r)) (\<lambda>(d, _) t.
     ((\<forall>x. DPush (requestKey req) x \<notin> events t) \<longrightarrow> d = 0) \<and>
     (\<forall>x. DPush (requestKey req) x \<in> events t \<longrightarrow> x \<le> d) \<and>
     (\<forall>k x. k \<noteq> requestKey req \<and> DPush k x \<in> events t \<longrightarrow> x \<le> Peek k (store t))))) t"
  proof -
    have p: "fst (Pop (requestKey req) st) = (case delays st (requestKey req) of None \<Rightarrow> 0 | Some d \<Rightarrow> d)"
      by (rule Pop_value)
    have k: "delays (snd (Pop k (snd (Pop k st)))) = (delays st)(k := None)" for k by (simp add: delays_Pop)
    obtain d1 st1 where 1: "Pop (requestKey req) st = (d1, st1)" by fastforce
    obtain d2 st2 where 2: "Pop (requestKey req) st1 = (d2, st2)" by fastforce
    have "delays st2 = (delays st)(requestKey req := None)" using k [of "requestKey req"] 1 2 by simp
    note st2 = this
    have d1: "d1 = (case delays st (requestKey req) of None \<Rightarrow> 0 | Some d \<Rightarrow> d)" using p 1 by simp
    have kept: "\<exists>y\<ge>x. delays st k = Some y" if "DPush k x \<in> events t" for k x
      using t that by (simp add: delays_kept_def st)
    have "(\<forall>x. DPush (requestKey req) x \<notin> events t) \<longrightarrow> d1 = 0"
      using t d1 by (simp add: delays_kept_def st)
    moreover have "\<forall>x. DPush (requestKey req) x \<in> events t \<longrightarrow> x \<le> d1"
      using kept [of "requestKey req"] d1 by fastforce
    moreover have "\<forall>k x. k \<noteq> requestKey req \<and> DPush k x \<in> events t \<longrightarrow> x \<le> Peek k st2"
      using kept by (fastforce simp: Peek_value st2)
    ultimately show ?thesis
      by (simp add: popDelay_def wp_call st 1 2)
  qed
qed

section \<open>Bridged nodes\<close>

text \<open>Every call appends to the trace, so no event is lost.\<close>

lemma keeps_log: "keeps (\<lambda>_. True) (call f ev)"
  unfolding keeps_def by (auto intro!: wp_callI)

interpretation log: node_frame "\<lambda>_. True" C for C
  unfolding node_frame_def node_calls by (intro conjI allI keeps_log)

lemma logged: "keeps (\<lambda>_. True) m \<Longrightarrow> e \<in> events s \<Longrightarrow> wp m (\<lambda>_ t. e \<in> events t) s"
  using keepsD [of "\<lambda>_. True" m s] by (auto elim!: wp_mono)

lemma syncTaint_pushes:
  assumes "\<And>w. fst (kubeGet C req w) = Inr node"
    and "\<And>w. is_ok (fst (nodeGet C FromCache (GetSlurmNodeName node) w))"
  shows "wp (syncTaint L C cfg req) (\<lambda>_ t. DPush (knName node) requeueDelay \<in> events t) s"
proof -
  have e: "\<exists>sn. fst (nodeGet C FromCache (GetSlurmNodeName node) w) = Inr sn" for w
    using assms(2) [of w] by (cases "fst (nodeGet C FromCache (GetSlurmNodeName node) w)") (auto simp: is_ok_def)
  obtain w st w1 where 1: "world s = (w, st)" "kubeGet C req w = (Inr node, w1)"
    using assms(1) by (metis prod.collapse)
  obtain sn w2 where 2: "nodeGet C FromCache (GetSlurmNodeName node) w1 = (Inr sn, w2)"
    using e [of w1] by (metis prod.collapse)
  show ?thesis
    unfolding syncTaint_def NodeExists_def node_calls
    by (simp add: wp_call outside_def 1 2 logged [OF log.taints(1)])
qed

lemma Reconcile_node_pushes:
  assumes "\<And>w. fst (kubeGet C req w) = Inr node"
    and "\<And>w. is_ok (fst (nodeGet C FromCache (GetSlurmNodeName node) w))"
  shows "wp (Reconcile_node L C cfg req) (\<lambda>_ t. DPush (knName node) requeueDelay \<in> events t) s"
proof -
  have state: "keeps (\<lambda>_. True) (syncState C req a)" for a
    unfolding syncState_def by (intro log.path log.drains)
  have pop: "keeps (\<lambda>_. True) (popDelay k)" for k unfolding popDelay_def by (rule keeps_log)
  show ?thesis
    unfolding Reconcile_node_def Sync_node_def wp_bind
    by (rule wp_total, rule wp_mono [OF syncTaint_pushes [OF assms]], rule wp_mono [OF logged [OF state]], assumption,
        rule wp_retI, rule wp_mono [OF logged [OF pop]], assumption, rule wp_mono [OF logged [OF pop]], assumption, simp)
qed

text \<open>
  C37. The 30 seconds after which a bridged node is to be looked at again are pushed under the node's
  name but popped under the request's key, which starts with a slash: they are never returned. When
  the Kubernetes node is read and its Slurm node exists, a reconcile that does not wait for a drain
  returns no requeue delay and leaves the delay in the store under the node's name. The delay of a
  node that is still draining is pushed under the request's key and is returned.
\<close>

theorem bridged_requeue_lost:
  assumes "\<And>w. fst (kubeGet C req w) = Inr node" "knName node = req"
    and "\<And>w. is_ok (fst (nodeGet C FromCache (GetSlurmNodeName node) w))"
    and "store_ok st" "delays st (requestKey req) = None"
  shows "case run_state (Reconcile_node L C cfg req) \<lparr>world = (w, st), trace = []\<rparr> of ((d, _), t) \<Rightarrow>
    requeueDelay \<le> Peek req (snd (world t)) \<and>
    ((\<forall>x. DPush (requestKey req) x \<notin> set (trace t)) \<longrightarrow> d = 0) \<and>
    (\<forall>x. DPush (requestKey req) x \<in> set (trace t) \<longrightarrow> x \<le> d)"
proof -
  let ?s = "\<lparr>world = (w, st), trace = []\<rparr>"
  have "delays_kept req ?s" using assms by (simp add: delays_kept_def)
  from Reconcile_node_delays [OF this, of L C cfg] Reconcile_node_pushes [OF assms(1,3), of L cfg ?s]
  have "wp (Reconcile_node L C cfg req) (\<lambda>(d, _) t. requeueDelay \<le> Peek req (snd (world t)) \<and>
    ((\<forall>x. DPush (requestKey req) x \<notin> set (trace t)) \<longrightarrow> d = 0) \<and>
    (\<forall>x. DPush (requestKey req) x \<in> set (trace t) \<longrightarrow> x \<le> d)) ?s"
    by (rule wp_mono [OF wp_conj]) (auto simp: assms(2) requestKey_def)
  then show ?thesis by (simp add: wp_def case_prod_beta)
qed

definition sample_lib :: node_lib where
  "sample_lib = \<lparr>libCel = model_cel, libJson = model_codec, libParse = model_parse, libShow = \<lambda>_. [],
     libHash = sample_hash, libLabel = \<lambda>_. True, AddOrUpdateTaint = \<lambda>ts t. Inr (ts @ [t], True),
     DeleteTaint = \<lambda>ts t. (filter (\<lambda>u. u \<noteq> t) ts, t \<in> set ts), errText = \<lambda>_. []\<rparr>"

definition sample_kube_node :: kube_node where
  "sample_kube_node = \<lparr>knName = ''n1'', knLabels = [], knAnnotations = [], knUnschedulable = False, knTaints = [],
     knConditions = [], knAddresses = [], knCPU = 4, knMemory = 0\<rparr>"

definition bridged_client :: "unit ncluster" where
  "bridged_client = (stored_client [sample_kube_node] [])\<lparr>nodeGet := \<lambda>_ key w. (Inr (named_node key), w)\<rparr>"

definition sample_node_config :: node_config where
  "sample_node_config = \<lparr>nodeScheduler = ''slurm-bridge'', nodeRegistry = None, nodeRecorder = False\<rparr>"

theorem bridged_requeue_lost_witness:
  "case run_state (Reconcile_node sample_lib bridged_client sample_node_config ''n1'') start of ((d, _), t) \<Rightarrow>
    requeueDelay \<le> Peek ''n1'' (snd (world t)) \<and>
    ((\<forall>x. DPush (requestKey ''n1'') x \<notin> set (trace t)) \<longrightarrow> d = 0) \<and>
    (\<forall>x. DPush (requestKey ''n1'') x \<in> set (trace t) \<longrightarrow> x \<le> d)"
  unfolding start_def
  by (rule bridged_requeue_lost [of bridged_client "''n1''" sample_kube_node])
    (simp_all add: bridged_client_def stored_client_def sample_kube_node_def is_ok_def)

section \<open>Progress of removal\<close>

lemma wp_answers:
  "(\<And>w t. Qa (fst (nodeGet C mode key w)) t) \<Longrightarrow> wp (slurmNode C mode key) Qa s"
  "(\<And>w t. Qb (fst (kubeGet C n w)) t) \<Longrightarrow> wp (getKubeNode C n) Qb s"
  "(\<And>w t. Qc (fst (kubePatchStatus C old new w)) t) \<Longrightarrow> wp (patchKubeStatus C old new) Qc s"
  "(\<And>w t. NDelete key (fst (nodeDelete C key w)) \<in> events t \<Longrightarrow> Qd (fst (nodeDelete C key w)) t) \<Longrightarrow> wp (slurmRemove C key) Qd s"
  by (simp_all add: node_calls wp_call outside_def case_prod_beta)

lemma Reconcile_node_registration:
  assumes "wp (syncNodeRegistration L C cfg req) (\<lambda>_ t. e \<in> events t) s"
  shows "wp (Reconcile_node L C cfg req) (\<lambda>_ t. e \<in> events t) s"
proof -
  have rest: "keeps (\<lambda>_. True) (do {
      t \<leftarrow> syncTaint L C cfg req; st \<leftarrow> syncState C req (is_ok (snd reg) \<and> \<not> fst reg); ret (njoin [snd reg, t, st]) })" for reg
    unfolding syncTaint_def syncState_def by (intro log.path log.drains log.reads log.taints)
  have pop: "keeps (\<lambda>_. True) (popDelay k)" for k unfolding popDelay_def by (rule keeps_log)
  have "wp (Sync_node L C cfg req) (\<lambda>_ t. e \<in> events t) s"
    unfolding Sync_node_def by (rule wp_bindI, rule wp_mono [OF assms]) (rule logged [OF rest])
  moreover have "keeps (\<lambda>_. True) (do { d \<leftarrow> popDelay k; _ \<leftarrow> popDelay k; ret (d, r) })" for k and r :: "nerr + unit"
    by (intro keeps_bind pop keeps_ret)
  ultimately show ?thesis
    unfolding Reconcile_node_def by (intro wp_bindI, elim wp_mono) (rule logged)
qed

text \<open>
  C38. Removal makes progress: when an external Slurm node has finished draining and its Kubernetes
  node no longer carries the external-node label, one reconcile deletes the Slurm node.
\<close>

theorem unlabeled_drained_removed:
  assumes kube: "\<And>w. fst (kubeGet C req w) = Inr node" "map_of (knLabels node) LabelExternalNode = None"
    and slurm: "\<And>mode w. fst (nodeGet C mode (GetSlurmNodeName node) w) = Inr sn" "has_state sn EXTERNAL" "drained sn"
    and ok: "\<And>w. fst (nodeDelete C (snKey sn) w) = Inr ()" "\<And>old new w. is_ok (fst (kubePatchStatus C old new w))"
  shows "NDelete (snKey sn) (Inr ()) \<in> set (trace (snd (run_state (Reconcile_node L C cfg req) s)))"
proof -
  have drain: "has_state sn DRAIN" using slurm(3) by (simp add: drained_def)
  have patch: "\<exists>u. fst (kubePatchStatus C old new w) = Inr u" for old new w
    using ok(2) [of old new w] by (cases "fst (kubePatchStatus C old new w)") (auto simp: is_ok_def)
  have clear: "wp (clearSlurmGRESCompatibilityCondition C node) (\<lambda>r _. r = Inr ()) t" for t
    unfolding clearSlurmGRESCompatibilityCondition_def
    using patch by (auto intro!: wp_answers split: sum.split)
  have remove: "wp (removeNodeFromSlurmAfterDrain C req node) (\<lambda>_ t. NDelete (snKey sn) (Inr ()) \<in> events t) t" for t
    unfolding removeNodeFromSlurmAfterDrain_def MakeNodeDrain_def IsNodeDrained_def RemoveNode_def wp_bind
    by (rule wp_answers, simp add: slurm drain, rule wp_answers, simp add: slurm rmap_def, rule wp_answers, simp add: slurm,
        rule wp_answers, simp add: ok)
  have "wp (syncNodeRegistration L C cfg req) (\<lambda>_ t. NDelete (snKey sn) (Inr ()) \<in> events t) s"
    unfolding syncNodeRegistration_def syncUnlabeled_def NodeExists_def IsNodeExternal_def wp_bind
    by (rule wp_answers, simp add: kube, rule wp_answers, simp add: slurm, rule wp_answers, simp add: slurm,
        rule wp_mono [OF clear], simp, rule wp_mono [OF remove], simp)
  then show ?thesis using Reconcile_node_registration by (simp add: wp_run)
qed

definition drained_client :: "unit ncluster" where
  "drained_client = (stored_client [sample_kube_node] [])\<lparr>
     nodeGet := \<lambda>_ key w. (Inr ((named_node key)\<lparr>snState := [IDLE, DRAIN, EXTERNAL]\<rparr>), w), nodeDelete := \<lambda>_ w. (Inr (), w)\<rparr>"

theorem unlabeled_drained_removed_witness:
  "NDelete ''n1'' (Inr ()) \<in> set (trace (snd (run_state (Reconcile_node sample_lib drained_client sample_node_config ''n1'') start)))"
  using unlabeled_drained_removed [of drained_client "''n1''" sample_kube_node "(named_node ''n1'')\<lparr>snState := [IDLE, DRAIN, EXTERNAL]\<rparr>"
      sample_lib sample_node_config start]
  by (simp add: drained_client_def stored_client_def sample_kube_node_def is_ok_def named_node_def has_state_def drained_def
      busy_def GetSlurmNodeName_def)

end
