(* ===== verification/Scheduler_Control.thy ===== *)
theory Scheduler_Control
  imports Slurm_Job Slurm_Constraint Node_Allocation
begin

text \<open>
  \<open>internal/scheduler/plugins/slurmbridge/slurmcontrol\<close>: the job descriptions that the bridge
  submits and updates, releasing and deleting jobs, and the resource layout of an allocation.  The
  cache of the last description sent per job lives next to the outside world; how it evicts
  entries is a parameter.
\<close>

section \<open>Job descriptions\<close>

datatype shared = SharedNone | SharedMcs
datatype job_flag = EXTERNALJOB | OtherFlag string

record job_desc =
  d_adminComment :: "json option"
  d_cpusPerTask :: "int option"
  d_constraints :: "string option"
  d_licenses :: "string option"
  d_maximumNodes :: "int option"
  d_memoryPerNode :: "noval option"
  d_minimumNodes :: "int option"
  d_name :: "string option"
  d_nodes :: "string option"
  d_qos :: "string option"
  d_reservation :: "string option"
  d_tasksPerNode :: "int option"
  d_timeLimit :: "noval option"
  d_tresPerNode :: "string option"
  d_wckey :: "string option"
  d_priority :: "noval option"
  d_partition :: "string option"
  d_userId :: "string option"
  d_groupId :: "string option"
  d_account :: "string option"
  d_shared :: "shared list option"
  d_mcsLabel :: "string option"
  d_currentWorkingDirectory :: "string option"
  d_flags :: "job_flag list option"
  d_hold :: "bool option"
  d_excludedNodes :: "string list option"

definition empty_desc :: job_desc where
  "empty_desc = \<lparr>d_adminComment = None, d_cpusPerTask = None, d_constraints = None, d_licenses = None, d_maximumNodes = None,
     d_memoryPerNode = None, d_minimumNodes = None, d_name = None, d_nodes = None, d_qos = None, d_reservation = None,
     d_tasksPerNode = None, d_timeLimit = None, d_tresPerNode = None, d_wckey = None, d_priority = None, d_partition = None,
     d_userId = None, d_groupId = None, d_account = None, d_shared = None, d_mcsLabel = None, d_currentWorkingDirectory = None,
     d_flags = None, d_hold = None, d_excludedNodes = None\<rparr>"

type_synonym update_cache = "(int, job_desc) gomap"

record sched_config =
  mcsLabel :: string
  schedPartition :: string
  evict :: "update_cache \<Rightarrow> update_cache"

definition sharedFromExclusiveAnnotation :: "SlurmJobComponent option \<Rightarrow> shared list" where
  "sharedFromExclusiveAnnotation component =
     (let exclusive = (case component of None \<Rightarrow> True | Some c \<Rightarrow> deref True (Exclusive (JobInfo c))) in
      if exclusive then [SharedNone] else [SharedMcs])"

definition gresCompatibilityConstraint :: "string option \<Rightarrow> err + string" where
  "gresCompatibilityConstraint constraints =
     (case Compose SlurmFeatureGRESCompatible (deref [] constraints) of
        Inl _ \<Rightarrow> Inl (OtherErr ''constraints'') | Inr c \<Rightarrow> Inr c)"

definition ExternalJobInfoFor :: "objmeta \<Rightarrow> SlurmJobComponent \<Rightarrow> ExternalJobInfo" where
  "ExternalJobInfoFor root component =
     (let pods = map PodKey (Pods component) in
      case NewGroupIdentity root of
        None \<Rightarrow> \<lparr>InfoPods = pods, PodGroup = None, CompositePodGroup = None\<rparr>
      | Some g \<Rightarrow>
          if Kind g = ''CompositePodGroup''
          then \<lparr>InfoPods = pods, PodGroup = NewGroupIdentity (ObjectMeta component), CompositePodGroup = Some g\<rparr>
          else \<lparr>InfoPods = pods, PodGroup = Some g, CompositePodGroup = None\<rparr>)"

definition number :: "int \<Rightarrow> noval" where
  "number n = \<lparr>nv_set = Some True, nv_number = Some n\<rparr>"

definition unset :: noval where
  "unset = \<lparr>nv_set = Some False, nv_number = None\<rparr>"

definition buildJobDesc :: "sched_config \<Rightarrow> objmeta \<Rightarrow> SlurmJobComponent \<Rightarrow> err + job_desc" where
  "buildJobDesc cfg root component = (let j = JobInfo component in
     rbind (gresCompatibilityConstraint (Constraints j)) (\<lambda>constraints.
       Inr (empty_desc\<lparr>
         d_adminComment := Some (MarshalJSON (ExternalJobInfoFor root component)),
         d_cpusPerTask := CpuPerTask j,
         d_constraints := Some constraints,
         d_licenses := Licenses j,
         d_maximumNodes := MaxNodes j,
         d_memoryPerNode := Some (case MemPerNode j of None \<Rightarrow> unset | Some n \<Rightarrow> number n),
         d_minimumNodes := MinNodes j,
         d_name := JobName j,
         d_nodes := Some (show_nat (length (Pods component))),
         d_qos := QOS j,
         d_reservation := Reservation j,
         d_tasksPerNode := TasksPerNode j,
         d_timeLimit := Some (case TimeLimit j of None \<Rightarrow> unset | Some n \<Rightarrow> number n),
         d_tresPerNode := Gres j,
         d_wckey := Wckey j,
         d_priority := map_option number (Priority j),
         d_partition := Some (case Partition j of None \<Rightarrow> schedPartition cfg | Some p \<Rightarrow> p)\<rparr>)))"

definition buildJobSubmission :: "sched_config \<Rightarrow> objmeta \<Rightarrow> SlurmJobComponent \<Rightarrow> err + job_desc" where
  "buildJobSubmission cfg root component = (let j = JobInfo component in
     rbind (buildJobDesc cfg root component) (\<lambda>desc.
       let held = desc\<lparr>d_userId := UserId j, d_groupId := GroupId j, d_account := Account j,
         d_shared := Some (sharedFromExclusiveAnnotation (Some component)), d_mcsLabel := Some (mcsLabel cfg),
         d_currentWorkingDirectory := Some ''/tmp'', d_flags := Some [EXTERNALJOB], d_hold := Some True, d_priority := None\<rparr> in
       Inr (if length (ExcNodes j) > 0 then held\<lparr>d_excludedNodes := Some (ExcNodes j)\<rparr> else held)))"

definition buildJobUpdate :: "sched_config \<Rightarrow> objmeta \<Rightarrow> SlurmJobComponent \<Rightarrow> err + job_desc" where
  "buildJobUpdate cfg root component =
     rmap (\<lambda>desc. desc\<lparr>d_excludedNodes := Some (ExcNodes (JobInfo component))\<rparr>) (buildJobDesc cfg root component)"

section \<open>Calls\<close>

record gres_layout =
  gl_name :: string
  gl_type :: "string option"
  gl_count :: "int option"
  gl_index :: "string option"

record node_layout =
  ly_node :: string
  ly_sockets :: "int option"
  ly_cores :: "int option"
  ly_mem :: "int option"
  ly_bitmap :: "string option"
  ly_channel :: "noval option"
  ly_gres :: "gres_layout list option"

datatype sevent =
    SGet string "err + jobinfo"
  | SUpdate int job_desc "err + unit"
  | SCreate "job_desc list" "err option \<times> int option"
  | SDelete int "err + unit"
  | SLayout string "err + node_layout list"
  | SExtra string "err + string option"
  | SPartition string "err + string option list"
  | SRecall int "job_desc option"
  | SRemember int job_desc
  | SForget int

record 'w sched_api =
  apiGet :: "string \<Rightarrow> 'w \<Rightarrow> (err + jobinfo) \<times> 'w"
  apiUpdate :: "int \<Rightarrow> job_desc \<Rightarrow> 'w \<Rightarrow> (err + unit) \<times> 'w"
  apiCreate :: "job_desc list \<Rightarrow> 'w \<Rightarrow> (err option \<times> int option) \<times> 'w"
  apiDelete :: "int \<Rightarrow> 'w \<Rightarrow> (err + unit) \<times> 'w"
  apiLayout :: "string \<Rightarrow> 'w \<Rightarrow> (err + node_layout list) \<times> 'w"
  apiExtra :: "string \<Rightarrow> 'w \<Rightarrow> (err + string option) \<times> 'w"
  apiPartition :: "string \<Rightarrow> 'w \<Rightarrow> (err + string option list) \<times> 'w"

type_synonym 'w sched_sys = "('w \<times> update_cache, sevent) sys"
type_synonym ('w, 'a) sched_handler = "('w sched_sys, 'a) state"

definition remote :: "('w \<Rightarrow> 'r \<times> 'w) \<Rightarrow> 'w \<times> update_cache \<Rightarrow> 'r \<times> ('w \<times> update_cache)" where
  "remote f wc = (case f (fst wc) of (r, w) \<Rightarrow> (r, (w, snd wc)))"

definition recall :: "int \<Rightarrow> ('w, job_desc option) sched_handler" where
  "recall i = call (\<lambda>(w, c). (map_of c i, (w, c))) (SRecall i)"

definition remember :: "sched_config \<Rightarrow> int \<Rightarrow> job_desc \<Rightarrow> ('w, unit) sched_handler" where
  "remember cfg i d = call (\<lambda>(w, c). ((), (w, evict cfg (AList.update i d c)))) (\<lambda>_. SRemember i d)"

definition forget :: "int \<Rightarrow> ('w, unit) sched_handler" where
  "forget i = call (\<lambda>(w, c). ((), (w, AList.delete i c))) (\<lambda>_. SForget i)"

section \<open>Operations\<close>

definition isActiveJob :: "jobinfo \<Rightarrow> bool" where
  "isActiveJob job = (length (ji_jobState job) = 0 \<or> \<not> list_ex (\<lambda>s. s \<in> set (ji_jobState job)) [CANCELLED, COMPLETED])"

definition forgetUnlessPending :: "string \<Rightarrow> err + ExternalJob \<Rightarrow> ('w, err + ExternalJob) sched_handler" where
  "forgetUnlessPending lbl r =
     (if (case r of Inl _ \<Rightarrow> False | Inr j \<Rightarrow> Pending j) then ret r
      else do { _ \<leftarrow> forget (ParseSlurmJobId lbl); ret r })"

definition GetJob :: "'w sched_api \<Rightarrow> pod \<Rightarrow> ('w, err + ExternalJob) sched_handler" where
  "GetJob A p = (let lbl = label p LabelExternalJobId in
     if lbl = [] then ret (Inr zeroJob)
     else do {
       r \<leftarrow> call (remote (apiGet A lbl)) (SGet lbl);
       case r of
         Inl e \<Rightarrow> forgetUnlessPending lbl (if err_is SlurmNotFound e then Inr zeroJob else Inl e)
       | Inr job \<Rightarrow>
           if deref 0 (ji_jobId job) \<noteq> ParseSlurmJobId lbl then forgetUnlessPending lbl (Inl (OtherErr ''job ID''))
           else if \<not> isActiveJob job then forgetUnlessPending lbl (Inr zeroJob)
           else forgetUnlessPending lbl (jobErr (FromJobInfo (Some job))) })"

definition DeleteJob :: "'w sched_api \<Rightarrow> pod \<Rightarrow> ('w, err + unit) sched_handler" where
  "DeleteJob A p =
     (let own = ParseSlurmJobId (label p LabelExternalJobId);
          het = ParseSlurmJobId (label p LabelExternalHetJobId);
          jobId = (if het \<noteq> 0 then het else own) in
      if own = 0 then ret (Inr ())
      else do {
        _ \<leftarrow> forget jobId;
        r \<leftarrow> call (remote (apiDelete A jobId)) (SDelete jobId);
        case r of
          Inr _ \<Rightarrow> ret (Inr ())
        | Inl e \<Rightarrow> do {
            g \<leftarrow> GetJob A p;
            case g of
              Inr j \<Rightarrow> if JobId j = 0 then ret (Inr ()) else ret (Inl e)
            | Inl e2 \<Rightarrow> ret (Inl (Joined [e, Wrapped ''confirm release'' e2])) } })"

definition UpdateJob :: "sched_config \<Rightarrow> 'w sched_api \<Rightarrow> pod \<Rightarrow> SlurmJobIR option \<Rightarrow> ('w, err + int) sched_handler" where
  "UpdateJob cfg A p ir0 = (case Validate ir0 of
     Inl _ \<Rightarrow> ret (Inl (OtherErr ''invalid job''))
   | Inr _ \<Rightarrow>
       (let ir = the ir0; i = ComponentOf ir (namespace p) (pname p) in
        if i = -1 then ret (Inl (OtherErr ''component index''))
        else (let component = Components ir ! nat i in
          case parse_int 32 (label p LabelExternalJobId) of
            None \<Rightarrow> ret (Inl (OtherErr ''job ID label''))
          | Some jobID \<Rightarrow>
              if jobID \<le> 0 then ret (Inl (OtherErr ''job ID''))
              else
                (case buildJobUpdate cfg (RootPOM ir) component of
                   Inl e \<Rightarrow> ret (Inl e)
                 | Inr desc \<Rightarrow> do {
                     prev \<leftarrow> recall jobID;
                     if prev = Some desc then ret (Inr jobID)
                     else do {
                       r \<leftarrow> call (remote (apiUpdate A jobID desc)) (SUpdate jobID desc);
                       case r of
                         Inl e \<Rightarrow> do { _ \<leftarrow> forget jobID; ret (Inl e) }
                       | Inr _ \<Rightarrow> do { _ \<leftarrow> remember cfg jobID desc; ret (Inr jobID) } } }))))"

definition RegisterJob :: "sched_config \<Rightarrow> 'w sched_api \<Rightarrow> SlurmJobIR option \<Rightarrow> ('w, err option \<times> int) sched_handler" where
  "RegisterJob cfg A ir0 = (case Validate ir0 of
     Inl _ \<Rightarrow> ret (Some (NotSubmitted (OtherErr ''invalid job'')), 0)
   | Inr _ \<Rightarrow>
       (case collect (buildJobSubmission cfg (RootPOM (the ir0))) (Components (the ir0)) of
          Inl e \<Rightarrow> ret (Some (NotSubmitted e), 0)
        | Inr descriptions \<Rightarrow> do {
            r \<leftarrow> call (remote (apiCreate A descriptions)) (SCreate descriptions);
            (let i = deref 0 (snd r) in
             case fst r of
               Some e \<Rightarrow> ret (Some e, i)
             | None \<Rightarrow> if i \<le> 0 then ret (Some (OtherErr ''invalid job ID''), 0) else ret (None, i)) }))"

definition ReleaseJob :: "'w sched_api \<Rightarrow> int \<Rightarrow> int option \<Rightarrow> ('w, err + unit) sched_handler" where
  "ReleaseJob A i prio = do {
     r \<leftarrow> call (remote (apiUpdate A i (empty_desc\<lparr>d_hold := Some False\<rparr>))) (SUpdate i (empty_desc\<lparr>d_hold := Some False\<rparr>));
     case r of
       Inl e \<Rightarrow> ret (Inl e)
     | Inr _ \<Rightarrow>
         (case prio of
            None \<Rightarrow> ret (Inr ())
          | Some n \<Rightarrow> call (remote (apiUpdate A i (empty_desc\<lparr>d_priority := Some (number n)\<rparr>)))
              (SUpdate i (empty_desc\<lparr>d_priority := Some (number n)\<rparr>))) }"

section \<open>Node resources\<close>

definition layoutResources :: "node_layout \<Rightarrow> NodeResources" where
  "layoutResources n = \<lparr>nrNode = ly_node n, nrExtra = [], SocketsPerNode = deref 0 (ly_sockets n),
     CoresPerSocket = deref 0 (ly_cores n), MemAlloc = deref 0 (ly_mem n), CoreBitmap = deref [] (ly_bitmap n),
     nrChannel = (case ly_channel n of None \<Rightarrow> 0 | Some c \<Rightarrow> deref 0 (nv_number c)),
     nrGres = map (\<lambda>g. \<lparr>glCount = deref 0 (gl_count g), glIndex = deref [] (gl_index g), glName = gl_name g,
       glType = deref [] (gl_type g)\<rparr>) (deref [] (ly_gres n))\<rparr>"

text \<open>The reads of the Extra fields, whose errors are joined.\<close>

fun readExtras :: "'w sched_api \<Rightarrow> (string \<times> NodeResources) list \<Rightarrow> ('w, err list \<times> (string \<times> NodeResources) list) sched_handler" where
  "readExtras A [] = ret ([], [])"
| "readExtras A ((name, res) # rest) = do {
     r \<leftarrow> call (remote (apiExtra A name)) (SExtra name);
     q \<leftarrow> readExtras A rest;
     (case r of
        Inl e \<Rightarrow> ret (e # fst q, (name, res) # snd q)
      | Inr extra \<Rightarrow> ret (fst q, (name, res\<lparr>nrExtra := deref [] extra\<rparr>) # snd q)) }"

definition GetResourcesForNodes :: "'w sched_api \<Rightarrow> pod \<Rightarrow> string list \<Rightarrow> ('w, err + (string, NodeResources) gomap) sched_handler" where
  "GetResourcesForNodes A p nodeNames = (let lbl = label p LabelExternalJobId in
     if lbl = [] then ret (Inr [])
     else do {
       r \<leftarrow> call (remote (apiLayout A lbl)) (SLayout lbl);
       case r of
         Inl e \<Rightarrow> ret (Inl e)
       | Inr nodes \<Rightarrow> do {
           q \<leftarrow> readExtras A (fold (\<lambda>n out. AList.update (ly_node n) (layoutResources n) out)
             (filter (\<lambda>n. ly_node n \<in> set nodeNames) nodes) []);
           (if fst q \<noteq> [] then ret (Inl (Joined (fst q))) else ret (Inr (snd q))) } })"

definition noResources :: NodeResources where
  "noResources = \<lparr>nrNode = [], nrExtra = [], SocketsPerNode = 0, CoresPerSocket = 0, MemAlloc = 0, CoreBitmap = [],
     nrChannel = 0, nrGres = []\<rparr>"

definition GetResources :: "'w sched_api \<Rightarrow> pod \<Rightarrow> string \<Rightarrow> ('w, err + NodeResources) sched_handler" where
  "GetResources A p node_name = do {
     r \<leftarrow> GetResourcesForNodes A p [node_name];
     ret (rmap (\<lambda>out. deref noResources (map_of out node_name)) r) }"

fun partitionNodes :: "'w sched_api \<Rightarrow> string list \<Rightarrow> string list \<Rightarrow> ('w, err + string list) sched_handler" where
  "partitionNodes A [] names = ret (Inr names)"
| "partitionNodes A (pt # pts) names = do {
     r \<leftarrow> call (remote (apiPartition A (trim_space pt))) (SPartition (trim_space pt));
     case r of
       Inl e \<Rightarrow> ret (Inl e)
     | Inr nodes \<Rightarrow> partitionNodes A pts (filter (\<lambda>n. n \<noteq> []) (map (deref []) nodes) @ names) }"

definition GetNodeNames :: "sched_config \<Rightarrow> 'w sched_api \<Rightarrow> string option \<Rightarrow> ('w, err + string list) sched_handler" where
  "GetNodeNames cfg A pt = do {
     r \<leftarrow> partitionNodes A (split_on CHR '','' (deref (schedPartition cfg) pt)) [];
     ret (rmap (\<lambda>names. sort (remdups names)) r) }"

section \<open>Submissions\<close>

lemma Compose_prefix: "Compose required cs = Inr r \<Longrightarrow> prefix required r"
  by (auto simp: Compose_def Let_def elim!: result_elims split: if_splits)

definition held_submission :: "sched_config \<Rightarrow> SlurmJobComponent \<Rightarrow> job_desc \<Rightarrow> bool" where
  "held_submission cfg c d \<longleftrightarrow> d_hold d = Some True \<and> d_priority d = None \<and> d_flags d = Some [EXTERNALJOB] \<and>
     d_mcsLabel d = Some (mcsLabel cfg) \<and> d_shared d = Some [if deref True (Exclusive (JobInfo c)) then SharedNone else SharedMcs] \<and>
     d_nodes d = Some (show_nat (length (Pods c))) \<and> prefix SlurmFeatureGRESCompatible (deref [] (d_constraints d))"

text \<open>A Slurm record with this comment is indexed under its Pods and under its workload.\<close>

definition findable :: "objmeta \<Rightarrow> SlurmJobComponent \<Rightarrow> job_desc \<Rightarrow> bool" where
  "findable root c d \<longleftrightarrow> (\<forall>raw. ji_adminComment raw = d_adminComment d \<longrightarrow>
     jobPodKeys raw = map PodKey (Pods c) \<and>
     (case NewGroupIdentity root of
        Some g \<Rightarrow> Key g \<in> set (jobGroupKeys raw) | None \<Rightarrow> jobLegacyPodKeys raw = map PodKey (Pods c)))"

lemma submission_held:
  assumes "buildJobSubmission cfg root c = Inr d" shows "held_submission cfg c d"
  using assms Compose_prefix
  by (auto simp: buildJobSubmission_def buildJobDesc_def gresCompatibilityConstraint_def held_submission_def Let_def
      sharedFromExclusiveAnnotation_def empty_desc_def elim!: result_elims split: sum.splits)

lemma submission_comment:
  "buildJobSubmission cfg root c = Inr d \<Longrightarrow> d_adminComment d = Some (MarshalJSON (ExternalJobInfoFor root c))"
  by (auto simp: buildJobSubmission_def buildJobDesc_def Let_def empty_desc_def elim!: result_elims)

lemma info_for_ok: "\<forall>p\<in>set (Pods c). CHR '','' \<notin> set (PodKey p) \<Longrightarrow> info_ok (ExternalJobInfoFor root c)"
  by (auto simp: info_ok_def ExternalJobInfoFor_def Let_def PodKey_def podKeyOf_def split: option.splits)

lemma submission_findable:
  assumes "buildJobSubmission cfg root c = Inr d" "\<forall>p\<in>set (Pods c). CHR '','' \<notin> set (PodKey p)"
  shows "findable root c d"
proof -
  have "ParseIntoExternalJobInfo (d_adminComment d) = Some (ExternalJobInfoFor root c)"
    using info_for_ok [OF assms(2), of root] by (simp add: submission_comment [OF assms(1)] ParseIntoExternalJobInfo_def ownership.dec_enc)
  then show ?thesis
    by (auto simp: findable_def jobPodKeys_def jobGroupKeys_def jobLegacyPodKeys_def ExternalJobInfoFor_def Let_def split: option.splits)
qed

lemma collect_Inl: "collect f xs = Inl e \<Longrightarrow> \<not> list_all (\<lambda>x. is_ok (f x)) xs"
  by (induction xs) (auto simp: is_ok_def rbind_def rmap_def split: sum.splits)


definition sample_api :: "unit sched_api" where
  "sample_api = \<lparr>apiGet = \<lambda>_ w. (Inl SlurmNotFound, w), apiUpdate = \<lambda>_ _ w. (Inr (), w), apiCreate = \<lambda>_ w. ((None, Some 7), w),
     apiDelete = \<lambda>_ w. (Inr (), w), apiLayout = \<lambda>_ w. (Inr [], w), apiExtra = \<lambda>_ w. (Inr None, w), apiPartition = \<lambda>_ w. (Inr [], w)\<rparr>"

definition sample_sched :: sched_config where
  "sample_sched = \<lparr>mcsLabel = ''kubernetes'', schedPartition = ''batch'', evict = id\<rparr>"

definition sched_start :: "unit sched_sys" where
  "sched_start = \<lparr>world = ((), []), trace = []\<rparr>"


section \<open>The last description sent\<close>

text \<open>
  The last description of a job in a trace, and whether Slurm acknowledged it.  The two requests
  of a release carry no comment; they change the hold and the priority only.
\<close>

fun desc_step :: "int \<Rightarrow> sevent \<Rightarrow> (job_desc \<times> bool) option \<Rightarrow> (job_desc \<times> bool) option" where
  "desc_step i (SUpdate j d r) acc = (if j = i \<and> d_adminComment d \<noteq> None then Some (d, is_ok r) else acc)"
| "desc_step i e acc = acc"

definition last_desc :: "int \<Rightarrow> sevent list \<Rightarrow> (job_desc \<times> bool) option" where
  "last_desc i tr = fold (desc_step i) tr None"

lemma last_desc_append [simp]: "last_desc i (tr @ es) = fold (desc_step i) es (last_desc i tr)"
  by (simp add: last_desc_def)

definition evict_ok :: "sched_config \<Rightarrow> bool" where
  "evict_ok cfg \<longleftrightarrow> (\<forall>c k v. map_of (evict cfg c) k = Some v \<longrightarrow> map_of c k = Some v)"

definition cache_ok :: "'w sched_sys \<Rightarrow> bool" where
  "cache_ok s \<longleftrightarrow> (\<forall>i d. map_of (snd (world s)) i = Some d \<longrightarrow> last_desc i (trace s) = Some (d, True))"

lemma cache_remote:
  assumes "\<And>i r acc. desc_step i (ev r) acc = acc"
  shows "keeps cache_ok (call (remote f) ev)"
  unfolding keeps_def cache_ok_def wp_call remote_def by (auto simp: assms split: prod.splits)

lemma cache_forget: "keeps cache_ok (forget i)"
  unfolding keeps_def cache_ok_def wp_call forget_def by (auto simp: delete_conv' split: prod.splits if_splits)

lemmas cache_path = keeps_bind keeps_ret keeps_if keeps_case_sum keeps_case_option keeps_case_prod cache_forget cache_remote

lemma GetJob_cache: "keeps cache_ok (GetJob A p)"
  unfolding GetJob_def forgetUnlessPending_def Let_def by (intro cache_path) simp_all

lemma DeleteJob_cache: "keeps cache_ok (DeleteJob A p)"
  unfolding DeleteJob_def Let_def by (intro cache_path GetJob_cache) simp_all

lemma RegisterJob_cache: "keeps cache_ok (RegisterJob cfg A ir)"
  unfolding RegisterJob_def Let_def by (intro cache_path) simp_all

lemma ReleaseJob_cache: "keeps cache_ok (ReleaseJob A i prio)"
  unfolding ReleaseJob_def by (intro cache_path) (simp_all add: empty_desc_def)

lemma update_comment: "buildJobUpdate cfg root c = Inr d \<Longrightarrow> d_adminComment d \<noteq> None"
  by (auto simp: buildJobUpdate_def buildJobDesc_def Let_def empty_desc_def elim!: result_elims)

definition acknowledged :: "sched_config \<Rightarrow> SlurmJobIR option \<Rightarrow> pod \<Rightarrow> int \<Rightarrow> sevent list \<Rightarrow> bool" where
  "acknowledged cfg ir p i tr \<longleftrightarrow> (\<exists>x d. ir = Some x \<and>
     buildJobUpdate cfg (RootPOM x) (Components x ! nat (ComponentOf x (namespace p) (pname p))) = Inr d \<and>
     last_desc i tr = Some (d, True))"

lemma send_cache:
  fixes A :: "'w sched_api"
  assumes ev: "evict_ok cfg" and s: "cache_ok s" and desc: "d_adminComment desc \<noteq> None"
  shows "wp (do {
      prev \<leftarrow> recall i;
      if prev = Some desc then ret (Inr i)
      else do {
        r \<leftarrow> call (remote (apiUpdate A i desc)) (SUpdate i desc);
        case r of
          Inl e \<Rightarrow> do { _ \<leftarrow> forget i; ret (Inl e) }
        | Inr _ \<Rightarrow> do { _ \<leftarrow> remember cfg i desc; ret (Inr i) } } })
    (\<lambda>r t. cache_ok t \<and> (\<forall>j. r = Inr j \<longrightarrow> j = i \<and> last_desc i (trace t) = Some (desc, True))) s"
proof -
  obtain w c where wc: "world s = (w, c)" by fastforce
  obtain r w' where u: "apiUpdate A i desc w = (r, w')" by fastforce
  have c: "last_desc j (trace s) = Some (d, True)" if "map_of c j = Some d" for j d
    using s that by (simp add: cache_ok_def wc)
  have new: "map_of (AList.update i desc c) j = Some d" if "map_of (evict cfg (AList.update i desc c)) j = Some d" for j d
    using ev that unfolding evict_ok_def by blast
  have e: "last_desc j (trace s) = Some (d, True)" if "map_of (evict cfg (AList.update i desc c)) j = Some d" "j \<noteq> i" for j d
    using new [OF that(1)] that(2) c by (simp add: update_conv')
  have e': "d = desc" if "map_of (evict cfg (AList.update i desc c)) i = Some d" for d
    using new [OF that] by (simp add: update_conv')
  show ?thesis
  proof (cases "map_of c i = Some desc")
    case True
    then show ?thesis using c by (simp add: recall_def wp_call wc cache_ok_def)
  next
    case False
    then show ?thesis using desc c e e'
      by (cases r) (auto simp: recall_def remember_def forget_def wp_call remote_def wc u cache_ok_def is_ok_def delete_conv')
  qed
qed

lemma UpdateJob_cache:
  assumes "evict_ok cfg" "cache_ok s"
  shows "wp (UpdateJob cfg A p ir) (\<lambda>r t. cache_ok t \<and> (\<forall>i. r = Inr i \<longrightarrow> acknowledged cfg ir p i (trace t))) s"
proof (cases "Validate ir")
  case (Inl e)
  then show ?thesis using assms by (simp add: UpdateJob_def)
next
  case (Inr u)
  then obtain x where x: "ir = Some x" by (auto simp: Validate_def split: option.splits)
  let ?c = "Components x ! nat (ComponentOf x (namespace p) (pname p))"
  have send: "wp (do {
      prev \<leftarrow> recall i;
      if prev = Some d then ret (Inr i)
      else do {
        r \<leftarrow> call (remote (apiUpdate A i d)) (SUpdate i d);
        case r of
          Inl e \<Rightarrow> do { _ \<leftarrow> forget i; ret (Inl e) }
        | Inr _ \<Rightarrow> do { _ \<leftarrow> remember cfg i d; ret (Inr i) } } })
    (\<lambda>r t. cache_ok t \<and> (\<forall>j. r = Inr j \<longrightarrow> acknowledged cfg ir p j (trace t))) s"
    if "buildJobUpdate cfg (RootPOM x) ?c = Inr d" for i d
    by (rule wp_mono [OF send_cache [OF assms update_comment [OF that]]]) (use that x in \<open>auto simp: acknowledged_def\<close>)
  show ?thesis
    unfolding UpdateJob_def Inr sum.case Let_def unfolding x option.sel
    by (intro wp_ifI wp_case_optionI wp_case_sumI send [unfolded x]) (simp_all add: assms)
qed

section \<open>Sequences of operations\<close>

datatype sched_op = OpRegister "SlurmJobIR option" | OpUpdate pod "SlurmJobIR option" | OpGet pod | OpRelease int "int option" | OpDelete pod

fun sched_step :: "sched_config \<Rightarrow> 'w sched_api \<Rightarrow> sched_op \<Rightarrow> ('w, unit) sched_handler" where
  "sched_step cfg A (OpRegister ir) = do { _ \<leftarrow> RegisterJob cfg A ir; ret () }"
| "sched_step cfg A (OpUpdate p ir) = do { _ \<leftarrow> UpdateJob cfg A p ir; ret () }"
| "sched_step cfg A (OpGet p) = do { _ \<leftarrow> GetJob A p; ret () }"
| "sched_step cfg A (OpRelease i prio) = do { _ \<leftarrow> ReleaseJob A i prio; ret () }"
| "sched_step cfg A (OpDelete p) = do { _ \<leftarrow> DeleteJob A p; ret () }"

fun sched_steps :: "sched_config \<Rightarrow> 'w sched_api \<Rightarrow> sched_op list \<Rightarrow> ('w, unit) sched_handler" where
  "sched_steps cfg A [] = ret ()"
| "sched_steps cfg A (op # ops) = do { _ \<leftarrow> sched_step cfg A op; sched_steps cfg A ops }"

lemma keeps_unit: "keeps I m \<Longrightarrow> I s \<Longrightarrow> wp (do { _ \<leftarrow> m; ret () }) (\<lambda>_. I) s"
  unfolding wp_bind by (rule wp_mono, erule (1) keepsD) simp

lemma sched_step_cache: "evict_ok cfg \<Longrightarrow> cache_ok s \<Longrightarrow> wp (sched_step cfg A op) (\<lambda>_. cache_ok) s"
proof (induction op)
  case (OpUpdate p ir)
  from UpdateJob_cache [OF this, of A p ir] show ?case
    unfolding sched_step.simps wp_bind by (rule wp_mono) simp
qed (unfold sched_step.simps, (rule keeps_unit, rule RegisterJob_cache GetJob_cache ReleaseJob_cache DeleteJob_cache, assumption)+)

lemma sched_steps_cache: "evict_ok cfg \<Longrightarrow> cache_ok s \<Longrightarrow> wp (sched_steps cfg A ops) (\<lambda>_. cache_ok) s"
proof (induction ops arbitrary: s)
  case (Cons op ops)
  show ?case
    unfolding sched_steps.simps wp_bind
    by (rule wp_mono [OF sched_step_cache [OF Cons.prems]]) (rule Cons.IH [OF Cons.prems(1)])
qed simp


definition labelled_pod :: pod where
  "labelled_pod = empty_pod\<lparr>namespace := ''ns'', pname := ''a'', labels := [(LabelExternalJobId, ''7'')]\<rparr>"


end
