(* ===== verification/Admission.thy ===== *)
theory Admission
  imports Node_Sync Scheduler_Control Time_Limit
begin

text \<open>
  The Pod webhook (\<open>internal/admission\<close>) and the annotations of a workload
  (\<open>internal/utils/slurmjobir/annotations.go\<close>).  The webhook only reads the cluster; its reads are
  functions of the configuration record.  Resource quantities are integers in an arbitrary unit, of
  which the webhook looks at the sign.  The loop over the annotations follows the order of the
  association list; its result is shown not to depend on that order.
\<close>

section \<open>Annotations\<close>

definition AnnotationAccount :: string where "AnnotationAccount = SlurmJobPrefix @ ''account''"
definition AnnotationConstraints :: string where "AnnotationConstraints = SlurmJobPrefix @ ''constraints''"
definition AnnotationCpuPerTask :: string where "AnnotationCpuPerTask = SlurmJobPrefix @ ''cpu-per-task''"
definition AnnotationExclusive :: string where "AnnotationExclusive = SlurmJobPrefix @ ''exclusive''"
definition AnnotationGres :: string where "AnnotationGres = SlurmJobPrefix @ ''gres''"
definition AnnotationGroupId :: string where "AnnotationGroupId = SlurmJobPrefix @ ''group-id''"
definition AnnotationJobName :: string where "AnnotationJobName = SlurmJobPrefix @ ''job-name''"
definition AnnotationLicenses :: string where "AnnotationLicenses = SlurmJobPrefix @ ''licenses''"
definition AnnotationMaxNodes :: string where "AnnotationMaxNodes = SlurmJobPrefix @ ''max-nodes''"
definition AnnotationMemPerNode :: string where "AnnotationMemPerNode = SlurmJobPrefix @ ''mem-per-node''"
definition AnnotationMinNodes :: string where "AnnotationMinNodes = SlurmJobPrefix @ ''min-nodes''"
definition AnnotationPartition :: string where "AnnotationPartition = SlurmJobPrefix @ ''partition''"
definition AnnotationPriority :: string where "AnnotationPriority = SlurmJobPrefix @ ''priority''"
definition AnnotationQOS :: string where "AnnotationQOS = SlurmJobPrefix @ ''qos''"
definition AnnotationReservation :: string where "AnnotationReservation = SlurmJobPrefix @ ''reservation''"
definition AnnotationTimeLimit :: string where "AnnotationTimeLimit = SlurmJobPrefix @ ''timelimit''"
definition AnnotationUserId :: string where "AnnotationUserId = SlurmJobPrefix @ ''user-id''"
definition AnnotationWckey :: string where "AnnotationWckey = SlurmJobPrefix @ ''wckey''"

lemmas annotation_defs = AnnotationAccount_def AnnotationConstraints_def AnnotationCpuPerTask_def AnnotationExclusive_def
  AnnotationGres_def AnnotationGroupId_def AnnotationJobName_def AnnotationLicenses_def AnnotationMaxNodes_def
  AnnotationMemPerNode_def AnnotationMinNodes_def AnnotationPartition_def AnnotationPriority_def AnnotationQOS_def
  AnnotationReservation_def AnnotationTimeLimit_def AnnotationUserId_def AnnotationWckey_def

text \<open>The parsers of Kubernetes quantities and of Prometheus durations are parameters.\<close>

record parsers =
  ParseQuantity :: "string \<Rightarrow> err + int"
  ParseDuration :: "string \<Rightarrow> string + int"

definition timeLimit :: "parsers \<Rightarrow> string \<Rightarrow> err + int" where
  "timeLimit Q value = (case Parse (ParseDuration Q) value of Inl _ \<Rightarrow> Inl (OtherErr ''timelimit'') | Inr n \<Rightarrow> Inr n)"

definition number32 :: "string \<Rightarrow> err + int" where
  "number32 value = (case ConvStrTo32 value of None \<Rightarrow> Inl (OtherErr ''number'') | Some n \<Rightarrow> Inr n)"

definition annotate :: "parsers \<Rightarrow> string \<times> string \<Rightarrow> SlurmJobIRJobInfo \<Rightarrow> err + SlurmJobIRJobInfo" where
  "annotate Q kv j = (case kv of (key, value) \<Rightarrow>
     if key = AnnotationAccount then Inr (j\<lparr>Account := Some value\<rparr>)
     else if key = AnnotationConstraints then Inr (j\<lparr>Constraints := Some value\<rparr>)
     else if key = AnnotationGres then Inr (j\<lparr>Gres := Some value\<rparr>)
     else if key = AnnotationGroupId then Inr (j\<lparr>GroupId := Some value\<rparr>)
     else if key = AnnotationCpuPerTask then rmap (\<lambda>n. j\<lparr>CpuPerTask := Some (i32 n)\<rparr>) (ParseQuantity Q value)
     else if key = AnnotationExclusive then Inr (j\<lparr>Exclusive := Some (trim_space (map lower value) \<noteq> ''false'')\<rparr>)
     else if key = AnnotationJobName then Inr (j\<lparr>JobName := Some value\<rparr>)
     else if key = AnnotationLicenses then Inr (j\<lparr>Licenses := Some value\<rparr>)
     else if key = AnnotationMaxNodes then rmap (\<lambda>n. j\<lparr>MaxNodes := Some n\<rparr>) (number32 value)
     else if key = AnnotationMemPerNode then rmap (\<lambda>n. j\<lparr>MemPerNode := Some (n sdiv 1048576)\<rparr>) (ParseQuantity Q value)
     else if key = AnnotationMinNodes then rmap (\<lambda>n. j\<lparr>MinNodes := Some n\<rparr>) (number32 value)
     else if key = AnnotationPartition then Inr (j\<lparr>Partition := Some value\<rparr>)
     else if key = AnnotationPriority then rmap (\<lambda>n. j\<lparr>Priority := Some n\<rparr>) (number32 value)
     else if key = AnnotationQOS then Inr (j\<lparr>QOS := Some value\<rparr>)
     else if key = AnnotationReservation then Inr (j\<lparr>Reservation := Some value\<rparr>)
     else if key = AnnotationTimeLimit then rmap (\<lambda>n. j\<lparr>TimeLimit := Some n\<rparr>) (timeLimit Q value)
     else if key = AnnotationUserId then Inr (j\<lparr>UserId := Some value\<rparr>)
     else if key = AnnotationWckey then Inr (j\<lparr>Wckey := Some value\<rparr>)
     else Inr j)"

fun annotateAll :: "parsers \<Rightarrow> strmap \<Rightarrow> SlurmJobIRJobInfo \<Rightarrow> err + SlurmJobIRJobInfo" where
  "annotateAll Q [] j = Inr j"
| "annotateAll Q (kv # rest) j = rbind (annotate Q kv j) (annotateAll Q rest)"

definition parseUserAnnotations :: "parsers \<Rightarrow> SlurmJobComponent \<Rightarrow> strmap \<Rightarrow> err + SlurmJobComponent" where
  "parseUserAnnotations Q c anno = rmap (\<lambda>j. c\<lparr>JobInfo := j\<rparr>) (annotateAll Q anno (JobInfo c))"

section \<open>Pods and the cluster as the webhook sees them\<close>

record toleration =
  tolKey :: string
  tolOperator :: string
  tolValue :: string
  tolEffect :: string
  tolSeconds :: "int option"

record requirements =
  requests :: "(string, int) gomap"
  limits :: "(string, int) gomap"

record container =
  containerName :: string
  containerResources :: requirements

text \<open>Of an affinity the webhook counts the required terms.\<close>

record affinity =
  nodeTerms :: "nat option"
  podTerms :: "nat option"
  podAntiTerms :: "nat option"

record admitted = pod +
  hasSchedulingGroup :: bool
  hasController :: bool
  resourceClaims :: "string list option"
  topologySpreadConstraints :: "string list"
  podAffinity :: "affinity option"
  tolerations :: "toleration list"
  podResources :: "requirements option"
  initContainers :: "container list"
  containers :: "container list"

record leader_worker_set =
  lwsSize :: "int option"
  lwsStartupPolicy :: string
  lwsRestartPolicy :: string

text \<open>
  The receiver with its reads.  The selector is an error when it cannot be converted; \<open>enabled\<close>
  answers a feature gate and \<open>matchToleration\<close> is the Kubernetes helper \<open>MatchToleration\<close>.
\<close>

record admission_config =
  SchedulerName :: string
  ManagedNamespaces :: "string list"
  ManagedNamespaceSelector :: "(err + (strmap \<Rightarrow> bool)) option"
  DRARegistry :: "Registry option"
  defaultRegistry :: Registry
  getNamespace :: "string \<Rightarrow> err + strmap"
  getDeviceClass :: "string \<Rightarrow> err + device_class"
  getLeaderWorkerSet :: "string \<Rightarrow> string \<Rightarrow> err + leader_worker_set"
  enabled :: "string \<Rightarrow> bool"
  matchToleration :: "toleration \<Rightarrow> toleration \<Rightarrow> bool"
  parsing :: parsers

record admission_request =
  operation :: string
  subResource :: string

definition SetNameLabelKey :: string where "SetNameLabelKey = ''leaderworkerset.sigs.k8s.io/name''"
definition PodGroupLabel :: string where "PodGroupLabel = ''scheduling.x-k8s.io/pod-group''"
definition ResourceDeviceClassPrefix :: string where
  "ResourceDeviceClassPrefix = ''deviceclass.resource.kubernetes.io/''"

definition draRegistry :: "admission_config \<Rightarrow> Registry" where
  "draRegistry A = (case DRARegistry A of Some R \<Rightarrow> R | None \<Rightarrow> defaultRegistry A)"

definition isManagedNamespace :: "admission_config \<Rightarrow> string \<Rightarrow> err + bool" where
  "isManagedNamespace A ns = (case ManagedNamespaceSelector A of
     Some selector \<Rightarrow> rbind selector (\<lambda>matches. rmap matches (getNamespace A ns))
   | None \<Rightarrow> Inr (ns \<in> set (ManagedNamespaces A)))"

section \<open>Defaulting\<close>

definition MergeTolerations :: "admission_config \<Rightarrow> toleration list \<Rightarrow> toleration \<Rightarrow> toleration list" where
  "MergeTolerations A ts t = (if list_ex (\<lambda>cur. matchToleration A cur t) ts then ts else ts @ [t])"

definition NewTolerationNodeBridged :: "string \<Rightarrow> toleration" where
  "NewTolerationNodeBridged name = \<lparr>tolKey = TaintKeyBridgedNode, tolOperator = ''Equal'',
     tolValue = name, tolEffect = ''NoExecute'', tolSeconds = None\<rparr>"

definition creating :: "admission_request option \<Rightarrow> bool" where
  "creating req = (case req of None \<Rightarrow> False | Some r \<Rightarrow> operation r = ''CREATE'')"

definition nativeGroup :: "admitted \<Rightarrow> bool" where
  "nativeGroup p \<longleftrightarrow> hasSchedulingGroup p \<and> deref [] (podGroupName p) \<noteq> []"

text \<open>The steps of \<open>Default\<close> on a handled pod, in their order.\<close>

definition unsetNodeName :: "admission_request option \<Rightarrow> admitted \<Rightarrow> admitted" where
  "unsetNodeName req p = (if creating req \<and> nodeName p \<noteq> [] then p\<lparr>nodeName := []\<rparr> else p)"

definition takeScheduler :: "admission_config \<Rightarrow> admitted \<Rightarrow> admitted" where
  "takeScheduler A p = (if schedulerName p = ''default-scheduler'' then p\<lparr>schedulerName := SchedulerName A\<rparr> else p)"

definition addToleration :: "admission_config \<Rightarrow> admitted \<Rightarrow> admitted" where
  "addToleration A p =
     p\<lparr>tolerations := MergeTolerations A (tolerations p) (NewTolerationNodeBridged (SchedulerName A))\<rparr>"

definition addGate :: "admission_request option \<Rightarrow> admitted \<Rightarrow> admitted" where
  "addGate req p =
     (if creating req \<and> \<not> nativeGroup p \<and> SchedulingGateRegistration \<notin> set (schedulingGates p)
      then p\<lparr>schedulingGates := schedulingGates p @ [SchedulingGateRegistration]\<rparr> else p)"

definition claimPod :: "admission_config \<Rightarrow> admission_request option \<Rightarrow> admitted \<Rightarrow> admitted" where
  "claimPod A req p = (if schedulerName p = SchedulerName A then addGate req (addToleration A p) else p)"

definition Default :: "admission_config \<Rightarrow> admission_request option \<Rightarrow> admitted \<Rightarrow> err + admitted" where
  "Default A req p = rbind (isManagedNamespace A (namespace p)) (\<lambda>isManaged.
     if \<not> isManaged \<and> schedulerName p \<noteq> SchedulerName A then Inr p
     else Inr (claimPod A req (takeScheduler A (unsetNodeName req p))))"

section \<open>Validation\<close>

definition hasRequiredAffinity :: "admitted \<Rightarrow> bool" where
  "hasRequiredAffinity p = (case podAffinity p of
     None \<Rightarrow> False
   | Some a \<Rightarrow> deref 0 (nodeTerms a) > 0 \<or> deref 0 (podTerms a) > 0 \<or> deref 0 (podAntiTerms a) > 0)"

definition check :: "bool \<Rightarrow> string \<Rightarrow> err + unit" where
  "check b e = (if b then Inr () else Inl (OtherErr e))"

definition every :: "('a \<Rightarrow> err + unit) \<Rightarrow> 'a list \<Rightarrow> err + unit" where
  "every f xs = rmap (\<lambda>_. ()) (collect f xs)"

definition resourceIsSet :: "requirements \<Rightarrow> string \<Rightarrow> bool" where
  "resourceIsSet r name \<longleftrightarrow> map_of (requests r) name \<noteq> None \<or> map_of (limits r) name \<noteq> None"

definition podRequestsNativeCPU :: "admitted \<Rightarrow> bool" where
  "podRequestsNativeCPU p \<longleftrightarrow>
     (case podResources p of None \<Rightarrow> False | Some r \<Rightarrow> resourceIsSet r ''cpu'') \<or>
     list_ex (\<lambda>c. resourceIsSet (containerResources c) ''cpu'') (initContainers p @ containers p)"

definition validatePositiveResourceRequirements :: "requirements \<Rightarrow> err + unit" where
  "validatePositiveResourceRequirements r = every (every (\<lambda>(name, quantity).
     if name \<noteq> ''cpu'' \<and> \<not> has_prefix name ResourceDeviceClassPrefix then Inr ()
     else check (\<not> sgn quantity \<le> 0) ''not positive'')) [requests r, limits r]"

definition validatePositiveResourceQuantities :: "admitted \<Rightarrow> err + unit" where
  "validatePositiveResourceQuantities p =
     rbind (case podResources p of None \<Rightarrow> Inr () | Some r \<Rightarrow> validatePositiveResourceRequirements r) (\<lambda>_.
       every (\<lambda>c. validatePositiveResourceRequirements (containerResources c)) (initContainers p @ containers p))"

definition addDeviceClassName :: "string \<Rightarrow> string list \<Rightarrow> string list" where
  "addDeviceClassName name classNames =
     (if has_prefix name ResourceDeviceClassPrefix
      then List.insert (trim_prefix name ResourceDeviceClassPrefix) classNames else classNames)"

text \<open>Case folding identifies \<open>s\<close> and \<open>S\<close> with U+017F, whose encoding has two bytes.\<close>

fun fold_runes :: "string \<Rightarrow> string" where
  "fold_runes (a # b # s) =
     (if a = CHR 0xC5 \<and> b = CHR 0xBF then CHR ''s'' # fold_runes s else lower a # fold_runes (b # s))"
| "fold_runes [a] = [lower a]"
| "fold_runes [] = []"

definition exclusiveAnnotation :: "admitted \<Rightarrow> bool" where
  "exclusiveAnnotation p \<longleftrightarrow> fold_runes (trim_space (get_or [] (annotations p) AnnotationExclusive)) \<noteq> ''false''"

definition standalone :: "admitted \<Rightarrow> bool" where
  "standalone p \<longleftrightarrow> \<not> hasController p \<and> \<not> hasSchedulingGroup p \<and> get_or [] (labels p) PodGroupLabel = []"

definition validateDRAResources :: "admission_config \<Rightarrow> admitted \<Rightarrow> err + unit" where
  "validateDRAResources A p =
     (let names = concat (map (\<lambda>c. map fst (requests (containerResources c)) @ map fst (limits (containerResources c)))
                    (initContainers p @ containers p));
          classNames = fold addDeviceClassName names [] in
      every (\<lambda>name. rbind (getDeviceClass A name) (\<lambda>deviceClass.
        case MatchDeviceClass (draRegistry A) (Some deviceClass) of
          Inl _ \<Rightarrow> Inl (OtherErr ''device class'')
        | Inr profile \<Rightarrow>
            if UsesCoreBitmap profile \<and> podRequestsNativeCPU p then Inl (OtherErr ''native cpu'')
            else check (\<not> (UsesCoreBitmap profile \<and> standalone p \<and> exclusiveAnnotation p)) ''exclusive cpu''))
        (sort classNames))"

definition validateTimeLimitAnnotation :: "admission_config \<Rightarrow> admitted \<Rightarrow> err + unit" where
  "validateTimeLimitAnnotation A p = (case map_of (annotations p) AnnotationTimeLimit of
     None \<Rightarrow> Inr () | Some value \<Rightarrow> rmap (\<lambda>_. ()) (timeLimit (parsing A) value))"

definition checkResourceList :: "bool \<Rightarrow> bool \<Rightarrow> (string, int) gomap \<Rightarrow> err + unit" where
  "checkResourceList hasCpuPerTask hasGres = every (\<lambda>(name, _).
     case cut_prefix name ResourceDeviceClassPrefix of
       None \<Rightarrow> Inr ()
     | Some cls \<Rightarrow>
         if hasCpuPerTask \<and> cls = DraDriverCpu then Inl (OtherErr ''cpu conflict'')
         else check (\<not> (hasGres \<and> cls \<noteq> DraDriverCpu)) ''gres conflict'')"

definition validateAnnotationConflicts :: "admitted \<Rightarrow> err + unit" where
  "validateAnnotationConflicts p =
     (let hasCpuPerTask = map_of (annotations p) AnnotationCpuPerTask \<noteq> None;
          hasGres = map_of (annotations p) AnnotationGres \<noteq> None in
      if \<not> hasCpuPerTask \<and> \<not> hasGres then Inr ()
      else every (every (\<lambda>c.
             rbind (checkResourceList hasCpuPerTask hasGres (requests (containerResources c))) (\<lambda>_.
               checkResourceList hasCpuPerTask hasGres (limits (containerResources c)))))
             [initContainers p, containers p])"

definition validateConstraintsAnnotation :: "admitted \<Rightarrow> err + unit" where
  "validateConstraintsAnnotation p = (case map_of (annotations p) AnnotationConstraints of
     None \<Rightarrow> Inr ()
   | Some constraints \<Rightarrow> (case Compose SlurmFeatureGRESCompatible constraints of
       Inl _ \<Rightarrow> Inl (OtherErr ''constraints'') | Inr _ \<Rightarrow> Inr ()))"

definition ValidateLWSPolicies :: "leader_worker_set \<Rightarrow> err + unit" where
  "ValidateLWSPolicies lws =
     (if deref 1 (lwsSize lws) > 1 \<and> lwsStartupPolicy lws = ''LeaderReady'' then Inl (OtherErr ''startup policy'')
      else check (lwsRestartPolicy lws = [] \<or> lwsRestartPolicy lws = ''RecreateGroupOnPodRestart'') ''restart policy'')"

definition validateSupportedWorkloads :: "admission_config \<Rightarrow> admitted \<Rightarrow> err + string list" where
  "validateSupportedWorkloads A p =
     (let name = get_or [] (labels p) SetNameLabelKey in
      if name = [] then Inr []
      else rbind (getLeaderWorkerSet A (namespace p) name) (\<lambda>lws. rmap (\<lambda>_. []) (ValidateLWSPolicies lws)))"

definition legacyFeatures :: "((admitted \<Rightarrow> bool) \<times> string) list" where
  "legacyFeatures =
     [(\<lambda>p. get_or [] (labels p) PodGroupLabel \<noteq> [], ''Legacyv1alpha1PodGroups''),
      (\<lambda>p. get_or [] (labels p) SetNameLabelKey \<noteq> [] \<and> \<not> nativeGroup p, ''LegacyLWSGangs'')]"

text \<open>A warning is named by its feature gate.\<close>

definition validateDeprecatedWorkloads ::
    "admission_config \<Rightarrow> admitted option \<Rightarrow> admitted \<Rightarrow> string list \<Rightarrow> err + string list" where
  "validateDeprecatedWorkloads A oldPod p warnings =
     (let legacy = filter (\<lambda>(used, gate). used p) legacyFeatures;
          tolerated = (\<lambda>(used, gate). enabled A gate \<or> (case oldPod of None \<Rightarrow> False | Some old \<Rightarrow> used old)) in
      if list_ex (\<lambda>f. \<not> tolerated f) legacy then Inl (OtherErr ''deprecated'')
      else Inr (warnings @ map snd legacy))"

definition ValidateCreate :: "admission_config \<Rightarrow> admitted \<Rightarrow> err + string list" where
  "ValidateCreate A p = rbind (isManagedNamespace A (namespace p)) (\<lambda>isManaged.
     if \<not> isManaged \<and> schedulerName p \<noteq> SchedulerName A then Inr []
     else rbind (check (get_or [] (labels p) LabelExternalJobId = []) ''job id label'') (\<lambda>_.
       rbind (check (get_or [] (annotations p) AnnotationExternalJobNode = []) ''node annotation'') (\<lambda>_.
       rbind (check (resourceClaims p = None) ''resource claims'') (\<lambda>_.
       rbind (check (topologySpreadConstraints p = []) ''topology spread'') (\<lambda>_.
       rbind (check (\<not> hasRequiredAffinity p) ''required affinity'') (\<lambda>_.
       rbind (validatePositiveResourceQuantities p) (\<lambda>_.
       rbind (validateDRAResources A p) (\<lambda>_.
       rbind (validateAnnotationConflicts p) (\<lambda>_.
       rbind (validateTimeLimitAnnotation A p) (\<lambda>_.
       rbind (validateConstraintsAnnotation p) (\<lambda>_.
       rbind (validateSupportedWorkloads A p) (validateDeprecatedWorkloads A None p))))))))))))"

definition ValidateUpdate :: "admission_config \<Rightarrow> admission_request option \<Rightarrow> admitted \<Rightarrow> admitted \<Rightarrow> err + string list" where
  "ValidateUpdate A req oldPod newPod = rbind (isManagedNamespace A (namespace newPod)) (\<lambda>isManaged.
     if \<not> isManaged \<and> schedulerName newPod \<noteq> SchedulerName A then Inr []
     else (case req of
       None \<Rightarrow> Inl (OtherErr ''request'')
     | Some r \<Rightarrow>
         rbind (check (subResource r \<noteq> ''resize'') ''resize'') (\<lambda>_.
         rbind (validateDRAResources A newPod) (\<lambda>_.
         rbind (validateAnnotationConflicts newPod) (\<lambda>_.
         rbind (validateConstraintsAnnotation newPod) (\<lambda>_.
           validateDeprecatedWorkloads A (Some oldPod) newPod []))))))"

definition ValidateDelete :: "admitted \<Rightarrow> err + string list" where
  "ValidateDelete p = Inr []"

section \<open>What the annotations of a workload amount to\<close>

text \<open>
  Of the annotations only six are parsed.  \<open>readable\<close> says that one of them parses, \<open>overlay\<close> reads
  every field from the map at once, without an order.
\<close>

definition readable :: "parsers \<Rightarrow> string \<Rightarrow> string \<Rightarrow> bool" where
  "readable Q k v \<longleftrightarrow>
     (if k \<in> {AnnotationCpuPerTask, AnnotationMemPerNode} then is_ok (ParseQuantity Q v)
      else if k \<in> {AnnotationMaxNodes, AnnotationMinNodes, AnnotationPriority} then ConvStrTo32 v \<noteq> None
      else if k = AnnotationTimeLimit then is_ok (timeLimit Q v) else True)"

definition given :: "(string \<Rightarrow> 'a) \<Rightarrow> string option \<Rightarrow> 'a option \<Rightarrow> 'a option" where
  "given f v old = (case v of None \<Rightarrow> old | Some s \<Rightarrow> Some (f s))"

lemma given_simps [simp]: "given f None old = old" "given f (Some s) old = Some (f s)"
  by (simp_all add: given_def)

definition overlay :: "parsers \<Rightarrow> (string \<rightharpoonup> string) \<Rightarrow> SlurmJobIRJobInfo \<Rightarrow> SlurmJobIRJobInfo" where
  "overlay Q m j = j\<lparr>
     Account := given id (m AnnotationAccount) (Account j),
     CpuPerTask := given (\<lambda>v. i32 (projr (ParseQuantity Q v))) (m AnnotationCpuPerTask) (CpuPerTask j),
     Constraints := given id (m AnnotationConstraints) (Constraints j),
     Exclusive := given (\<lambda>v. trim_space (map lower v) \<noteq> ''false'') (m AnnotationExclusive) (Exclusive j),
     Gres := given id (m AnnotationGres) (Gres j),
     GroupId := given id (m AnnotationGroupId) (GroupId j),
     JobName := given id (m AnnotationJobName) (JobName j),
     Licenses := given id (m AnnotationLicenses) (Licenses j),
     MemPerNode := given (\<lambda>v. projr (ParseQuantity Q v) sdiv 1048576) (m AnnotationMemPerNode) (MemPerNode j),
     MinNodes := given (the \<circ> ConvStrTo32) (m AnnotationMinNodes) (MinNodes j),
     MaxNodes := given (the \<circ> ConvStrTo32) (m AnnotationMaxNodes) (MaxNodes j),
     Partition := given id (m AnnotationPartition) (Partition j),
     Priority := given (the \<circ> ConvStrTo32) (m AnnotationPriority) (Priority j),
     QOS := given id (m AnnotationQOS) (QOS j),
     Reservation := given id (m AnnotationReservation) (Reservation j),
     TimeLimit := given (\<lambda>v. projr (timeLimit Q v)) (m AnnotationTimeLimit) (TimeLimit j),
     UserId := given id (m AnnotationUserId) (UserId j),
     Wckey := given id (m AnnotationWckey) (Wckey j)\<rparr>"

definition annotationNames :: "string list" where
  "annotationNames = [AnnotationAccount, AnnotationConstraints, AnnotationGres, AnnotationGroupId, AnnotationCpuPerTask,
     AnnotationExclusive, AnnotationJobName, AnnotationLicenses, AnnotationMaxNodes, AnnotationMemPerNode, AnnotationMinNodes,
     AnnotationPartition, AnnotationPriority, AnnotationQOS, AnnotationReservation, AnnotationTimeLimit, AnnotationUserId,
     AnnotationWckey]"

lemma annotationNames_distinct: "distinct annotationNames" "distinct (rev annotationNames)"
  by (simp_all add: annotationNames_def annotation_defs)

lemmas annotations_distinct [simp] = annotationNames_distinct [unfolded annotationNames_def, simplified]

lemma number32_ok: "is_ok (number32 v) \<longleftrightarrow> ConvStrTo32 v \<noteq> None"
  by (simp add: number32_def is_ok_def split: option.splits)

lemma is_ok_rmap: "is_ok (rmap f r) \<longleftrightarrow> is_ok r"
  by (cases r) simp_all

lemma annotate_ok: "is_ok (annotate Q (k, v) j) \<longleftrightarrow> readable Q k v"
  by (simp add: annotate_def readable_def number32_ok is_ok_rmap)

lemma overlay_none: "(\<And>a. a \<in> set annotationNames \<Longrightarrow> m a = None) \<Longrightarrow> overlay Q m j = j"
  by (cases j) (simp add: overlay_def annotationNames_def)

lemma overlay_at:
  "overlay Q [AnnotationAccount \<mapsto> v] j = j\<lparr>Account := Some v\<rparr>"
  "overlay Q [AnnotationConstraints \<mapsto> v] j = j\<lparr>Constraints := Some v\<rparr>"
  "overlay Q [AnnotationGres \<mapsto> v] j = j\<lparr>Gres := Some v\<rparr>"
  "overlay Q [AnnotationGroupId \<mapsto> v] j = j\<lparr>GroupId := Some v\<rparr>"
  "overlay Q [AnnotationJobName \<mapsto> v] j = j\<lparr>JobName := Some v\<rparr>"
  "overlay Q [AnnotationLicenses \<mapsto> v] j = j\<lparr>Licenses := Some v\<rparr>"
  "overlay Q [AnnotationPartition \<mapsto> v] j = j\<lparr>Partition := Some v\<rparr>"
  "overlay Q [AnnotationQOS \<mapsto> v] j = j\<lparr>QOS := Some v\<rparr>"
  "overlay Q [AnnotationReservation \<mapsto> v] j = j\<lparr>Reservation := Some v\<rparr>"
  "overlay Q [AnnotationUserId \<mapsto> v] j = j\<lparr>UserId := Some v\<rparr>"
  "overlay Q [AnnotationWckey \<mapsto> v] j = j\<lparr>Wckey := Some v\<rparr>"
  "overlay Q [AnnotationCpuPerTask \<mapsto> v] j = j\<lparr>CpuPerTask := Some (i32 (projr (ParseQuantity Q v)))\<rparr>"
  "overlay Q [AnnotationMemPerNode \<mapsto> v] j = j\<lparr>MemPerNode := Some (projr (ParseQuantity Q v) sdiv 1048576)\<rparr>"
  "overlay Q [AnnotationExclusive \<mapsto> v] j = j\<lparr>Exclusive := Some (trim_space (map lower v) \<noteq> ''false'')\<rparr>"
  "overlay Q [AnnotationMinNodes \<mapsto> v] j = j\<lparr>MinNodes := Some (the (ConvStrTo32 v))\<rparr>"
  "overlay Q [AnnotationMaxNodes \<mapsto> v] j = j\<lparr>MaxNodes := Some (the (ConvStrTo32 v))\<rparr>"
  "overlay Q [AnnotationPriority \<mapsto> v] j = j\<lparr>Priority := Some (the (ConvStrTo32 v))\<rparr>"
  "overlay Q [AnnotationTimeLimit \<mapsto> v] j = j\<lparr>TimeLimit := Some (projr (timeLimit Q v))\<rparr>"
  by (simp_all add: overlay_def)

lemma annotate_one:
  assumes "annotate Q (k, v) j = Inr j'"
  shows "j' = overlay Q [k \<mapsto> v] j"
proof (cases "k \<in> set annotationNames")
  case True
  then show ?thesis using assms
    unfolding annotationNames_def list.set
    by (elim insertE emptyE; hypsubst) (auto simp: annotate_def overlay_at number32_def split: option.splits elim!: result_elims)
next
  case False
  then have "overlay Q [k \<mapsto> v] j = j" by (auto intro!: overlay_none)
  with False assms show ?thesis by (simp add: annotationNames_def annotate_def)
qed

lemma given_given: "given f (m k) (given f (m' k) old) = given f ((m' ++ m) k) old"
  by (simp add: given_def map_add_def split: option.splits)

lemma overlay_overlay: "overlay Q m (overlay Q m' j) = overlay Q (m' ++ m) j"
  by (simp add: overlay_def given_given)

lemma map_of_Cons_add: "k \<notin> fst ` set rest \<Longrightarrow> [k \<mapsto> v] ++ map_of rest = map_of ((k, v) # rest)"
  using map_of_eq_None_iff [of rest k] by (intro ext) (simp add: map_add_def split: option.splits)

lemma annotateAll_ok: "is_ok (annotateAll Q anno j) \<longleftrightarrow> (\<forall>(k, v)\<in>set anno. readable Q k v)"
proof (induction anno arbitrary: j)
  case (Cons kv rest)
  obtain k v where kv: "kv = (k, v)" by force
  show ?case using annotate_ok [of Q k v j] by (cases "annotate Q (k, v) j") (auto simp: kv Cons)
qed simp

lemma annotateAll_overlay:
  "distinct (map fst anno) \<Longrightarrow> annotateAll Q anno j = Inr j' \<Longrightarrow> j' = overlay Q (map_of anno) j"
proof (induction anno arbitrary: j)
  case Nil
  then show ?case by (simp add: overlay_def)
next
  case (Cons kv rest)
  obtain k v where kv: "kv = (k, v)" by force
  from Cons.prems(2) obtain j1 where 1: "annotate Q (k, v) j = Inr j1" "annotateAll Q rest j1 = Inr j'"
    by (auto simp: kv elim!: result_elims)
  have "j' = overlay Q (map_of rest) (overlay Q [k \<mapsto> v] j)"
    using Cons.IH [OF _ 1(2)] annotate_one [OF 1(1)] Cons.prems(1) by (simp del: map_of.simps)
  moreover have "[k \<mapsto> v] ++ map_of rest = map_of (kv # rest)"
    unfolding kv by (rule map_of_Cons_add) (use Cons.prems(1) in \<open>simp add: kv\<close>)
  ultimately show ?case by (simp only: overlay_overlay)
qed

lemma parseUserAnnotations_exact:
  assumes "distinct (map fst anno)"
  shows "if \<forall>(k, v)\<in>set anno. readable Q k v
         then parseUserAnnotations Q c anno = Inr (c\<lparr>JobInfo := overlay Q (map_of anno) (JobInfo c)\<rparr>)
         else \<not> is_ok (parseUserAnnotations Q c anno)"
  using annotateAll_ok [of Q anno "JobInfo c"] annotateAll_overlay [OF assms, of Q "JobInfo c"]
  by (cases "annotateAll Q anno (JobInfo c)") (auto simp: parseUserAnnotations_def)

section \<open>What admission promises to the scheduler\<close>

text \<open>A pod is handled when its namespace is managed or it names the bridge as its scheduler.\<close>

definition handled :: "admission_config \<Rightarrow> admitted \<Rightarrow> bool" where
  "handled A p \<longleftrightarrow> (case isManagedNamespace A (namespace p) of
     Inl _ \<Rightarrow> False | Inr isManaged \<Rightarrow> isManaged \<or> schedulerName p = SchedulerName A)"

definition numbersReadable :: "parsers \<Rightarrow> strmap \<Rightarrow> bool" where
  "numbersReadable Q anno \<longleftrightarrow> (\<forall>(k, v)\<in>set anno. k = AnnotationTimeLimit \<or> readable Q k v)"

lemma handledE:
  assumes "handled A p"
  obtains isManaged where "isManagedNamespace A (namespace p) = Inr isManaged"
    "isManaged \<or> schedulerName p = SchedulerName A"
  using assms by (auto simp: handled_def split: sum.splits)

lemma ValidateCreate_annotations:
  assumes "handled A p" "ValidateCreate A p = Inr ws"
  shows "validateTimeLimitAnnotation A p = Inr ()" "validateConstraintsAnnotation p = Inr ()"
  using assms by (auto simp: ValidateCreate_def elim!: handledE rbind_InrE)

lemma admitted_time_limit:
  assumes "handled A p" "ValidateCreate A p = Inr ws" "(AnnotationTimeLimit, v) \<in> set (annotations p)"
    and "distinct (map fst (annotations p))"
  shows "readable (parsing A) AnnotationTimeLimit v"
proof -
  have "map_of (annotations p) AnnotationTimeLimit = Some v" using assms(3,4) by simp
  with ValidateCreate_annotations(1) [OF assms(1,2)] have "rmap (\<lambda>_. ()) (timeLimit (parsing A) v) = Inr ()"
    by (simp add: validateTimeLimitAnnotation_def)
  then show ?thesis by (auto simp: readable_def elim!: rmap_InrE)
qed

lemma admitted_readable:
  assumes "handled A p" "ValidateCreate A p = Inr ws" "distinct (map fst (annotations p))"
  shows "(\<forall>(k, v)\<in>set (annotations p). readable (parsing A) k v) \<longleftrightarrow> numbersReadable (parsing A) (annotations p)"
  using admitted_time_limit [OF assms(1,2) _ assms(3)] by (auto simp: numbersReadable_def)

lemma trim_space_Nil: "trim_space [] = []"
  using trim_space_set [of "[]"] by simp

lemma admitted_constraints:
  assumes "handled A p" "ValidateCreate A p = Inr ws" "Constraints j = None"
  shows "is_ok (gresCompatibilityConstraint (Constraints (overlay Q (map_of (annotations p)) j)))"
proof (cases "map_of (annotations p) AnnotationConstraints")
  case None
  have "Compose SlurmFeatureGRESCompatible [] = Inr SlurmFeatureGRESCompatible"
    by (simp add: Compose_def trim_space_Nil)
  then show ?thesis using None assms(3) by (simp add: overlay_def gresCompatibilityConstraint_def)
next
  case (Some v)
  with ValidateCreate_annotations(2) [OF assms(1,2)] show ?thesis
    by (auto simp: overlay_def gresCompatibilityConstraint_def validateConstraintsAnnotation_def split: sum.splits)
qed

lemma buildJobSubmission_ok:
  "is_ok (buildJobSubmission cfg owner c) \<longleftrightarrow> is_ok (gresCompatibilityConstraint (Constraints (JobInfo c)))"
  by (cases "gresCompatibilityConstraint (Constraints (JobInfo c))") (simp_all add: buildJobSubmission_def buildJobDesc_def Let_def)

text \<open>
  C13. From admission to submission.  For a handled pod that the create webhook admits, the time
  limit and the constraints can no longer fail.  If the numeric annotations parse, reading the
  annotations into a component and building the job description succeeds, and the description is the
  one of the component in which each annotated field has the annotated value, in whatever order the
  map is visited.  If a numeric annotation does not parse, reading fails.
\<close>

theorem admitted_pod_submits:
  assumes "handled A p" "ValidateCreate A p = Inr ws"
    and "distinct (map fst (annotations p))" "Constraints (JobInfo c) = None"
  shows "let parsed = parseUserAnnotations (parsing A) c (annotations p);
             component = c\<lparr>JobInfo := overlay (parsing A) (map_of (annotations p)) (JobInfo c)\<rparr> in
         if numbersReadable (parsing A) (annotations p)
         then \<exists>d. rbind parsed (buildJobSubmission cfg owner) = Inr d \<and> buildJobSubmission cfg owner component = Inr d
         else \<not> is_ok parsed"
proof -
  have "is_ok (buildJobSubmission cfg owner (c\<lparr>JobInfo := overlay (parsing A) (map_of (annotations p)) (JobInfo c)\<rparr>))"
    using admitted_constraints [OF assms(1,2,4)] by (simp add: buildJobSubmission_ok)
  then obtain d where "buildJobSubmission cfg owner
      (c\<lparr>JobInfo := overlay (parsing A) (map_of (annotations p)) (JobInfo c)\<rparr>) = Inr d"
    by (auto simp: is_ok_def split: sum.splits)
  then show ?thesis
    using parseUserAnnotations_exact [OF assms(3), of "parsing A" c]
    unfolding admitted_readable [OF assms(1-3)] by (simp add: Let_def split: if_split_asm)
qed

lemma MergeTolerations_matches:
  "matchToleration A t t \<Longrightarrow> list_ex (\<lambda>cur. matchToleration A cur t) (MergeTolerations A ts t)"
  by (simp add: MergeTolerations_def)

lemma MergeTolerations_again:
  "matchToleration A t t \<Longrightarrow> MergeTolerations A (MergeTolerations A ts t) t = MergeTolerations A ts t"
  using MergeTolerations_matches [of A t ts] by (simp add: MergeTolerations_def [of A "MergeTolerations A ts t"])

lemmas default_steps = unsetNodeName_def takeScheduler_def addToleration_def addGate_def claimPod_def

definition defaulted :: "admission_config \<Rightarrow> admission_request option \<Rightarrow> admitted \<Rightarrow> admitted" where
  "defaulted A req p = claimPod A req (takeScheduler A (unsetNodeName req p))"

lemma Default_defaulted:
  assumes "Default A req p = Inr p'"
  shows "p' = (if handled A p then defaulted A req p else p)"
  using assms by (auto simp: Default_def handled_def defaulted_def split: if_splits elim!: rbind_InrE)

lemma unsetNodeName_fields [simp]:
  "namespace (unsetNodeName req p) = namespace p" "schedulerName (unsetNodeName req p) = schedulerName p"
  "nodeName (unsetNodeName req p) = (if creating req then [] else nodeName p)"
  "tolerations (unsetNodeName req p) = tolerations p" "schedulingGates (unsetNodeName req p) = schedulingGates p"
  "nativeGroup (unsetNodeName req p) = nativeGroup p"
  by (simp_all add: unsetNodeName_def nativeGroup_def)

lemma takeScheduler_fields [simp]:
  "namespace (takeScheduler A p) = namespace p" "nodeName (takeScheduler A p) = nodeName p"
  "schedulerName (takeScheduler A p) =
     (if schedulerName p = ''default-scheduler'' then SchedulerName A else schedulerName p)"
  "tolerations (takeScheduler A p) = tolerations p" "schedulingGates (takeScheduler A p) = schedulingGates p"
  "nativeGroup (takeScheduler A p) = nativeGroup p"
  by (simp_all add: takeScheduler_def nativeGroup_def)

lemma claimPod_fields [simp]:
  "namespace (claimPod A req p) = namespace p" "nodeName (claimPod A req p) = nodeName p"
  "schedulerName (claimPod A req p) = schedulerName p" "nativeGroup (claimPod A req p) = nativeGroup p"
  "tolerations (claimPod A req p) =
     (if schedulerName p = SchedulerName A
      then MergeTolerations A (tolerations p) (NewTolerationNodeBridged (SchedulerName A)) else tolerations p)"
  "schedulingGates (claimPod A req p) =
     (if schedulerName p = SchedulerName A \<and> creating req \<and> \<not> nativeGroup p \<and>
         SchedulingGateRegistration \<notin> set (schedulingGates p)
      then schedulingGates p @ [SchedulingGateRegistration] else schedulingGates p)"
  by (simp_all add: claimPod_def addGate_def addToleration_def nativeGroup_def)

lemma step_frames:
  "unsetNodeName req p = p\<lparr>nodeName := nodeName (unsetNodeName req p)\<rparr>"
  "takeScheduler A p = p\<lparr>schedulerName := schedulerName (takeScheduler A p)\<rparr>"
  "claimPod A req p = p\<lparr>tolerations := tolerations (claimPod A req p), schedulingGates := schedulingGates (claimPod A req p)\<rparr>"
  by (simp_all add: default_steps nativeGroup_def)

lemma frame_compose:
  fixes p a b c :: admitted
  assumes "a = p\<lparr>nodeName := nodeName a\<rparr>" "b = a\<lparr>schedulerName := schedulerName b\<rparr>"
    and "c = b\<lparr>tolerations := tolerations c, schedulingGates := schedulingGates c\<rparr>"
  shows "c = p\<lparr>nodeName := nodeName c, schedulerName := schedulerName c, tolerations := tolerations c,
              schedulingGates := schedulingGates c\<rparr>"
  using assms by (cases p; cases a; cases b; cases c) simp

lemma defaulted_frame:
  "defaulted A req p = p\<lparr>nodeName := nodeName (defaulted A req p), schedulerName := schedulerName (defaulted A req p),
     tolerations := tolerations (defaulted A req p), schedulingGates := schedulingGates (defaulted A req p)\<rparr>"
  unfolding defaulted_def by (rule frame_compose [OF step_frames])

lemma defaulted_again:
  assumes "\<And>t. matchToleration A t t"
  shows "defaulted A req (defaulted A req p) = defaulted A req p"
proof -
  let ?q = "defaulted A req p"
  have "nodeName (defaulted A req ?q) = nodeName ?q" "schedulerName (defaulted A req ?q) = schedulerName ?q"
    "schedulingGates (defaulted A req ?q) = schedulingGates ?q"
    by (simp_all add: defaulted_def)
  moreover have "tolerations (defaulted A req ?q) = tolerations ?q"
    by (simp add: defaulted_def MergeTolerations_again [OF assms])
  ultimately show ?thesis using defaulted_frame [of A req ?q] by simp
qed

lemma handled_defaulted: "handled A p \<Longrightarrow> handled A (defaulted A req p)"
  by (auto simp: handled_def defaulted_def split: sum.splits)

lemma Default_handled: "handled A p \<Longrightarrow> Default A req p = Inr (defaulted A req p)"
  by (auto simp: Default_def defaulted_def elim!: handledE)

lemma Default_again:
  assumes "\<And>t. matchToleration A t t" "Default A req p = Inr p'"
  shows "Default A req p' = Inr p'"
  using Default_defaulted [OF assms(2)] assms(2) defaulted_again [OF assms(1)]
    Default_handled [OF handled_defaulted] by (cases "handled A p") simp_all

lemma Default_frame:
  assumes "Default A req p = Inr p'"
  shows "p' = p\<lparr>nodeName := nodeName p', schedulerName := schedulerName p', tolerations := tolerations p',
               schedulingGates := schedulingGates p'\<rparr>"
  using Default_defaulted [OF assms] defaulted_frame [of A req p] by (cases "handled A p") simp_all

lemma Default_claims:
  assumes "\<And>t. matchToleration A t t" "Default A req p = Inr p'" "handled A p"
    and "schedulerName p \<in> {''default-scheduler'', SchedulerName A}"
  shows "schedulerName p' = SchedulerName A"
    and "list_ex (\<lambda>cur. matchToleration A cur (NewTolerationNodeBridged (SchedulerName A))) (tolerations p')"
    and "creating req \<longrightarrow> nodeName p' = [] \<and>
          (SchedulingGateRegistration \<in> set (schedulingGates p') \<or> nativeGroup p)"
    and "nativeGroup p \<longrightarrow> schedulingGates p' = schedulingGates p"
  using Default_defaulted [OF assms(2)] assms(3,4) MergeTolerations_matches [OF assms(1)]
  by (auto simp: defaulted_def)

text \<open>
  C14. The mutating webhook.  Given that a toleration matches itself, running the defaulter again
  changes nothing, as its reinvocation policy needs.  It changes only the node name, the scheduler
  name, the tolerations and the scheduling gates.  A handled pod of the default scheduler or of the
  bridge gets the bridge as its scheduler and tolerates bridged nodes; on creation its node name is
  cleared, and unless it belongs to a native pod group it waits behind the registration gate.
\<close>

theorem Default_idempotent:
  assumes "\<And>t. matchToleration A t t" "Default A req p = Inr p'"
  shows "Default A req p' = Inr p' \<and>
    p' = p\<lparr>nodeName := nodeName p', schedulerName := schedulerName p', tolerations := tolerations p',
           schedulingGates := schedulingGates p'\<rparr> \<and>
    (handled A p \<and> schedulerName p \<in> {''default-scheduler'', SchedulerName A} \<longrightarrow>
       schedulerName p' = SchedulerName A \<and>
       list_ex (\<lambda>cur. matchToleration A cur (NewTolerationNodeBridged (SchedulerName A))) (tolerations p') \<and>
       (creating req \<longrightarrow> nodeName p' = [] \<and>
          (SchedulingGateRegistration \<in> set (schedulingGates p') \<or> nativeGroup p)) \<and>
       (nativeGroup p \<longrightarrow> schedulingGates p' = schedulingGates p))"
  by (intro conjI impI Default_again [OF assms] Default_frame [OF assms(2)])
     (use Default_claims [OF assms] in blast)+

definition sample_parsers :: parsers where
  "sample_parsers = \<lparr>ParseQuantity = \<lambda>s. if s = ''4'' then Inr 4 else Inl (OtherErr ''quantity''), ParseDuration = \<lambda>_. Inl ''not a duration''\<rparr>"

definition sample_admission :: admission_config where
  "sample_admission = \<lparr>SchedulerName = ''slurm-bridge'', ManagedNamespaces = [''jobs''], ManagedNamespaceSelector = None,
     DRARegistry = None, defaultRegistry = \<lparr>byName = [], bySelector = [], byDriver = [], byIndexedGRESType = []\<rparr>,
     getNamespace = \<lambda>_. Inl NotFound, getDeviceClass = \<lambda>_. Inl NotFound, getLeaderWorkerSet = \<lambda>_ _. Inl NotFound,
     enabled = \<lambda>_. True,
     matchToleration = \<lambda>a b. tolKey a = tolKey b \<and> tolEffect a = tolEffect b \<and> tolOperator a = tolOperator b \<and> tolValue a = tolValue b,
     parsing = sample_parsers\<rparr>"

definition annotated_pod :: admitted where
  "annotated_pod = pod.extend (empty_pod\<lparr>namespace := ''jobs'', pname := ''a'', nodeName := ''n1'', schedulerName := ''default-scheduler'',
     annotations := [(AnnotationTimeLimit, ''30''), (AnnotationConstraints, ''gpu''), (AnnotationCpuPerTask, ''4'')]\<rparr>)
     (admitted.fields False False None [] None [] None [] [])"

definition plain_component :: SlurmJobComponent where
  "plain_component = \<lparr>ObjectMeta = \<lparr>om_group = [], om_version = [], om_kind = [], om_namespace = ''jobs'', om_name = ''a'', om_uid = ''u'',
     om_annotations = []\<rparr>, JobInfo = emptyJobInfo, Pods = []\<rparr>"

lemma annotated_pod_annotations:
  "validateTimeLimitAnnotation sample_admission annotated_pod = Inr ()" "validateConstraintsAnnotation annotated_pod = Inr ()"
proof -
  have "trim_space ''30'' = ''30''" "show_nat 30 = ''30''" by code_simp+
  moreover have "parse_uint 31 (show_nat 30) = Some 30" by (rule parse_uint_show) simp
  ultimately have "timeLimit sample_parsers ''30'' = Inr 30"
    by (simp add: timeLimit_def Parse_def has_prefix_def toMinutes_def limit_units i64_def i32_def max_int32_def)
  then show "validateTimeLimitAnnotation sample_admission annotated_pod = Inr ()"
    by (simp add: validateTimeLimitAnnotation_def annotated_pod_def pod.extend_def sample_admission_def)
  have "is_ok (Compose SlurmFeatureGRESCompatible ''gpu'')" by code_simp
  then show "validateConstraintsAnnotation annotated_pod = Inr ()"
    by (simp add: validateConstraintsAnnotation_def annotated_pod_def pod.extend_def is_ok_def split: sum.splits)
qed

lemma annotated_pod_admitted: "ValidateCreate sample_admission annotated_pod = Inr []"
proof -
  have 1: "get_or [] (annotations annotated_pod) AnnotationExternalJobNode = []" by code_simp
  have 2: "get_or [] [] k = ([] :: string)" for k :: string by (simp add: get_or_def)
  have 3: "namespace annotated_pod = ''jobs''" "labels annotated_pod = []" "resourceClaims annotated_pod = None"
    "topologySpreadConstraints annotated_pod = []" "podAffinity annotated_pod = None" "podResources annotated_pod = None"
    "initContainers annotated_pod = []" "containers annotated_pod = []"
    by (simp_all add: annotated_pod_def pod.extend_def admitted.fields_def empty_pod_def)
  have 4: "isManagedNamespace sample_admission ''jobs'' = Inr True"
    by (simp add: isManagedNamespace_def sample_admission_def)
  show ?thesis
    by (simp add: ValidateCreate_def 1 2 3 4 annotated_pod_annotations check_def hasRequiredAffinity_def every_def Let_def
        validatePositiveResourceQuantities_def validateDRAResources_def validateAnnotationConflicts_def
        validateSupportedWorkloads_def validateDeprecatedWorkloads_def legacyFeatures_def)
qed

theorem admitted_pod_submits_witness:
  "let parsed = parseUserAnnotations sample_parsers plain_component (annotations annotated_pod);
       component = plain_component\<lparr>JobInfo := overlay sample_parsers (map_of (annotations annotated_pod)) (JobInfo plain_component)\<rparr> in
   \<exists>d. rbind parsed (buildJobSubmission sample_sched (ObjectMeta plain_component)) = Inr d \<and>
       buildJobSubmission sample_sched (ObjectMeta plain_component) component = Inr d"
proof -
  have 1: "handled sample_admission annotated_pod" by code_simp
  have 2: "ValidateCreate sample_admission annotated_pod = Inr []" by (rule annotated_pod_admitted)
  have 3: "distinct (map fst (annotations annotated_pod))" by code_simp
  have 4: "Constraints (JobInfo plain_component) = None" by code_simp
  have 5: "numbersReadable (parsing sample_admission) (annotations annotated_pod)"
    by (simp add: numbersReadable_def readable_def annotated_pod_def pod.extend_def sample_admission_def sample_parsers_def)
  have 6: "parsing sample_admission = sample_parsers" by (simp add: sample_admission_def)
  show ?thesis
    using admitted_pod_submits [OF 1 2 3 4, of sample_sched "ObjectMeta plain_component"] 5 unfolding 6 Let_def by simp
qed

definition create_request :: admission_request where
  "create_request = \<lparr>operation = ''CREATE'', subResource = []\<rparr>"

definition gated_pod :: admitted where
  "gated_pod = annotated_pod\<lparr>nodeName := [], schedulerName := ''slurm-bridge'',
     tolerations := [NewTolerationNodeBridged ''slurm-bridge''], schedulingGates := [SchedulingGateRegistration]\<rparr>"

theorem Default_idempotent_witness:
  "Default sample_admission (Some create_request) annotated_pod = Inr gated_pod \<and>
   Default sample_admission (Some create_request) gated_pod = Inr gated_pod"
proof -
  have 1: "matchToleration sample_admission t t" for t by (simp add: sample_admission_def)
  have 2: "Default sample_admission (Some create_request) annotated_pod = Inr gated_pod"
    by (simp add: Default_def isManagedNamespace_def default_steps creating_def create_request_def nativeGroup_def MergeTolerations_def
        sample_admission_def annotated_pod_def gated_pod_def pod.extend_def admitted.fields_def empty_pod_def)
  show ?thesis using Default_idempotent [OF 1 2] 2 by blast
qed

end
