(* ===== verification/Spec2Isabelle.thy ===== *)
theory Spec2Isabelle
  imports Time_Limit Slurm_Constraint Duration_Store Registration_Controller Node_Requeue Admission
begin

text \<open>
  A verification development for slurm-bridge, the Kubernetes scheduler that places pods through
  Slurm.

  \<^bold>\<open>The program.\<close>  A pod enters through the webhook (\<open>internal/admission\<close>), which claims it for the bridge
  and puts it behind a scheduling gate.  The registration controller
  (\<open>internal/controller/registration\<close>) finds the workload of the pod, submits one held external Slurm
  job per component, publishes the job identifier on the pods, opens the gate, and later releases jobs,
  claims and finalizers.  The scheduler plugin updates and releases the jobs through its Slurm control
  (\<open>internal/scheduler/plugins/slurmbridge/slurmcontrol\<close>) and turns the layout that Slurm allocates into
  CPUs and devices (\<open>internal/nodeinfo\<close>, \<open>internal/dra\<close>).  The node controller
  (\<open>internal/controller/node\<close>) registers Kubernetes nodes in Slurm and keeps taints, drain state and the
  published inventory in step.

  \<^bold>\<open>Foundations.\<close>
  \<^item> \<open>Bridge_Prelude\<close>: results \<open>'e + 'a\<close> with \<open>rbind\<close>, \<open>rmap\<close> and \<open>collect\<close>, Go maps as association lists, and
    the locale \<open>keyed_store\<close> interpreted on them.
  \<^item> \<open>Go_Text\<close>: what the code uses of \<open>strings\<close> and \<open>strconv\<close>, and the locale \<open>codec\<close>, interpreted on decimal
    numbers, pod keys, group keys, ownership records and device paths.
  \<^item> \<open>Effects\<close>: handlers as state monads over a world and a trace of calls, with weakest preconditions and
    guarded traces.  A guard says of each call what the calls before it must have shown.
  \<^item> \<open>Kube_Types\<close>, \<open>Resource_Types\<close>, \<open>Cluster_Api\<close>, \<open>Node_Api\<close>: the objects and calls of the two clusters.  Every
    call is a field of a record and may return anything, errors included, so a theorem about a handler
    holds for every cluster and for every interleaving of other writers between its calls.

  \<^bold>\<open>Components.\<close>
  \<^item> \<open>Time_Limit\<close> (\<open>internal/utils/timelimit\<close>): parsing equals the exact rounding-up reading; no int64 step wraps.
  \<^item> \<open>Slurm_Constraint\<close> (\<open>internal/utils/slurmconstraint\<close>): the scanner, and that the composed constraint means
    the conjunction and is well formed.
  \<^item> \<open>Duration_Store\<close> (\<open>internal/utils/durationstore\<close>): the locale \<open>keeps_best\<close> and the longest delay.
  \<^item> \<open>Job_IR\<close>, \<open>External_Job\<close>, \<open>Slurm_Job\<close>, \<open>Pod_Metadata\<close> (\<open>internal/utils/slurmjobir\<close>, \<open>externaljobinfo\<close>, \<open>slurmjob\<close>):
    validation of the job representation, round trips of ownership records, the single allocation that a
    lookup returns, repair of pod metadata and live verification of links.
  \<^item> \<open>Registration_Keys\<close>, \<open>Registration_Lifecycle\<close>, \<open>Registration_Safety\<close>, \<open>Registration_Duplicates\<close>,
    \<open>Registration_Controller\<close>: the registration controller.  The locale \<open>read_invariant\<close> carries an invariant
    through every read; its interpretations give the guards of the lifecycle, of duplicate recovery and of
    the whole reconciliation.
  \<^item> \<open>Scheduler_Control\<close>: job descriptions, registration, updates with the cache of the last description,
    release, deletion and resource layouts.  A workload is submitted held in one request or not at all,
    and the cache is transparent after any sequence of operations.
  \<^item> \<open>Admission\<close>: the webhook and \<open>parseUserAnnotations\<close>.  The defaulter is idempotent, and what it admits can be
    described to Slurm unless a numeric annotation does not parse.
  \<^item> \<open>Bitmap_Util\<close>, \<open>Cpu_Topology\<close>, \<open>Cpu_Map\<close>, \<open>Node_Info\<close>, \<open>Node_Allocation\<close> (\<open>internal/utils/bitmaputil\<close>,
    \<open>internal/nodeinfo\<close>): core bitmaps, the CPU topology of a node, the maps between cores and CPUs, and the
    CPUs of an allocation.
  \<^item> \<open>Dra_Gres\<close>, \<open>Dra_Registry\<close>, \<open>Dra_Inventory\<close> (\<open>internal/dra\<close>): device profiles and their selectors, the registry,
    the inventory of a node and the applied inventory stored in Slurm.
  \<^item> \<open>Node_Index\<close>, \<open>Node_Slurm\<close>, \<open>Node_Sync\<close>, \<open>Node_Safety\<close>, \<open>Node_Requeue\<close>: the node controller, its Slurm control and
    the Slurm node runnable.  The locale \<open>node_run\<close> carries the guard of the writes through a reconcile, and
    \<open>node_frame\<close> carries facts about the delays and about the trace.

  \<^bold>\<open>Correspondence.\<close>  Definitions keep the names of the source; a loop body or a closure that has no name
  there is a definition of its own.  A pointer is an option, a nil slice or map is the empty list, a
  struct is a record with the fields that are used, int32 and int64 are integers with \<open>i32\<close> and \<open>i64\<close> where a
  step may wrap, and an error is a constructor or a tag instead of its text.  A map is visited in the
  order of its association list; where the result must not depend on it, a lemma says so.
  \<open>slices.SortFunc\<close> is a stable sort.  An unset number of the Slurm API keeps its set flag and its value.
  The NUMA quotient is a rational before it is rounded.

  \<^bold>\<open>Parameters.\<close>  The clients of Kubernetes and Slurm, JSON, the CEL parser, the parsers of quantities, CPU lists
  and Prometheus durations, name validation, the taint helpers, \<open>MatchToleration\<close>, feature gates, and the
  eviction rule of the update cache are arguments.  What is assumed of them is a hypothesis of the
  theorem: a toleration matches itself, eviction keeps the entries it does not drop, a duration is not
  negative.  Each such theorem is applied at a concrete instance.

  \<^bold>\<open>Termination.\<close>  Every function is total.  The loop that removes socket affinities from a GRES string is a
  \<open>while_option\<close>, and it is shown to return on every input.  No definition uses fuel.

  \<^bold>\<open>Findings.\<close>  \<open>bridged_requeue_lost\<close> shows that the requeue delay of a bridged node is stored under the node
  name and popped under the request name, so it is never returned.

  \<^bold>\<open>Not modelled.\<close>  The extension points of the scheduler plugin (\<open>slurmbridge.go\<close>, \<open>legacy.go\<close>, \<open>native_state.go\<close>,
  \<open>eligibility.go\<close>, \<open>release.go\<close>, \<open>allocation_queue.go\<close>) and its claims (\<open>dra.go\<close>, \<open>deviceprofile.go\<close>) run on the cycle state
  and the queues of the Kubernetes scheduler framework, which is not part of the repository.  The
  translators from API objects in \<open>slurmjobir\<close> are reads; their results are reads of the modelled cluster.
  Goroutines and locks are not modelled: a handler runs alone, and concurrent reads run in sequence.
  Wiring of managers, informers and clients, configuration files, programs and tests are left out.
\<close>

end
